(* ===== verification/Dbl_Prelude.thy ===== *)
theory Dbl_Prelude
  imports Main "HOL-Library.Char_ord" "HOL-Library.List_Lexorder"
begin

text \<open>
  Shared ground of the development: the exceptions and outcomes of the C++ code, the string
  operations it takes from the standard library and from \<open>boost::algorithm\<close>, ordered association
  lists, and the interfaces the tables of the database provide (\<open>kv_put\<close>, \<open>kv_store\<close>, \<open>kv_add\<close>).
\<close>

named_theorems run_iff \<open>when a computation over the error sum succeeds\<close>
named_theorems frame \<open>what an operation leaves unchanged\<close>
named_theorems wf_intros \<open>operations keep the well-formedness invariant\<close>

section \<open>Exceptions and outcomes\<close>

text \<open>
  The exception classes the handlers of the code tell apart.  \<open>ServiceOperationError\<close>
  (service_connection.hxx) and \<open>filesystem_error\<close> derive from \<open>std::runtime_error\<close>; the last
  constructor stands for every other class below \<open>std::exception\<close>.
\<close>

datatype exn =
    RuntimeError string
  | ServiceOperationError string "string list"
  | FilesystemError string string
  | OtherException string

fun what :: "exn \<Rightarrow> string" where
  "what (RuntimeError m) = m"
| "what (ServiceOperationError m es) = m"
| "what (FilesystemError m p) = m"
| "what (OtherException m) = m"

fun is_runtime_error :: "exn \<Rightarrow> bool" where
  "is_runtime_error (OtherException m) = False"
| "is_runtime_error e = True"

text \<open>
  How a call can end: with a value, with an exception, or by dereferencing a null
  \<open>unique_ptr\<close>, which is undefined behaviour and ends the process.
\<close>

datatype 'a outcome = Ok 'a | Throw exn | Crash

text \<open>Sequencing over the error sum, and over a list from left to right.\<close>

fun bindE :: "exn + 'a \<Rightarrow> ('a \<Rightarrow> exn + 'b) \<Rightarrow> exn + 'b" where
  "bindE (Inl e) f = Inl e"
| "bindE (Inr x) f = f x"

fun mapE :: "('a \<Rightarrow> exn + 'b) \<Rightarrow> 'a list \<Rightarrow> exn + 'b list" where
  "mapE f [] = Inr []"
| "mapE f (x # xs) = bindE (f x) (\<lambda>y. bindE (mapE f xs) (\<lambda>ys. Inr (y # ys)))"

fun foldE :: "('a \<Rightarrow> 's \<Rightarrow> exn + 's) \<Rightarrow> 'a list \<Rightarrow> 's \<Rightarrow> exn + 's" where
  "foldE f [] s = Inr s"
| "foldE f (x # xs) s = bindE (f x s) (foldE f xs)"

lemma bindE_Inr_iff [run_iff]: "bindE m f = Inr y \<longleftrightarrow> (\<exists>x. m = Inr x \<and> f x = Inr y)"
  by (cases m) auto

lemma bindE_Inl_iff [run_iff]:
  "bindE m f = Inl e \<longleftrightarrow> m = Inl e \<or> (\<exists>x. m = Inr x \<and> f x = Inl e)"
  by (cases m) auto

lemma mapE_all: "(\<And>x. x \<in> set xs \<Longrightarrow> f x = Inr (g x)) \<Longrightarrow> mapE f xs = Inr (map g xs)"
  by (induction xs) auto

lemma foldE_append: "foldE f (xs @ ys) s = bindE (foldE f xs s) (foldE f ys)"
proof (induction xs arbitrary: s)
  case (Cons x xs)
  then show ?case by (cases "f x s") auto
qed simp

text \<open>A loop that cannot fail while \<open>P\<close> holds is a plain fold.\<close>

lemma foldE_ok:
  assumes "P s" and "\<And>x s. x \<in> set xs \<Longrightarrow> P s \<Longrightarrow> f x s = Inr (g x s) \<and> P (g x s)"
  shows "foldE f xs s = Inr (fold g xs s) \<and> P (fold g xs s)"
  using assms
proof (induction xs arbitrary: s)
  case (Cons x xs)
  from Cons.prems have "f x s = Inr (g x s)" and "P (g x s)" by auto
  with Cons show ?case by simp
qed simp

lemma fold_invariant_set:
  assumes "P s" and "\<And>x s. x \<in> set xs \<Longrightarrow> P s \<Longrightarrow> P (g x s)"
  shows "P (fold g xs s)"
  using assms by (induction xs arbitrary: s) auto

lemma foldE_invariant:
  assumes "foldE f xs s = Inr t" and "P s"
    and "\<And>x s t. x \<in> set xs \<Longrightarrow> P s \<Longrightarrow> f x s = Inr t \<Longrightarrow> P t"
  shows "P t"
  using assms
proof (induction xs arbitrary: s)
  case (Cons x xs)
  from Cons.prems(1) obtain u where "f x s = Inr u" and "foldE f xs u = Inr t"
    by (auto simp: run_iff)
  with Cons.prems(2,3) show ?case
    by (intro Cons.IH [of u]) (auto intro: Cons.prems(3) [of x s u])
qed simp

section \<open>Strings\<close>

text \<open>
  \<open>std::tolower\<close> and \<open>std::isspace\<close> in the classic locale, as \<open>boost::algorithm::to_lower\<close> and
  \<open>trim\<close> apply them.
\<close>

definition to_lower_char :: "char \<Rightarrow> char" where
  "to_lower_char c = (let n = of_char c :: nat in if 65 \<le> n \<and> n \<le> 90 then char_of (n + 32) else c)"

definition to_lower :: "string \<Rightarrow> string" where
  "to_lower s = map to_lower_char s"

definition is_space :: "char \<Rightarrow> bool" where
  "is_space c = (let n = of_char c :: nat in n = 32 \<or> (9 \<le> n \<and> n \<le> 13))"

definition trim_copy :: "string \<Rightarrow> string" where
  "trim_copy s = rev (dropWhile is_space (rev (dropWhile is_space s)))"

text \<open>\<open>boost::algorithm::split\<close> at one separator character, without token compression.\<close>

fun split_at_char :: "char \<Rightarrow> string \<Rightarrow> string list" where
  "split_at_char c [] = [[]]"
| "split_at_char c (x # xs) =
     (if x = c then [] # split_at_char c xs
      else (case split_at_char c xs of [] \<Rightarrow> [[x]] | w # ws \<Rightarrow> (x # w) # ws))"

text \<open>\<open>std::string::find\<close> of a character: \<open>None\<close> is \<open>npos\<close>.\<close>

fun find_char :: "char \<Rightarrow> string \<Rightarrow> nat option" where
  "find_char c [] = None"
| "find_char c (x # xs) = (if x = c then Some 0 else map_option Suc (find_char c xs))"

text \<open>\<open>std::to_string\<close> of an integer.\<close>

fun show_nat :: "nat \<Rightarrow> string" where
  "show_nat n = (if n < 10 then [char_of (48 + n)] else show_nat (n div 10) @ [char_of (48 + n mod 10)])"

declare show_nat.simps [simp del]

definition show_int :: "int \<Rightarrow> string" where
  "show_int i = (if i < 0 then CHR ''-'' # show_nat (nat (- i)) else show_nat (nat i))"

definition CR :: string where "CR = [char_of (13::nat)]"
definition LF :: string where "LF = [char_of (10::nat)]"
definition CRLF :: string where "CRLF = CR @ LF"

lemma CRLF_eq: "CRLF = [CHR 0x0D, CHR 0x0A]"
  by code_simp

lemma split_at_char_nonempty [simp]: "split_at_char c s \<noteq> []"
  by (induction s) (auto split: list.splits)

lemma split_at_char_no_sep: "c \<notin> set s \<Longrightarrow> split_at_char c s = [s]"
  by (induction s) auto

lemma split_at_char_append:
  "c \<notin> set s \<Longrightarrow> split_at_char c (s @ c # t) = s # split_at_char c t"
  by (induction s) auto

lemma split_at_char_sep_free: "w \<in> set (split_at_char c s) \<Longrightarrow> c \<notin> set w"
  by (induction s arbitrary: w) (auto split: list.splits if_splits)

lemma split_at_char_subset: "w \<in> set (split_at_char c s) \<Longrightarrow> set w \<subseteq> set s"
proof (induction s arbitrary: w)
  case (Cons x s)
  then show ?case by (force split: list.splits if_splits)
qed simp

lemma find_char_None: "find_char c s = None \<longleftrightarrow> c \<notin> set s"
  by (induction s) auto

lemma find_char_append: "c \<notin> set s \<Longrightarrow> find_char c (s @ c # t) = Some (length s)"
  by (induction s) auto

lemma trim_copy_id:
  assumes "s = [] \<or> (\<not> is_space (hd s) \<and> \<not> is_space (last s))"
  shows "trim_copy s = s"
proof (cases "s = []")
  case False
  with assms have "\<not> is_space (hd s)" and "\<not> is_space (hd (rev s))"
    by (simp_all only: hd_rev simp_thms)
  then have "dropWhile is_space s = s" and "dropWhile is_space (rev s) = rev s"
    by (simp_all only: dropWhile_eq_self_iff simp_thms)
  then show ?thesis by (simp add: trim_copy_def)
qed (simp add: trim_copy_def)

lemma trim_copy_Cons_space: "is_space c \<Longrightarrow> trim_copy (c # s) = trim_copy s"
  by (simp add: trim_copy_def)

lemma show_nat_digits: "c \<in> set (show_nat n) \<Longrightarrow> 48 \<le> (of_char c :: nat) \<and> (of_char c :: nat) \<le> 57"
proof (induction n arbitrary: c rule: show_nat.induct)
  case (1 n)
  have digit: "48 \<le> (of_char (char_of (48 + m) :: char) :: nat) \<and> (of_char (char_of (48 + m) :: char) :: nat) \<le> 57"
    if "m < 10" for m :: nat
    using that by (simp add: of_char_of)
  from 1 show ?case
    by (subst (asm) (2) show_nat.simps) (auto split: if_splits dest: digit)
qed

lemma show_int_chars:
  "c \<in> set (show_int i) \<Longrightarrow> c = CHR ''-'' \<or> 48 \<le> (of_char c :: nat) \<and> (of_char c :: nat) \<le> 57"
  by (auto simp: show_int_def dest: show_nat_digits split: if_splits)

lemma show_nat_nonempty [simp]: "show_nat n \<noteq> []"
  by (subst show_nat.simps) simp

lemma show_int_nonempty [simp]: "show_int i \<noteq> []"
  by (simp add: show_int_def)

section \<open>Ordered association lists\<close>

text \<open>\<open>std::map\<close> assignment: the members stay sorted by key, one entry per key.\<close>

fun assoc_set :: "('k::linorder) \<Rightarrow> 'v \<Rightarrow> ('k \<times> 'v) list \<Rightarrow> ('k \<times> 'v) list" where
  "assoc_set k v [] = [(k, v)]"
| "assoc_set k v ((j, w) # kvs) =
     (if k < j then (k, v) # (j, w) # kvs
      else if k = j then (k, v) # kvs
      else (j, w) # assoc_set k v kvs)"

definition assoc_sorted :: "('k::linorder \<times> 'v) list \<Rightarrow> bool" where
  "assoc_sorted kvs = sorted_wrt (<) (map fst kvs)"

lemma map_of_assoc_set [simp]: "map_of (assoc_set k v kvs) = (map_of kvs)(k \<mapsto> v)"
  by (induction k v kvs rule: assoc_set.induct) (auto simp: fun_eq_iff)

lemma set_fst_assoc_set: "fst ` set (assoc_set k v kvs) = insert k (fst ` set kvs)"
  by (induction k v kvs rule: assoc_set.induct) auto

lemma assoc_sorted_set: "assoc_sorted kvs \<Longrightarrow> assoc_sorted (assoc_set k v kvs)"
proof (induction k v kvs rule: assoc_set.induct)
  case (2 k v j w kvs)
  then show ?case
    using set_fst_assoc_set [of k v kvs]
    by (fastforce simp: assoc_sorted_def)
qed (simp add: assoc_sorted_def)

lemma set_assoc_set: "set (assoc_set k v kvs) \<subseteq> insert (k, v) (set kvs)"
  by (induction k v kvs rule: assoc_set.induct) auto

section \<open>The interfaces of a keyed store\<close>

text \<open>
  What the managers rely on from a table keyed by name.  \<open>put\<close> is \<open>INSERT OR REPLACE\<close>: the row is
  found again and the other keys are left alone.  \<open>add\<close> is \<open>INSERT OR IGNORE\<close>: a key that is
  there keeps its row.  \<open>del\<close> is \<open>DELETE ... WHERE name = ?\<close>.
\<close>

locale kv_put =
  fixes look :: "'s \<Rightarrow> 'k \<Rightarrow> 'v option"
    and put :: "'k \<Rightarrow> 'v \<Rightarrow> 's \<Rightarrow> 's"
  assumes look_put: "look (put k v s) = (look s)(k \<mapsto> v)"
begin

lemma put_then_look: "look (put k v s) k = Some v"
  by (simp add: look_put)

lemma put_last_wins: "look (put k w (put k v s)) = look (put k w s)"
  by (simp add: look_put)

lemma look_put_all:
  "look (fold (\<lambda>k. put k v) ks s) = (\<lambda>k. if k \<in> set ks then Some v else look s k)"
  by (induction ks arbitrary: s) (auto simp: look_put fun_eq_iff)

end

locale kv_store = kv_put look put
  for look :: "'s \<Rightarrow> 'k \<Rightarrow> 'v option" and put :: "'k \<Rightarrow> 'v \<Rightarrow> 's \<Rightarrow> 's" +
  fixes del :: "'k \<Rightarrow> 's \<Rightarrow> 's"
  assumes look_del: "look (del k s) = (look s)(k := None)"
begin

lemma del_then_look: "look (del k s) k = None"
  by (simp add: look_del)

lemma put_del: "look (del k (put k v s)) = (look s)(k := None)"
  by (simp add: look_del look_put)

end

locale kv_add =
  fixes look :: "'s \<Rightarrow> 'k \<Rightarrow> 'v option"
    and add :: "'k \<Rightarrow> 'v \<Rightarrow> 's \<Rightarrow> 's"
  assumes look_add: "look (add k v s) = (look s)(k \<mapsto> (case look s k of None \<Rightarrow> v | Some w \<Rightarrow> w))"
begin

lemma add_keeps: "look s k = Some w \<Longrightarrow> look (add j v s) k = Some w"
  by (auto simp: look_add)

lemma add_present: "look s k = Some w \<Longrightarrow> look (add k v s) = look s"
  by (auto simp: look_add)

lemma look_add_all:
  "look (fold (\<lambda>k. add k v) ks s) =
     (\<lambda>k. if k \<in> set ks \<and> look s k = None then Some v else look s k)"
  by (induction ks arbitrary: s) (auto simp: look_add fun_eq_iff split: option.splits)

end

section \<open>Simulations\<close>

text \<open>
  A detailed machine implements an abstract one when, from every state of its invariant, each
  command has the effect that the abstract command has on the abstraction of the state; then the
  same holds of every sequence of commands.
\<close>

locale simulation =
  fixes abst :: "'c \<Rightarrow> 'a" and good :: "'c \<Rightarrow> bool"
    and step :: "'l \<Rightarrow> 'c \<Rightarrow> 'c" and astep :: "'l \<Rightarrow> 'a \<Rightarrow> 'a"
  assumes step_good: "good c \<Longrightarrow> good (step l c)"
    and step_abst: "good c \<Longrightarrow> abst (step l c) = astep l (abst c)"
begin

lemma run_good: "good c \<Longrightarrow> good (fold step ls c)"
  by (induction ls arbitrary: c) (simp_all add: step_good)

lemma run_abst: "good c \<Longrightarrow> abst (fold step ls c) = fold astep ls (abst c)"
  by (induction ls arbitrary: c) (simp_all add: step_good step_abst)

end

section \<open>Rows of tables\<close>

lemma map_of_filter_rows:
  "map_of (map (\<lambda>r. (f r, g r)) (filter (\<lambda>r. f r \<noteq> n) rs)) =
     (map_of (map (\<lambda>r. (f r, g r)) rs))(n := None)"
  by (induction rs) (auto simp: fun_eq_iff)

lemma map_of_filter_key: "map_of (filter (\<lambda>r. fst r \<noteq> n) rs) = (map_of rs)(n := None)"
  by (induction rs) (auto simp: fun_eq_iff)

lemma fold_max_ge: "a \<le> fold max xs (a :: int)"
proof (induction xs arbitrary: a)
  case (Cons y ys)
  have "a \<le> max y a" by simp
  also have "\<dots> \<le> fold max ys (max y a)" by (rule Cons.IH)
  finally show ?case by simp
qed simp

lemma fold_max_mem: "x \<in> set xs \<Longrightarrow> x \<le> fold max xs (a :: int)"
proof (induction xs arbitrary: a)
  case (Cons y ys)
  have "max y a \<le> fold max ys (max y a)" by (rule fold_max_ge)
  with Cons show ?case by (auto simp: max.commute)
qed simp

end
