(* ===== verification/Dbl_Json.thy ===== *)
theory Dbl_Json
  imports Dbl_Prelude
begin

text \<open>
  The data model of \<open>Json::Value\<close> (JsonCpp) and the operations of it the service uses.  JsonCpp is
  not part of the repository: its text parser and writer, and its conversions of a value to
  another kind, are the parameter \<open>jsoncpp\<close>; what the code relies on from them is stated in
  \<open>jsoncpp_ok\<close> (conversions of matching values) and \<open>jsoncpp_roundtrip\<close> (writing, then parsing).
  The kind tests, \<open>empty()\<close>, member access and iteration are determined by the documented data
  model and are defined here.
\<close>

datatype json =
    JNull
  | JBool bool
  | JInt int
  | JReal string
  | JString string
  | JArray "json list"
  | JObject "(string \<times> json) list"

text \<open>
  \<open>jc_parse\<close> gives the formatted error messages or the value; \<open>jc_index_exn\<close> is what \<open>operator[]\<close>
  throws on a value that is neither null nor an object.
\<close>

record jsoncpp =
  jc_parse :: "string \<Rightarrow> string + json"
  jc_styled :: "json \<Rightarrow> string"
  jc_as_string :: "json \<Rightarrow> exn + string"
  jc_as_int :: "json \<Rightarrow> exn + int"
  jc_as_bool :: "json \<Rightarrow> exn + bool"
  jc_index_exn :: "json \<Rightarrow> exn"

fun is_object :: "json \<Rightarrow> bool" where
  "is_object (JObject kvs) = True"
| "is_object v = False"

fun is_array :: "json \<Rightarrow> bool" where
  "is_array (JArray vs) = True"
| "is_array v = False"

text \<open>\<open>Value::empty()\<close>: null, an empty array or an empty object.\<close>

fun j_empty :: "json \<Rightarrow> bool" where
  "j_empty JNull = True"
| "j_empty (JArray vs) = (vs = [])"
| "j_empty (JObject kvs) = (kvs = [])"
| "j_empty v = False"

text \<open>\<open>Value::operator[]\<close> as a read: a missing member, or any member of null, is null.\<close>

fun j_index :: "jsoncpp \<Rightarrow> json \<Rightarrow> string \<Rightarrow> exn + json" where
  "j_index J (JObject kvs) k = Inr (case map_of kvs k of None \<Rightarrow> JNull | Some v \<Rightarrow> v)"
| "j_index J JNull k = Inr JNull"
| "j_index J v k = Inl (jc_index_exn J v)"

text \<open>Iteration: the elements of an array, the member values of an object, nothing otherwise.\<close>

fun j_items :: "json \<Rightarrow> json list" where
  "j_items (JArray vs) = vs"
| "j_items (JObject kvs) = map snd kvs"
| "j_items v = []"

text \<open>
  \<open>root[k] = v\<close>; the code assigns into null (which becomes an object) and into objects only.
\<close>

fun j_set :: "string \<Rightarrow> json \<Rightarrow> json \<Rightarrow> json" where
  "j_set k v (JObject kvs) = JObject (assoc_set k v kvs)"
| "j_set k v JNull = JObject [(k, v)]"
| "j_set k v other = other"

section \<open>Documented behaviour of the parameter\<close>

definition is_int32 :: "int \<Rightarrow> bool" where
  "is_int32 i \<longleftrightarrow> - (2 ^ 31) \<le> i \<and> i < 2 ^ 31"

definition jsoncpp_ok :: "jsoncpp \<Rightarrow> bool" where
  "jsoncpp_ok J \<longleftrightarrow>
     (\<forall>s. jc_as_string J (JString s) = Inr s) \<and> jc_as_string J JNull = Inr [] \<and>
     (\<forall>i. is_int32 i \<longrightarrow> jc_as_int J (JInt i) = Inr i) \<and> jc_as_int J JNull = Inr 0 \<and>
     (\<forall>b. jc_as_bool J (JBool b) = Inr b) \<and> jc_as_bool J JNull = Inr False"

text \<open>
  Values that survive a trip over the wire whatever the encoding of their text: printable ASCII
  strings, 32-bit integers, objects with sorted distinct keys (as the library keeps them).
\<close>

definition plain_string :: "string \<Rightarrow> bool" where
  "plain_string s \<longleftrightarrow> (\<forall>c \<in> set s. 32 \<le> (of_char c :: nat) \<and> (of_char c :: nat) < 127)"

fun plain_json :: "json \<Rightarrow> bool" where
  "plain_json JNull = True"
| "plain_json (JBool b) = True"
| "plain_json (JInt i) = is_int32 i"
| "plain_json (JReal r) = False"
| "plain_json (JString s) = plain_string s"
| "plain_json (JArray vs) = (\<forall>v \<in> set vs. plain_json v)"
| "plain_json (JObject kvs) =
     (assoc_sorted kvs \<and> (\<forall>(k, v) \<in> set kvs. plain_string k \<and> plain_json v))"

definition jsoncpp_roundtrip :: "jsoncpp \<Rightarrow> bool" where
  "jsoncpp_roundtrip J \<longleftrightarrow>
     (\<forall>j. plain_json j \<longrightarrow> jc_parse J (jc_styled J j) = Inr j \<and>
          CHR 0x0D \<notin> set (jc_styled J j))"

lemma jsoncpp_okD:
  assumes "jsoncpp_ok J"
  shows "jc_as_string J (JString s) = Inr s" "jc_as_string J JNull = Inr []"
    "is_int32 i \<Longrightarrow> jc_as_int J (JInt i) = Inr i" "jc_as_int J JNull = Inr 0"
    "jc_as_bool J (JBool b) = Inr b" "jc_as_bool J JNull = Inr False"
  using assms by (simp_all add: jsoncpp_ok_def)

lemma j_index_set:
  "v = JNull \<or> is_object v \<Longrightarrow>
   j_index J (j_set k x v) i = (if i = k then Inr x else j_index J v i)"
  by (cases v) auto

lemma is_object_set [simp]: "v = JNull \<or> is_object v \<Longrightarrow> is_object (j_set k x v)"
  by (cases v) auto

lemma plain_json_set:
  assumes "plain_json v" and "v = JNull \<or> is_object v" and "plain_string k" and "plain_json x"
  shows "plain_json (j_set k x v)"
proof (cases v)
  case (JObject kvs)
  have "set (assoc_set k x kvs) \<subseteq> insert (k, x) (set kvs)"
    by (rule set_assoc_set)
  with JObject assms show ?thesis by (auto simp: assoc_sorted_set)
qed (use assms in \<open>auto simp: assoc_sorted_def\<close>)

lemma plain_json_array: "(\<And>x. x \<in> set xs \<Longrightarrow> plain_json (f x)) \<Longrightarrow> plain_json (JArray (map f xs))"
  by auto

text \<open>Literals of the protocol are printable.\<close>

lemma plain_string_Nil [simp]: "plain_string []"
  by (simp add: plain_string_def)

lemma plain_string_Cons [simp]:
  "plain_string (c # s) \<longleftrightarrow> 32 \<le> (of_char c :: nat) \<and> (of_char c :: nat) < 127 \<and> plain_string s"
  by (auto simp: plain_string_def)

end
