(* ===== verification/Dbl_Types.thy ===== *)
theory Dbl_Types
  imports Dbl_Json
begin

text \<open>
  The value types of the service (\<open>src/dbl/types\<close>, \<open>src/dbl/status\<close>), their JSON forms, and the
  domain validator (\<open>src/dbl/validator\<close>).
\<close>

section \<open>The domain validator\<close>

text \<open>
  \<open>getaddrinfo\<close> and the two message tables of the C library are the parameter: the call gives its
  error code and the \<open>errno\<close> it leaves.
\<close>

record resolver =
  rs_getaddrinfo :: "string \<Rightarrow> int \<times> int"
  rs_eai_system :: int
  rs_strerror :: "int \<Rightarrow> string"
  rs_gai_strerror :: "int \<Rightarrow> string"

text \<open>\<open>name.c_str()\<close> ends at the first NUL.\<close>

definition c_str :: "string \<Rightarrow> string" where
  "c_str s = takeWhile (\<lambda>c. c \<noteq> CHR 0x00) s"

definition is_valid :: "resolver \<Rightarrow> string \<Rightarrow> bool \<times> string list" where
  "is_valid R name =
     (let (error, errno) = rs_getaddrinfo R (c_str name);
          errors = (if error \<noteq> 0
                    then (if error = rs_eai_system R then [rs_strerror R errno]
                          else [rs_gai_strerror R error])
                    else [])
      in (errors = [], errors))"

definition valid_name :: "resolver \<Rightarrow> string \<Rightarrow> bool" where
  "valid_name R name = fst (is_valid R name)"

lemma valid_name_iff: "valid_name R n \<longleftrightarrow> fst (rs_getaddrinfo R (c_str n)) = 0"
  by (auto simp: valid_name_def is_valid_def Let_def split: prod.splits)

section \<open>Domain\<close>

record domain =
  d_name :: string
  d_list_id :: int
  d_list_name :: "string option"

definition new_domain :: domain where
  "new_domain = \<lparr>d_name = [], d_list_id = 0, d_list_name = Some []\<rparr>"

text \<open>The row of a query, \<open>(list_id, name, list_name)\<close>, read back by \<open>from_base\<close>.\<close>

fun domain_from_base :: "int \<times> string \<times> string option \<Rightarrow> domain" where
  "domain_from_base (lid, n, ln) = \<lparr>d_name = n, d_list_id = lid, d_list_name = ln\<rparr>"

definition domain_init_from_json :: "jsoncpp \<Rightarrow> resolver \<Rightarrow> json \<Rightarrow> domain \<Rightarrow> exn + domain" where
  "domain_init_from_json J R root d =
     (if \<not> is_object root then Inl (RuntimeError ''Invalid format'')
      else
        bindE (j_index J root ''name'') (\<lambda>n.
        bindE (if j_empty n then Inr d
               else bindE (jc_as_string J n) (\<lambda>s.
                 Inr (if valid_name R s then d\<lparr>d_name := s\<rparr> else d))) (\<lambda>d.
        bindE (j_index J root ''list_id'') (\<lambda>i.
        bindE (if j_empty i then Inr d
               else bindE (jc_as_int J i) (\<lambda>x. Inr (d\<lparr>d_list_id := x\<rparr>))) (\<lambda>d.
        bindE (j_index J root ''list_name'') (\<lambda>l.
        if j_empty l then Inr d
        else bindE (jc_as_string J l) (\<lambda>s. Inr (d\<lparr>d_list_name := Some s\<rparr>))))))))"

definition domain_to_json :: "domain \<Rightarrow> json \<Rightarrow> json" where
  "domain_to_json d root =
     (let root = j_set ''list_id'' (JInt (d_list_id d)) (j_set ''name'' (JString (d_name d)) root)
      in (case d_list_name d of None \<Rightarrow> root | Some l \<Rightarrow> j_set ''list_name'' (JString l) root))"

text \<open>\<open>JSONSerializable::operator Json::Value\<close> starts from a null value.\<close>

definition domain_json :: "domain \<Rightarrow> json" where
  "domain_json d = domain_to_json d JNull"

section \<open>DomainList\<close>

record domain_list =
  dl_id :: int
  dl_name :: string
  dl_url :: string
  dl_description :: "string option"
  dl_active :: int
  dl_custom :: int
  dl_mtime :: int
  dl_domains :: "domain list"

definition new_domain_list :: domain_list where
  "new_domain_list = \<lparr>dl_id = 0, dl_name = [], dl_url = [], dl_description = Some [],
     dl_active = 0, dl_custom = 0, dl_mtime = 0, dl_domains = []\<rparr>"

text \<open>One member of the \<open>domains\<close> array; an entry without a usable name is skipped.\<close>

definition entry_domain :: "jsoncpp \<Rightarrow> resolver \<Rightarrow> json \<Rightarrow> exn + domain list" where
  "entry_domain J R item =
     bindE (j_index J item ''name'') (\<lambda>n.
       if j_empty n then Inr []
       else bindE (jc_as_string J n) (\<lambda>s.
         Inr (if valid_name R s then [new_domain\<lparr>d_name := s\<rparr>] else [])))"

definition domain_list_init_from_json ::
  "jsoncpp \<Rightarrow> resolver \<Rightarrow> json \<Rightarrow> domain_list \<Rightarrow> exn + domain_list" where
  "domain_list_init_from_json J R root l =
     bindE (j_index J root ''name'') (\<lambda>n.
     bindE (if j_empty n then Inr l
            else bindE (jc_as_string J n) (\<lambda>s. Inr (l\<lparr>dl_name := s\<rparr>))) (\<lambda>l.
     bindE (j_index J root ''url'') (\<lambda>u.
     bindE (if j_empty u then Inr l
            else bindE (jc_as_string J u) (\<lambda>s. Inr (l\<lparr>dl_url := s\<rparr>))) (\<lambda>l.
     bindE (j_index J root ''description'') (\<lambda>de.
     bindE (if j_empty de then Inr l
            else bindE (jc_as_string J de) (\<lambda>s. Inr (l\<lparr>dl_description := Some s\<rparr>))) (\<lambda>l.
     bindE (j_index J root ''domains'') (\<lambda>ds.
     if \<not> j_empty ds \<and> \<not> is_array ds then Inl (RuntimeError ''Invalid format'')
     else bindE (mapE (entry_domain J R) (j_items ds)) (\<lambda>dss.
       Inr (l\<lparr>dl_domains := dl_domains l @ concat dss\<rparr>)))))))))"

definition domain_list_to_json :: "domain_list \<Rightarrow> json \<Rightarrow> json" where
  "domain_list_to_json l root =
     (let root = j_set ''url'' (JString (dl_url l)) (j_set ''name'' (JString (dl_name l)) root);
          root = (case dl_description l of None \<Rightarrow> root
                  | Some s \<Rightarrow> j_set ''description'' (JString s) root)
      in j_set ''domains'' (JArray (map domain_json (dl_domains l))) root)"

definition domain_list_json :: "domain_list \<Rightarrow> json" where
  "domain_list_json l = domain_list_to_json l JNull"

definition add_domain :: "domain_list \<Rightarrow> string \<Rightarrow> domain_list" where
  "add_domain l n = l\<lparr>dl_domains := dl_domains l @ [new_domain\<lparr>d_name := n\<rparr>]\<rparr>"

text \<open>\<open>JSONSerializable::from_json\<close> on text: unparsable text leaves the object as it was.\<close>

definition domain_list_from_json ::
  "jsoncpp \<Rightarrow> resolver \<Rightarrow> string \<Rightarrow> domain_list \<Rightarrow> exn + domain_list" where
  "domain_list_from_json J R input l =
     (case jc_parse J input of
        Inl errors \<Rightarrow> Inr l
      | Inr root \<Rightarrow> domain_list_init_from_json J R root l)"

definition domain_list_to_json_string :: "jsoncpp \<Rightarrow> domain_list \<Rightarrow> string" where
  "domain_list_to_json_string J l = jc_styled J (domain_list_json l)"

section \<open>Status\<close>

record status =
  st_start :: int
  st_os :: string
  st_nodename :: string
  st_version :: string
  st_lists :: int
  st_blocked :: int

definition VERSION :: string where "VERSION = ''0.0.1''"

text \<open>A fresh status object; \<open>start_tstamp\<close> has no initialiser, its value is the parameter.\<close>

definition new_status :: "int \<Rightarrow> status" where
  "new_status garbage = \<lparr>st_start = garbage, st_os = [], st_nodename = [], st_version = [],
     st_lists = 0, st_blocked = 0\<rparr>"

text \<open>\<open>uname\<close>: \<open>None\<close> when the call fails, else sysname, release, machine and nodename.\<close>

definition status_init ::
  "int \<Rightarrow> (string \<times> string \<times> string \<times> string) option \<Rightarrow> status \<Rightarrow> status" where
  "status_init now uts s =
     (let s = s\<lparr>st_start := now, st_version := VERSION\<rparr>
      in (case uts of None \<Rightarrow> s
          | Some (sysname, release, machine, nodename) \<Rightarrow>
              s\<lparr>st_os := sysname @ '' '' @ release @ '' '' @ machine,
                st_nodename := st_nodename s @ nodename @ '' ''\<rparr>))"

text \<open>The cast of \<open>time_t\<close> to a 32-bit \<open>int\<close>.\<close>

definition to_int32 :: "int \<Rightarrow> int" where
  "to_int32 x = (x + 2 ^ 31) mod 2 ^ 32 - 2 ^ 31"

definition status_to_json :: "status \<Rightarrow> json \<Rightarrow> json" where
  "status_to_json s root =
     j_set ''blocked_domains'' (JInt (st_blocked s))
     (j_set ''domain_lists'' (JInt (st_lists s))
     (j_set ''nodename'' (JString (st_nodename s))
     (j_set ''os'' (JString (st_os s))
     (j_set ''version'' (JString (st_version s))
     (j_set ''start_time'' (JInt (to_int32 (st_start s))) root)))))"

definition status_init_from_json :: "jsoncpp \<Rightarrow> json \<Rightarrow> status \<Rightarrow> exn + status" where
  "status_init_from_json J root s =
     (if \<not> is_object root then Inl (RuntimeError ''Invalid format'')
      else
        bindE (bindE (j_index J root ''start_time'') (jc_as_int J)) (\<lambda>st.
        bindE (bindE (j_index J root ''version'') (jc_as_string J)) (\<lambda>ve.
        bindE (bindE (j_index J root ''os'') (jc_as_string J)) (\<lambda>os.
        bindE (bindE (j_index J root ''nodename'') (jc_as_string J)) (\<lambda>nn.
        bindE (bindE (j_index J root ''blocked_domains'') (jc_as_int J)) (\<lambda>bl.
        bindE (bindE (j_index J root ''domain_lists'') (jc_as_int J)) (\<lambda>ls.
        Inr (s\<lparr>st_start := st, st_version := ve, st_os := os, st_nodename := nn,
               st_blocked := bl, st_lists := ls\<rparr>))))))))"

section \<open>Round trips\<close>

lemma is_int32_to_int32: "is_int32 (to_int32 x)"
  by (simp add: is_int32_def to_int32_def)

lemma to_int32_id: "is_int32 x \<Longrightarrow> to_int32 x = x"
  by (simp add: is_int32_def to_int32_def)

lemma domain_json_object [simp]: "is_object (domain_json d)"
  by (simp add: domain_json_def domain_to_json_def Let_def split: option.splits)

lemma domain_json_index:
  "j_index J (domain_json d) ''name'' = Inr (JString (d_name d))"
  "j_index J (domain_json d) ''list_id'' = Inr (JInt (d_list_id d))"
  "j_index J (domain_json d) ''list_name'' =
     Inr (case d_list_name d of None \<Rightarrow> JNull | Some l \<Rightarrow> JString l)"
  by (simp_all add: domain_json_def domain_to_json_def Let_def j_index_set split: option.splits)


lemma plain_domain_json:
  assumes "plain_string (d_name d)" and "is_int32 (d_list_id d)"
    and "\<And>l. d_list_name d = Some l \<Longrightarrow> plain_string l"
  shows "plain_json (domain_json d)"
  using assms
  by (auto simp: domain_json_def domain_to_json_def Let_def assoc_sorted_def
      intro!: plain_json_set split: option.splits)

lemma domain_json_read:
  assumes "jsoncpp_ok J" and "is_int32 (d_list_id d)"
  shows "domain_init_from_json J R (domain_json d) d0 =
    Inr \<lparr>d_name = (if valid_name R (d_name d) then d_name d else d_name d0),
         d_list_id = d_list_id d,
         d_list_name = (case d_list_name d of None \<Rightarrow> d_list_name d0 | Some l \<Rightarrow> Some l)\<rparr>"
  using assms
  by (cases "d_list_name d")
    (auto simp: domain_init_from_json_def domain_json_index jsoncpp_okD)

text \<open>Reading back the JSON form of a domain (\<open>Domain::to_json\<close>, then
  \<open>Domain::init_from_json\<close>) gives its list id and list name, and its name exactly when the
  reader's validator accepts the name; otherwise the reader's old name stays, and a missing list
  name leaves the reader's.\<close>

theorem domain_json_roundtrip:
  assumes "jsoncpp_ok J" and "is_int32 (d_list_id d)"
  shows "domain_init_from_json J R (domain_json d) d0 =
    Inr \<lparr>d_name = (if valid_name R (d_name d) then d_name d else d_name d0),
         d_list_id = d_list_id d,
         d_list_name = (case d_list_name d of None \<Rightarrow> d_list_name d0 | Some l \<Rightarrow> Some l)\<rparr>"
  using assms by (rule domain_json_read)

lemma domain_list_json_object [simp]: "is_object (domain_list_json l)"
  by (simp add: domain_list_json_def domain_list_to_json_def Let_def split: option.splits)

lemma domain_list_json_index:
  "j_index J (domain_list_json l) ''name'' = Inr (JString (dl_name l))"
  "j_index J (domain_list_json l) ''url'' = Inr (JString (dl_url l))"
  "j_index J (domain_list_json l) ''description'' =
     Inr (case dl_description l of None \<Rightarrow> JNull | Some s \<Rightarrow> JString s)"
  "j_index J (domain_list_json l) ''domains'' = Inr (JArray (map domain_json (dl_domains l)))"
  by (simp_all add: domain_list_json_def domain_list_to_json_def Let_def j_index_set
      split: option.splits)

lemma entry_domain_json:
  "jsoncpp_ok J \<Longrightarrow> entry_domain J R (domain_json d) =
     Inr (if valid_name R (d_name d) then [new_domain\<lparr>d_name := d_name d\<rparr>] else [])"
  by (simp add: entry_domain_def domain_json_index jsoncpp_okD)

definition named_domains :: "resolver \<Rightarrow> string list \<Rightarrow> domain list" where
  "named_domains R ns = map (\<lambda>n. new_domain\<lparr>d_name := n\<rparr>) (filter (valid_name R) ns)"

lemma concat_entries:
  "concat (map (\<lambda>d. if valid_name R (d_name d) then [new_domain\<lparr>d_name := d_name d\<rparr>] else []) ds)
   = named_domains R (map d_name ds)"
  by (induction ds) (auto simp: named_domains_def)

lemma mapE_entry_domain:
  assumes "jsoncpp_ok J"
  shows "mapE (entry_domain J R) (map domain_json ds) =
    Inr (map (\<lambda>d. if valid_name R (d_name d) then [new_domain\<lparr>d_name := d_name d\<rparr>] else []) ds)"
  by (induction ds) (simp_all add: entry_domain_json assms)

lemma domain_list_read:
  assumes "jsoncpp_ok J"
  shows "domain_list_init_from_json J R (domain_list_json l) l0 =
    Inr (l0\<lparr>dl_name := dl_name l, dl_url := dl_url l,
            dl_description := (case dl_description l of None \<Rightarrow> dl_description l0 | Some s \<Rightarrow> Some s),
            dl_domains := dl_domains l0 @ named_domains R (map d_name (dl_domains l))\<rparr>)"
  using assms
  by (cases "dl_description l")
    (auto simp: domain_list_init_from_json_def domain_list_json_index jsoncpp_okD
       mapE_entry_domain concat_entries)

text \<open>C25: Importing what \<open>DomainList::to_json\<close> wrote restores name, url and description
  (a missing description leaves the reader's) and appends the listed domains in order, without
  those whose name the reader's validator refuses and with list id and list name reset.\<close>

theorem domain_list_json_roundtrip:
  assumes "jsoncpp_ok J"
  shows "domain_list_init_from_json J R (domain_list_json l) l0 =
    Inr (l0\<lparr>dl_name := dl_name l, dl_url := dl_url l,
            dl_description := (case dl_description l of None \<Rightarrow> dl_description l0 | Some s \<Rightarrow> Some s),
            dl_domains := dl_domains l0 @ named_domains R (map d_name (dl_domains l))\<rparr>)"
  using assms by (rule domain_list_read)

lemma plain_domain_list_json:
  assumes "plain_string (dl_name l)" and "plain_string (dl_url l)"
    and "\<And>s. dl_description l = Some s \<Longrightarrow> plain_string s"
    and "\<And>d. d \<in> set (dl_domains l) \<Longrightarrow> plain_json (domain_json d)"
  shows "plain_json (domain_list_json l)"
proof -
  have "plain_json (JArray (map domain_json (dl_domains l)))"
    by (rule plain_json_array) (rule assms(4))
  with assms(1-3) show ?thesis
    by (auto simp: domain_list_json_def domain_list_to_json_def Let_def assoc_sorted_def
        simp del: plain_json.simps(6) intro!: plain_json_set split: option.splits)
qed

text \<open>The status object survives the trip to the client: reading the JSON form of a
  status gives every field back, with the start time reduced to 32 bits as the cast to
  \<open>int\<close> in \<open>Status::to_json\<close> does.\<close>

theorem status_json_roundtrip:
  assumes "jsoncpp_ok J" and "is_int32 (st_lists s)" and "is_int32 (st_blocked s)"
  shows "status_init_from_json J (status_to_json s (JObject [])) s0 =
    Inr (s\<lparr>st_start := to_int32 (st_start s)\<rparr>)"
  using assms
  by (auto simp: status_init_from_json_def status_to_json_def j_index_set jsoncpp_okD
      is_int32_to_int32)

end
