(* ===== verification/Dbl_Store.thy ===== *)
theory Dbl_Store
  imports Dbl_Types
begin

text \<open>
  The SQLite database of the service (\<open>src/dbl/db\<close>): the four tables of the schema, each SQL
  statement the managers run, and the transactions around them.  The SQL engine and SOCI are not
  part of the repository: what a statement does to the rows is the meaning of its text, and
  which sessions they fail (a locked file, a full disk, a lost connection) is the parameter
  \<open>db_faults\<close>, one entry per session the code opens, an exhausted list meaning success.  A
  transaction that fails commits nothing.  The code begins its transactions without a guard that
  rolls them back: when a statement fails, the session goes back to the pool with its transaction
  open (\<open>Stuck\<close>).  The pool gives out the first free session, and a new \<open>begin\<close> on it fails, as
  does every write of another session, which finds the database locked; reads go on.  (What the
  open transaction itself had written is not modelled; the read of a stuck session shows it, but no
  statement of the code fails after another one of its transaction has changed a row, unless an
  earlier session of the same operation has failed.)  Opening the database anew rolls it back.
\<close>

section \<open>Tables\<close>

record list_row =
  lr_id :: int
  lr_name :: string
  lr_url :: string
  lr_description :: string
  lr_active :: int
  lr_custom :: int
  lr_is_whitelist :: int
  lr_mtime :: int

record domain_row =
  dr_name :: string
  dr_list_id :: int

text \<open>
  What becomes of a session: it works, it fails and is closed, it fails after \<open>begin\<close>, or it comes
  from the pool with a transaction open.
\<close>

datatype fate = Fine | Fails string | Breaks string | Stuck

text \<open>\<open>db_now\<close> is the value of \<open>strftime('%s','now')\<close>.\<close>

record db =
  db_settings :: "(string \<times> string) list"
  db_lists :: "list_row list"
  db_domains :: "domain_row list"
  db_stats :: "(string \<times> int) list"
  db_now :: int
  db_faults :: "fate list"

definition empty_db :: "int \<Rightarrow> db" where
  "empty_db now = \<lparr>db_settings = [], db_lists = [], db_domains = [], db_stats = [],
     db_now = now, db_faults = []\<rparr>"

definition list_ids :: "db \<Rightarrow> int set" where
  "list_ids d = lr_id ` set (db_lists d)"

text \<open>
  The constraints of the schema: names and ids unique, and every domain belongs to a list.
\<close>

definition db_wf :: "db \<Rightarrow> bool" where
  "db_wf d \<longleftrightarrow>
     distinct (map fst (db_settings d)) \<and>
     distinct (map lr_id (db_lists d)) \<and> distinct (map lr_name (db_lists d)) \<and>
     (\<forall>l \<in> set (db_lists d). 0 < lr_id l) \<and>
     distinct (map dr_name (db_domains d)) \<and>
     (\<forall>r \<in> set (db_domains d). dr_list_id r \<in> list_ids d) \<and>
     distinct (map fst (db_stats d))"

section \<open>Transactions\<close>

definition take_fault :: "db \<Rightarrow> string option \<times> db" where
  "take_fault d =
     (case db_faults d of
        [] \<Rightarrow> (None, d)
      | Fine # fs \<Rightarrow> (None, d\<lparr>db_faults := fs\<rparr>)
      | Fails m # fs \<Rightarrow> (Some m, d\<lparr>db_faults := fs\<rparr>)
      | Breaks m # fs \<Rightarrow> (Some m, d\<lparr>db_faults := Stuck # fs\<rparr>)
      | Stuck # fs \<Rightarrow> (Some ''cannot start a transaction within a transaction'', d))"

definition transact :: "(db \<Rightarrow> exn + 'a \<times> db) \<Rightarrow> db \<Rightarrow> (exn + 'a) \<times> db" where
  "transact body d =
     (case take_fault d of
        (Some m, d) \<Rightarrow> (Inl (RuntimeError m), d)
      | (None, d) \<Rightarrow>
          (case body d of
             Inl e \<Rightarrow> (Inl e, d\<lparr>db_faults := Stuck # db_faults d\<rparr>)
           | Inr (x, d') \<Rightarrow> (Inr x, d')))"

text \<open>A session that only reads, without \<open>begin\<close>.\<close>

definition query :: "(db \<Rightarrow> 'a) \<Rightarrow> db \<Rightarrow> (exn + 'a) \<times> db" where
  "query f d =
     (case db_faults d of
        [] \<Rightarrow> (Inr (f d), d)
      | Fine # fs \<Rightarrow> (Inr (f d), d\<lparr>db_faults := fs\<rparr>)
      | Fails m # fs \<Rightarrow> (Inl (RuntimeError m), d\<lparr>db_faults := fs\<rparr>)
      | Breaks m # fs \<Rightarrow> (Inl (RuntimeError m), d\<lparr>db_faults := fs\<rparr>)
      | Stuck # fs \<Rightarrow> (Inr (f d), d))"

text \<open>The sessions of a database that is opened anew: an open transaction is rolled back.\<close>

definition reopen :: "db \<Rightarrow> db" where
  "reopen d = d\<lparr>db_faults := dropWhile (\<lambda>f. f = Stuck) (db_faults d)\<rparr>"

section \<open>Statements on settings\<close>

definition sql_select_setting :: "string \<Rightarrow> db \<Rightarrow> string option" where
  "sql_select_setting k d = map_of (db_settings d) k"

definition sql_replace_setting :: "string \<Rightarrow> string \<Rightarrow> db \<Rightarrow> db" where
  "sql_replace_setting k v d =
     d\<lparr>db_settings := filter (\<lambda>r. fst r \<noteq> k) (db_settings d) @ [(k, v)]\<rparr>"

definition sql_delete_setting :: "string \<Rightarrow> db \<Rightarrow> db" where
  "sql_delete_setting k d = d\<lparr>db_settings := filter (\<lambda>r. fst r \<noteq> k) (db_settings d)\<rparr>"

section \<open>Statements on domain lists\<close>

text \<open>The id of a new row: one more than the largest in use.\<close>

definition next_list_id :: "db \<Rightarrow> int" where
  "next_list_id d = fold max (map lr_id (db_lists d)) 0 + 1"

definition has_list :: "string \<Rightarrow> db \<Rightarrow> bool" where
  "has_list n d \<longleftrightarrow> n \<in> lr_name ` set (db_lists d)"

definition add_list_row :: "string \<Rightarrow> string \<Rightarrow> string \<Rightarrow> int \<Rightarrow> int \<Rightarrow> db \<Rightarrow> db" where
  "add_list_row n url descr custom wl d =
     d\<lparr>db_lists := db_lists d @
        [\<lparr>lr_id = next_list_id d, lr_name = n, lr_url = url, lr_description = descr,
          lr_active = 1, lr_custom = custom, lr_is_whitelist = wl, lr_mtime = 0\<rparr>]\<rparr>"

text \<open>\<open>INSERT INTO domain_lists(name, description, custom, is_whitelist)\<close> of the initial data.\<close>

definition sql_insert_initial_list :: "string \<times> string \<times> int \<times> int \<Rightarrow> db \<Rightarrow> exn + db" where
  "sql_insert_initial_list q d =
     (case q of (n, descr, custom, wl) \<Rightarrow>
        if has_list n d then Inl (RuntimeError ''UNIQUE constraint failed: domain_lists.name'')
        else Inr (add_list_row n [] descr custom wl d))"

text \<open>\<open>INSERT OR IGNORE INTO domain_lists(name, url, description, custom)\<close>.\<close>

definition sql_insert_or_ignore_list :: "string \<Rightarrow> string \<Rightarrow> string \<Rightarrow> int \<Rightarrow> db \<Rightarrow> db" where
  "sql_insert_or_ignore_list n url descr custom d =
     (if has_list n d then d else add_list_row n url descr custom 0 d)"

text \<open>\<open>get_domain_lists\<close>: the rows as \<open>DomainList\<close> objects.\<close>

definition list_from_row :: "list_row \<Rightarrow> domain_list" where
  "list_from_row l = \<lparr>dl_id = lr_id l, dl_name = lr_name l, dl_url = lr_url l,
     dl_description = Some (lr_description l), dl_active = lr_active l, dl_custom = lr_custom l,
     dl_mtime = lr_mtime l, dl_domains = []\<rparr>"

definition sql_get_domain_lists :: "db \<Rightarrow> domain_list list" where
  "sql_get_domain_lists d = map list_from_row (db_lists d)"

definition sql_get_list_by_name :: "string \<Rightarrow> db \<Rightarrow> domain_list option" where
  "sql_get_list_by_name n d =
     map_option list_from_row (find (\<lambda>l. lr_name l = n) (db_lists d))"

text \<open>
  \<open>DELETE FROM domain_lists where name = ?\<close>; the foreign key of \<open>domains\<close> cascades.
\<close>

definition sql_delete_list :: "string \<Rightarrow> db \<Rightarrow> db" where
  "sql_delete_list n d =
     (let gone = map lr_id (filter (\<lambda>l. lr_name l = n) (db_lists d))
      in d\<lparr>db_lists := filter (\<lambda>l. lr_name l \<noteq> n) (db_lists d),
           db_domains := filter (\<lambda>r. dr_list_id r \<notin> set gone) (db_domains d)\<rparr>)"

definition sql_set_active :: "int \<Rightarrow> string \<Rightarrow> db \<Rightarrow> db" where
  "sql_set_active state n d =
     d\<lparr>db_lists := map (\<lambda>l. if lr_name l = n then l\<lparr>lr_active := state\<rparr> else l) (db_lists d)\<rparr>"

definition sql_touch_list :: "int \<Rightarrow> db \<Rightarrow> db" where
  "sql_touch_list i d =
     d\<lparr>db_lists := map (\<lambda>l. if lr_id l = i then l\<lparr>lr_mtime := db_now d\<rparr> else l) (db_lists d)\<rparr>"

definition sql_count_active_lists :: "db \<Rightarrow> nat" where
  "sql_count_active_lists d = length (filter (\<lambda>l. lr_active l = 1) (db_lists d))"

section \<open>Statements on domains\<close>

text \<open>
  \<open>domains d JOIN domain_lists dl ON dl.id = d.list_id AND P dl\<close>, selecting list id, domain name
  and list name.
\<close>

definition join_lists :: "(list_row \<Rightarrow> bool) \<Rightarrow> db \<Rightarrow> domain list" where
  "join_lists P d =
     concat (map (\<lambda>r. map (\<lambda>l. domain_from_base (dr_list_id r, dr_name r, Some (lr_name l)))
                         (filter (\<lambda>l. lr_id l = dr_list_id r \<and> P l) (db_lists d)))
                 (db_domains d))"

definition order_by_name :: "domain list \<Rightarrow> domain list" where
  "order_by_name ds = sort_key d_name ds"

definition sql_get_blocked_domains :: "db \<Rightarrow> domain list" where
  "sql_get_blocked_domains d =
     order_by_name (join_lists (\<lambda>l. lr_active l = 1 \<and> lr_is_whitelist l = 0) d)"

definition sql_get_domains :: "db \<Rightarrow> domain list" where
  "sql_get_domains d = join_lists (\<lambda>l. lr_active l = 1) d"

definition sql_get_all_whitelisted_domains :: "db \<Rightarrow> domain list" where
  "sql_get_all_whitelisted_domains d =
     join_lists (\<lambda>l. lr_active l = 1 \<and> lr_is_whitelist l = 1) d"

definition put_domain :: "string \<Rightarrow> int \<Rightarrow> db \<Rightarrow> db" where
  "put_domain n i d =
     d\<lparr>db_domains := filter (\<lambda>r. dr_name r \<noteq> n) (db_domains d) @ [\<lparr>dr_name = n, dr_list_id = i\<rparr>]\<rparr>"

definition add_domain_row :: "string \<Rightarrow> int \<Rightarrow> db \<Rightarrow> db" where
  "add_domain_row n i d =
     (if n \<in> dr_name ` set (db_domains d) then d
      else d\<lparr>db_domains := db_domains d @ [\<lparr>dr_name = n, dr_list_id = i\<rparr>]\<rparr>)"

text \<open>\<open>INSERT OR REPLACE INTO domains(name, list_id)\<close>; \<open>None\<close> is a NULL list id.\<close>

definition sql_insert_or_replace_domain :: "string \<Rightarrow> int option \<Rightarrow> db \<Rightarrow> exn + db" where
  "sql_insert_or_replace_domain n lid d =
     (case lid of
        None \<Rightarrow> Inl (RuntimeError ''NOT NULL constraint failed: domains.list_id'')
      | Some i \<Rightarrow>
          if i \<in> list_ids d then Inr (put_domain n i d)
          else Inl (RuntimeError ''FOREIGN KEY constraint failed''))"

text \<open>\<open>INSERT OR IGNORE\<close>: the foreign key is checked when a row is inserted.\<close>

definition sql_insert_or_ignore_domain :: "string \<Rightarrow> int \<Rightarrow> db \<Rightarrow> exn + db" where
  "sql_insert_or_ignore_domain n i d =
     (if n \<in> dr_name ` set (db_domains d) \<or> i \<in> list_ids d then Inr (add_domain_row n i d)
      else Inl (RuntimeError ''FOREIGN KEY constraint failed''))"

text \<open>The sub-select \<open>SELECT dl.id FROM domain_lists dl WHERE dl.is_whitelist = 1\<close>.\<close>

definition whitelist_ids :: "db \<Rightarrow> int set" where
  "whitelist_ids d = lr_id ` set (filter (\<lambda>l. lr_is_whitelist l = 1) (db_lists d))"

definition sql_delete_not_whitelisted :: "string \<Rightarrow> db \<Rightarrow> db" where
  "sql_delete_not_whitelisted n d =
     d\<lparr>db_domains := filter (\<lambda>r. \<not> (dr_name r = n \<and> dr_list_id r \<notin> whitelist_ids d))
                           (db_domains d)\<rparr>"

text \<open>\<open>SELECT id FROM domain_lists WHERE name='WHITELIST'\<close>: NULL when there is no such row.\<close>

definition sql_whitelist_id :: "db \<Rightarrow> int option" where
  "sql_whitelist_id d = map_option lr_id (find (\<lambda>l. lr_name l = ''WHITELIST'') (db_lists d))"

text \<open>
  \<open>SELECT COUNT(*) FROM domains d LEFT JOIN domain_lists dl ON dl.is_whitelist = 0 AND
  dl.id = d.list_id\<close>: a left join has a row for each domain without a match, too.
\<close>

definition sql_count_blocked :: "db \<Rightarrow> nat" where
  "sql_count_blocked d =
     sum_list (map (\<lambda>r. max 1 (length (filter (\<lambda>l. lr_is_whitelist l = 0 \<and> lr_id l = dr_list_id r)
                                            (db_lists d))))
                   (db_domains d))"

section \<open>Statements on statistics\<close>

definition sql_insert_or_ignore_stat :: "string \<Rightarrow> db \<Rightarrow> db" where
  "sql_insert_or_ignore_stat n d =
     (if n \<in> fst ` set (db_stats d) then d else d\<lparr>db_stats := db_stats d @ [(n, 0)]\<rparr>)"

definition sql_increment_hits :: "string \<Rightarrow> db \<Rightarrow> db" where
  "sql_increment_hits n d =
     d\<lparr>db_stats := map (\<lambda>(m, h). (m, if m = n then h + 1 else h)) (db_stats d)\<rparr>"

section \<open>Opening the database\<close>

definition initial_domain_lists :: "(string \<times> string \<times> int \<times> int) list" where
  "initial_domain_lists =
     [(''CUSTOM'', ''Custom, uncategorized list'', 1, 0),
      (''WHITELIST'', ''Custom, default whitelist'', 1, 1)]"

text \<open>
  \<open>DB::init\<close>: the tables are created when missing (a new file is \<open>empty_db\<close>), and the initial
  lists are inserted when there is no list at all.
\<close>

definition init_rows :: "db \<Rightarrow> exn + unit \<times> db" where
  "init_rows d =
     (if length (db_lists d) = 0
      then bindE (foldE sql_insert_initial_list initial_domain_lists d) (\<lambda>d. Inr ((), d))
      else Inr ((), d))"

definition db_init :: "db \<Rightarrow> (exn + unit) \<times> db" where
  "db_init d = transact init_rows (reopen d)"


section \<open>Lemmas on transactions\<close>

lemma take_fault_none: "db_faults d = [] \<Longrightarrow> take_fault d = (None, d)"
  by (simp add: take_fault_def)

lemma transact_ok:
  "db_faults d = [] \<Longrightarrow>
   transact body d = (case body d of Inl e \<Rightarrow> (Inl e, d\<lparr>db_faults := [Stuck]\<rparr>) | Inr (x, d') \<Rightarrow> (Inr x, d'))"
  by (simp add: transact_def take_fault_none split: sum.split)

lemma transact_fault:
  "db_faults d = Fails m # fs \<Longrightarrow> transact body d = (Inl (RuntimeError m), d\<lparr>db_faults := fs\<rparr>)"
  by (simp add: transact_def take_fault_def)

lemma transact_stuck:
  "db_faults d = Stuck # fs \<Longrightarrow>
   transact body d = (Inl (RuntimeError ''cannot start a transaction within a transaction''), d)"
  by (simp add: transact_def take_fault_def)

lemma query_ok: "db_faults d = [] \<Longrightarrow> query f d = (Inr (f d), d)"
  by (simp add: query_def)

lemma query_fault: "db_faults d = Fails m # fs \<Longrightarrow> query f d = (Inl (RuntimeError m), d\<lparr>db_faults := fs\<rparr>)"
  by (simp add: query_def)

lemma query_stuck: "db_faults d = Stuck # fs \<Longrightarrow> query f d = (Inr (f d), d)"
  by (simp add: query_def)

lemma reopen_ok [simp]: "db_faults d = [] \<Longrightarrow> reopen d = d"
  by (simp add: reopen_def)

lemma same_faults: "\<exists>fs. d = d\<lparr>db_faults := fs\<rparr>" for d :: db
  by (rule exI [of _ "db_faults d"]) simp

lemma take_fault_tables:
  assumes "take_fault d = (f, d1)"
  shows "\<exists>fs. d1 = d\<lparr>db_faults := fs\<rparr>"
  using assms
  by (cases "db_faults d"; cases "hd (db_faults d)") (auto simp: take_fault_def same_faults)

lemma take_fault_invariant:
  "take_fault d = (f, d1) \<Longrightarrow> P d \<Longrightarrow> (\<And>d fs. P d \<Longrightarrow> P (d\<lparr>db_faults := fs\<rparr>)) \<Longrightarrow> P d1"
  using take_fault_tables by blast

text \<open>
  What every statement of a transaction keeps and the fault list does not touch, the whole
  transaction keeps.
\<close>

lemma transact_invariant:
  assumes "P d" and "\<And>d fs. P d \<Longrightarrow> P (d\<lparr>db_faults := fs\<rparr>)"
    and "\<And>d x d'. P d \<Longrightarrow> body d = Inr (x, d') \<Longrightarrow> P d'"
  shows "P (snd (transact body d))"
proof -
  obtain f d1 where tf: "take_fault d = (f, d1)" by (cases "take_fault d")
  then have "P d1" using assms(1,2) by (rule take_fault_invariant)
  with tf assms(2) [of d1] assms(3) [of d1] show ?thesis
    by (auto simp: transact_def split: option.splits sum.splits)
qed

lemma query_invariant:
  assumes "P d" and "\<And>d fs. P d \<Longrightarrow> P (d\<lparr>db_faults := fs\<rparr>)"
  shows "P (snd (query f d))"
  using assms by (auto simp: query_def split: list.split fate.split)

lemma query_frame [frame]:
  "db_settings (snd (query f d)) = db_settings d" "db_lists (snd (query f d)) = db_lists d"
  "db_domains (snd (query f d)) = db_domains d" "db_stats (snd (query f d)) = db_stats d"
  "db_now (snd (query f d)) = db_now d"
  by (auto simp: query_def split: list.splits fate.splits)

section \<open>The tables as keyed stores\<close>

definition domain_map :: "db \<Rightarrow> string \<Rightarrow> int option" where
  "domain_map d = map_of (map (\<lambda>r. (dr_name r, dr_list_id r)) (db_domains d))"

definition setting_map :: "db \<Rightarrow> string \<Rightarrow> string option" where
  "setting_map d = map_of (db_settings d)"

definition hits_map :: "db \<Rightarrow> string \<Rightarrow> int option" where
  "hits_map d = map_of (db_stats d)"

lemma domain_map_dom: "dom (domain_map d) = dr_name ` set (db_domains d)"
  by (auto simp: domain_map_def dom_map_of_conv_image_fst image_image)

lemma domain_map_put: "domain_map (put_domain n i d) = (domain_map d)(n \<mapsto> i)"
  by (auto simp: domain_map_def put_domain_def map_add_def map_of_filter_rows fun_eq_iff
      split: option.splits)

lemma domain_map_add:
  "domain_map (add_domain_row n i d) =
     (domain_map d)(n \<mapsto> (case domain_map d n of None \<Rightarrow> i | Some j \<Rightarrow> j))"
proof (cases "n \<in> dom (domain_map d)")
  case True
  then show ?thesis by (auto simp: add_domain_row_def domain_map_dom [symmetric])
next
  case False
  then have "domain_map d n = None" by auto
  with False show ?thesis
    by (auto simp: add_domain_row_def domain_map_dom [symmetric] domain_map_def map_add_def
        fun_eq_iff split: option.splits)
qed

interpretation domains: kv_put domain_map put_domain
  by unfold_locales (rule domain_map_put)

interpretation domains_ignore: kv_add domain_map add_domain_row
  by unfold_locales (rule domain_map_add)

interpretation settings: kv_store setting_map sql_replace_setting sql_delete_setting
  by unfold_locales
    (auto simp: setting_map_def sql_replace_setting_def sql_delete_setting_def map_add_def
      map_of_filter_key fun_eq_iff split: option.splits)

section \<open>Every statement keeps the schema\<close>

lemma db_wf_faults [simp]: "db_wf (d\<lparr>db_faults := fs\<rparr>) = db_wf d"
  by (simp add: db_wf_def list_ids_def)

lemma list_ids_faults [simp]: "list_ids (d\<lparr>db_faults := fs\<rparr>) = list_ids d"
  by (simp add: list_ids_def)

lemma list_ids_put_domain [simp]: "list_ids (put_domain n i d) = list_ids d"
  by (simp add: list_ids_def put_domain_def)

lemma list_ids_add_domain_row [simp]: "list_ids (add_domain_row n i d) = list_ids d"
  by (simp add: list_ids_def add_domain_row_def)

lemma next_list_id_fresh: "l \<in> set (db_lists d) \<Longrightarrow> lr_id l < next_list_id d"
  using fold_max_mem [of "lr_id l" "map lr_id (db_lists d)" 0] by (auto simp: next_list_id_def)

lemma next_list_id_pos: "0 < next_list_id d"
  using fold_max_ge [of 0 "map lr_id (db_lists d)"] by (auto simp: next_list_id_def)

lemma wf_replace_setting [wf_intros]: "db_wf d \<Longrightarrow> db_wf (sql_replace_setting k v d)"
  by (auto simp: db_wf_def list_ids_def sql_replace_setting_def distinct_map_filter)

lemma wf_delete_setting [wf_intros]: "db_wf d \<Longrightarrow> db_wf (sql_delete_setting k d)"
  by (auto simp: db_wf_def list_ids_def sql_delete_setting_def distinct_map_filter)

lemma wf_add_list_row [wf_intros]:
  assumes "db_wf d" and "\<not> has_list n d"
  shows "db_wf (add_list_row n u de c w d)"
proof -
  have "next_list_id d \<notin> lr_id ` set (db_lists d)"
    using next_list_id_fresh [of _ d] by fastforce
  with assms next_list_id_pos [of d] show ?thesis
    by (auto simp: db_wf_def list_ids_def add_list_row_def has_list_def)
qed

lemma wf_insert_or_ignore_list [wf_intros]:
  "db_wf d \<Longrightarrow> db_wf (sql_insert_or_ignore_list n u de c d)"
  by (auto simp: sql_insert_or_ignore_list_def intro: wf_intros)

lemma wf_insert_initial_list:
  "db_wf d \<Longrightarrow> sql_insert_initial_list q d = Inr d' \<Longrightarrow> db_wf d'"
  by (auto simp: sql_insert_initial_list_def intro: wf_intros split: prod.splits if_splits)

lemma wf_delete_list [wf_intros]:
  assumes "db_wf d"
  shows "db_wf (sql_delete_list n d)"
proof -
  let ?keep = "filter (\<lambda>l. lr_name l \<noteq> n) (db_lists d)"
  have "dr_list_id r \<in> lr_id ` set ?keep"
    if "r \<in> set (db_domains d)" "\<forall>l \<in> set (db_lists d). lr_name l = n \<longrightarrow> dr_list_id r \<noteq> lr_id l" for r
  proof -
    from assms that(1) obtain l where "l \<in> set (db_lists d)" "dr_list_id r = lr_id l"
      by (auto simp: db_wf_def list_ids_def)
    with that(2) show ?thesis by auto
  qed
  with assms show ?thesis
    by (auto simp: db_wf_def list_ids_def sql_delete_list_def Let_def distinct_map_filter)
qed

lemma map_lr_update:
  "(\<And>l. lr_id (f l) = lr_id l) \<Longrightarrow> (\<And>l. lr_name (f l) = lr_name l) \<Longrightarrow>
   map lr_id (map f ls) = map lr_id ls \<and> map lr_name (map f ls) = map lr_name ls \<and>
   lr_id ` set (map f ls) = lr_id ` set ls"
  by (auto simp: image_image)

lemma wf_map_lists:
  assumes "db_wf d" and "\<And>l. lr_id (f l) = lr_id l" and "\<And>l. lr_name (f l) = lr_name l"
  shows "db_wf (d\<lparr>db_lists := map f (db_lists d)\<rparr>)"
  using assms map_lr_update [of f "db_lists d", OF assms(2,3)]
  by (simp add: db_wf_def list_ids_def image_image comp_def)

lemma wf_set_active [wf_intros]: "db_wf d \<Longrightarrow> db_wf (sql_set_active s n d)"
  unfolding sql_set_active_def by (rule wf_map_lists) auto

lemma wf_touch_list [wf_intros]: "db_wf d \<Longrightarrow> db_wf (sql_touch_list i d)"
  unfolding sql_touch_list_def by (rule wf_map_lists) auto

lemma wf_put_domain [wf_intros]: "db_wf d \<Longrightarrow> i \<in> list_ids d \<Longrightarrow> db_wf (put_domain n i d)"
  by (auto simp: db_wf_def list_ids_def put_domain_def distinct_map_filter)

lemma wf_add_domain_row [wf_intros]:
  "db_wf d \<Longrightarrow> n \<in> dr_name ` set (db_domains d) \<or> i \<in> list_ids d \<Longrightarrow> db_wf (add_domain_row n i d)"
  by (auto simp: db_wf_def list_ids_def add_domain_row_def)

lemma wf_insert_or_replace_domain:
  "db_wf d \<Longrightarrow> sql_insert_or_replace_domain n i d = Inr d' \<Longrightarrow> db_wf d'"
  by (auto simp: sql_insert_or_replace_domain_def intro: wf_intros split: option.splits if_splits)

lemma wf_insert_or_ignore_domain:
  "db_wf d \<Longrightarrow> sql_insert_or_ignore_domain n i d = Inr d' \<Longrightarrow> db_wf d'"
  by (auto simp: sql_insert_or_ignore_domain_def intro: wf_intros split: if_splits)

lemma wf_delete_not_whitelisted [wf_intros]: "db_wf d \<Longrightarrow> db_wf (sql_delete_not_whitelisted n d)"
  by (auto simp: db_wf_def list_ids_def sql_delete_not_whitelisted_def distinct_map_filter)

lemma wf_insert_or_ignore_stat [wf_intros]: "db_wf d \<Longrightarrow> db_wf (sql_insert_or_ignore_stat n d)"
  by (auto simp: db_wf_def list_ids_def sql_insert_or_ignore_stat_def)

lemma wf_increment_hits [wf_intros]: "db_wf d \<Longrightarrow> db_wf (sql_increment_hits n d)"
  by (auto simp: db_wf_def list_ids_def sql_increment_hits_def case_prod_beta comp_def)

lemma wf_empty_db: "db_wf (empty_db now)"
  by (simp add: db_wf_def empty_db_def)


section \<open>What the queries select\<close>

text \<open>
  The abstract state of a domain name is the list it belongs to; \<open>listed P d n\<close> says that this
  list satisfies \<open>P\<close>.
\<close>

definition listed :: "(list_row \<Rightarrow> bool) \<Rightarrow> db \<Rightarrow> string \<Rightarrow> bool" where
  "listed P d n \<longleftrightarrow> (\<exists>l \<in> set (db_lists d). P l \<and> domain_map d n = Some (lr_id l))"

definition blocks :: "list_row \<Rightarrow> bool" where
  "blocks l \<longleftrightarrow> lr_active l = 1 \<and> lr_is_whitelist l = 0"

definition whitelists :: "list_row \<Rightarrow> bool" where
  "whitelists l \<longleftrightarrow> lr_active l = 1 \<and> lr_is_whitelist l = 1"

definition blocked :: "db \<Rightarrow> string \<Rightarrow> bool" where
  "blocked d n = listed blocks d n"

definition whitelisted :: "db \<Rightarrow> string \<Rightarrow> bool" where
  "whitelisted d n = listed whitelists d n"

lemma row_mem:
  "(n, i) \<in> (\<lambda>r. (dr_name r, dr_list_id r)) ` S \<longleftrightarrow> \<lparr>dr_name = n, dr_list_id = i\<rparr> \<in> S"
proof
  assume "(n, i) \<in> (\<lambda>r. (dr_name r, dr_list_id r)) ` S"
  then obtain r where "r \<in> S" "n = dr_name r" "i = dr_list_id r" by auto
  then show "\<lparr>dr_name = n, dr_list_id = i\<rparr> \<in> S" by (cases r) simp
qed (force intro: rev_image_eqI)

lemma domain_map_row:
  assumes "db_wf d"
  shows "domain_map d n = Some i \<longleftrightarrow> \<lparr>dr_name = n, dr_list_id = i\<rparr> \<in> set (db_domains d)"
proof -
  have "distinct (map fst (map (\<lambda>r. (dr_name r, dr_list_id r)) (db_domains d)))"
    using assms by (simp add: db_wf_def comp_def)
  then have "domain_map d n = Some i \<longleftrightarrow>
      (n, i) \<in> set (map (\<lambda>r. (dr_name r, dr_list_id r)) (db_domains d))"
    unfolding domain_map_def by (rule map_of_eq_Some_iff)
  also have "\<dots> \<longleftrightarrow> \<lparr>dr_name = n, dr_list_id = i\<rparr> \<in> set (db_domains d)"
    by (simp add: row_mem)
  finally show ?thesis .
qed

lemma domain_map_Some_row:
  "domain_map d n = Some i \<Longrightarrow> \<exists>r \<in> set (db_domains d). dr_name r = n \<and> dr_list_id r = i"
  unfolding domain_map_def by (drule map_of_SomeD) auto

lemma list_by_id_unique:
  assumes "db_wf d" and "l \<in> set (db_lists d)" and "k \<in> set (db_lists d)" and "lr_id l = lr_id k"
  shows "l = k"
  using assms by (auto simp: db_wf_def distinct_map dest: inj_onD)

lemma list_by_name_unique:
  assumes "db_wf d" and "l \<in> set (db_lists d)" and "k \<in> set (db_lists d)" and "lr_name l = lr_name k"
  shows "l = k"
  using assms by (auto simp: db_wf_def distinct_map dest: inj_onD)

lemma listed_names:
  assumes "db_wf d"
  shows "d_name ` set (join_lists P d) = {n. listed P d n}"
proof -
  have "n \<in> d_name ` set (join_lists P d) \<longleftrightarrow>
      (\<exists>l \<in> set (db_lists d). P l \<and> \<lparr>dr_name = n, dr_list_id = lr_id l\<rparr> \<in> set (db_domains d))" for n
  proof -
    have "n \<in> d_name ` set (join_lists P d) \<longleftrightarrow>
        (\<exists>r \<in> set (db_domains d). \<exists>l \<in> set (db_lists d).
           P l \<and> (n, lr_id l) = (dr_name r, dr_list_id r))"
      by (force simp: join_lists_def)
    also have "\<dots> \<longleftrightarrow> (\<exists>l \<in> set (db_lists d). P l \<and>
        (n, lr_id l) \<in> (\<lambda>r. (dr_name r, dr_list_id r)) ` set (db_domains d))"
      by auto
    finally show ?thesis by (simp only: row_mem)
  qed
  then show ?thesis
    using assms by (auto simp: listed_def domain_map_row)
qed

lemma filter_id_singleton:
  "distinct (map lr_id ls) \<Longrightarrow>
   filter (\<lambda>l. lr_id l = i \<and> P l) ls = [] \<or> (\<exists>l. filter (\<lambda>l. lr_id l = i \<and> P l) ls = [l])"
proof (induction ls)
  case (Cons l ls)
  have "filter (\<lambda>l. lr_id l = i \<and> P l) ls = []" if "lr_id l = i"
    using Cons.prems that by (auto simp: filter_empty_conv image_iff)
  with Cons show ?case by auto
qed simp

lemma distinct_concat_rows:
  assumes "distinct (map f rs)" and "\<And>r. g r = [] \<or> (\<exists>x. g r = [x] \<and> h x = f r)"
  shows "distinct (map h (concat (map g rs)))"
  using assms(1)
proof (induction rs)
  case (Cons r rs)
  have "h ` set (concat (map g rs)) \<subseteq> f ` set rs"
  proof
    fix y assume "y \<in> h ` set (concat (map g rs))"
    then obtain q x where "q \<in> set rs" "x \<in> set (g q)" "y = h x" by auto
    with assms(2) [of q] show "y \<in> f ` set rs" by auto
  qed
  with Cons.prems have "f r \<notin> h ` set (concat (map g rs))" by auto
  with Cons assms(2) [of r] show ?case by auto
qed simp

lemma distinct_join:
  assumes "db_wf d"
  shows "distinct (map d_name (join_lists P d))"
  unfolding join_lists_def
proof (rule distinct_concat_rows [where f = dr_name])
  show "distinct (map dr_name (db_domains d))" using assms by (simp add: db_wf_def)
  fix r
  let ?ls = "filter (\<lambda>l. lr_id l = dr_list_id r \<and> P l) (db_lists d)"
  have "?ls = [] \<or> (\<exists>l. ?ls = [l])"
    by (rule filter_id_singleton) (use assms in \<open>simp add: db_wf_def\<close>)
  then show "map (\<lambda>l. domain_from_base (dr_list_id r, dr_name r, Some (lr_name l))) ?ls = [] \<or>
    (\<exists>x. map (\<lambda>l. domain_from_base (dr_list_id r, dr_name r, Some (lr_name l))) ?ls = [x] \<and>
         d_name x = dr_name r)"
    by auto
qed

lemma order_by_name_props:
  "set (order_by_name ds) = set ds" "sorted (map d_name (order_by_name ds))"
  "distinct (map d_name (order_by_name ds)) = distinct (map d_name ds)"
  by (simp_all add: order_by_name_def distinct_map)

lemma blocked_names:
  "db_wf d \<Longrightarrow> d_name ` set (sql_get_blocked_domains d) = {n. blocked d n}"
  by (simp add: sql_get_blocked_domains_def order_by_name_props listed_names blocked_def
      blocks_def [abs_def])

lemma whitelisted_names:
  "db_wf d \<Longrightarrow> d_name ` set (sql_get_all_whitelisted_domains d) = {n. whitelisted d n}"
  by (simp add: sql_get_all_whitelisted_domains_def listed_names whitelisted_def
      whitelists_def [abs_def])

lemma length_filter_id:
  assumes "db_wf d" and "r \<in> set (db_domains d)"
  shows "length (filter (\<lambda>l. lr_is_whitelist l = 0 \<and> lr_id l = dr_list_id r) (db_lists d)) \<le> 1"
proof -
  let ?ls = "filter (\<lambda>l. lr_id l = dr_list_id r \<and> lr_is_whitelist l = 0) (db_lists d)"
  have "?ls = [] \<or> (\<exists>l. ?ls = [l])"
    by (rule filter_id_singleton) (use assms in \<open>simp add: db_wf_def\<close>)
  then show ?thesis by (auto simp: conj_commute)
qed

lemma count_blocked_all_rows:
  assumes "db_wf d"
  shows "sql_count_blocked d = length (db_domains d)"
proof -
  have "map (\<lambda>r. max 1 (length (filter (\<lambda>l. lr_is_whitelist l = 0 \<and> lr_id l = dr_list_id r)
          (db_lists d)))) (db_domains d) = map (\<lambda>r. 1) (db_domains d)"
    using length_filter_id [OF assms] by (fastforce intro!: map_cong)
  then show ?thesis
    unfolding sql_count_blocked_def by (simp only: sum_list_triv) simp
qed

section \<open>Opening the database\<close>

lemma wf_reopen [simp]: "db_wf (reopen d) = db_wf d"
  by (simp add: reopen_def)

lemma wf_db_init [wf_intros]:
  assumes "db_wf d"
  shows "db_wf (snd (db_init d))"
  unfolding db_init_def
proof (rule transact_invariant)
  fix d :: db and x :: unit and d' :: db
  assume "db_wf d" and "init_rows d = Inr (x, d')"
  then show "db_wf d'"
    by (auto simp: init_rows_def run_iff split: if_splits intro: foldE_invariant wf_insert_initial_list)
qed (use assms in auto)

lemma db_init_no_lists:
  assumes "db_faults d = []" and "db_lists d = []"
  shows "db_init d = (Inr (), d\<lparr>db_lists :=
    [\<lparr>lr_id = 1, lr_name = ''CUSTOM'', lr_url = [], lr_description = ''Custom, uncategorized list'',
      lr_active = 1, lr_custom = 1, lr_is_whitelist = 0, lr_mtime = 0\<rparr>,
     \<lparr>lr_id = 2, lr_name = ''WHITELIST'', lr_url = [], lr_description = ''Custom, default whitelist'',
      lr_active = 1, lr_custom = 1, lr_is_whitelist = 1, lr_mtime = 0\<rparr>]\<rparr>)"
  using assms
  by (simp add: db_init_def init_rows_def transact_ok initial_domain_lists_def
      sql_insert_initial_list_def has_list_def add_list_row_def next_list_id_def)

lemma db_init_has_lists:
  "db_faults d = [] \<Longrightarrow> db_lists d \<noteq> [] \<Longrightarrow> db_init d = (Inr (), d)"
  by (simp add: db_init_def init_rows_def transact_ok)

end
