(* ===== verification/Dbl_Managers.thy ===== *)
theory Dbl_Managers
  imports Dbl_Store
begin

text \<open>
  The managers of \<open>src/dbl/manager\<close>: settings, domains and domain lists.  Every operation takes
  the database and returns its result and the new database; an operation that opens several
  sessions consumes one entry of \<open>db_faults\<close> for each.  SOCI's errors are runtime errors, which
  each operation catches; \<open>Crash\<close> is the dereference of the null pointer that
  \<open>DomainListManager::get\<close> returns when its query fails.
\<close>

section \<open>SettingsManager\<close>

definition sm_get :: "string \<Rightarrow> string \<Rightarrow> db \<Rightarrow> string \<times> db" where
  "sm_get key def d =
     (let (r, d) = query (sql_select_setting key) d;
          value = (case r of Inl e \<Rightarrow> [] | Inr None \<Rightarrow> [] | Inr (Some v) \<Rightarrow> v)
      in (if value = [] then def else value, d))"

definition sm_set :: "string \<Rightarrow> string \<Rightarrow> db \<Rightarrow> bool \<times> db" where
  "sm_set key value d =
     (case transact (\<lambda>d. Inr ((), sql_replace_setting key value d)) d of
        (Inr u, d) \<Rightarrow> (True, d)
      | (Inl e, d) \<Rightarrow> (False, d))"

definition sm_remove :: "string \<Rightarrow> db \<Rightarrow> bool \<times> db" where
  "sm_remove key d =
     (case transact (\<lambda>d. Inr ((), sql_delete_setting key d)) d of
        (Inr u, d) \<Rightarrow> (True, d)
      | (Inl e, d) \<Rightarrow> (False, d))"

section \<open>DomainManager: queries\<close>

definition filter_valid :: "resolver \<Rightarrow> string list \<Rightarrow> string list" where
  "filter_valid R domains = filter (valid_name R) domains"

definition dm_get :: "int \<Rightarrow> db \<Rightarrow> domain list \<times> db" where
  "dm_get list_id d =
     (case query (\<lambda>d. order_by_name
                    (filter (\<lambda>x. list_id = 0 \<or> d_list_id x = list_id) (sql_get_domains d))) d of
        (Inr ds, d) \<Rightarrow> (ds, d)
      | (Inl e, d) \<Rightarrow> ([], d))"

text \<open>\<open>None\<close> is the null pointer; a query without a row leaves the fresh object.\<close>

definition dm_get_by_name :: "string \<Rightarrow> db \<Rightarrow> domain option \<times> db" where
  "dm_get_by_name name d =
     (case query (\<lambda>d. find (\<lambda>x. d_name x = name) (sql_get_domains d)) d of
        (Inr None, d) \<Rightarrow> (Some new_domain, d)
      | (Inr (Some x), d) \<Rightarrow> (Some x, d)
      | (Inl e, d) \<Rightarrow> (None, d))"

definition dm_get_blocked :: "db \<Rightarrow> domain list \<times> db" where
  "dm_get_blocked d =
     (case query sql_get_blocked_domains d of
        (Inr ds, d) \<Rightarrow> (ds, d)
      | (Inl e, d) \<Rightarrow> ([], d))"

definition dm_get_whitelisted :: "db \<Rightarrow> domain list \<times> db" where
  "dm_get_whitelisted d =
     (case query sql_get_all_whitelisted_domains d of
        (Inr ds, d) \<Rightarrow> (ds, d)
      | (Inl e, d) \<Rightarrow> ([], d))"

definition dm_count_blocked :: "db \<Rightarrow> nat \<times> db" where
  "dm_count_blocked d =
     (case transact (\<lambda>d. Inr (sql_count_blocked d, d)) d of
        (Inr n, d) \<Rightarrow> (n, d)
      | (Inl e, d) \<Rightarrow> (0, d))"

section \<open>DomainListManager\<close>

definition dlm_get_all :: "db \<Rightarrow> domain_list list \<times> db" where
  "dlm_get_all d =
     (case query sql_get_domain_lists d of
        (Inr ls, d) \<Rightarrow> (ls, d)
      | (Inl e, d) \<Rightarrow> ([], d))"

definition dlm_get_by_name :: "string \<Rightarrow> bool \<Rightarrow> db \<Rightarrow> domain_list option \<times> db" where
  "dlm_get_by_name name with_domains d =
     (case query (sql_get_list_by_name name) d of
        (Inl e, d) \<Rightarrow> (None, d)
      | (Inr r, d) \<Rightarrow>
          (let l = (case r of None \<Rightarrow> new_domain_list | Some l \<Rightarrow> l)
           in if dl_id l \<noteq> 0 \<and> with_domains
              then (let (ds, d) = dm_get (dl_id l) d
                    in (Some (l\<lparr>dl_domains := dl_domains l @ ds\<rparr>), d))
              else (Some l, d)))"

definition dlm_create :: "string \<Rightarrow> string \<Rightarrow> string \<Rightarrow> bool \<Rightarrow> db \<Rightarrow> int outcome \<times> db" where
  "dlm_create name url description custom d =
     (let list_name = (if name = [] then ''CUSTOM'' else name);
          is_custom = (if custom then 1 else 0)
      in (case transact (\<lambda>d. Inr ((), sql_insert_or_ignore_list list_name url description is_custom d)) d of
            (Inl e, d) \<Rightarrow> (Ok 0, d)
          | (Inr u, d) \<Rightarrow>
              (case dlm_get_by_name list_name False d of
                 (None, d) \<Rightarrow> (Crash, d)
               | (Some l, d) \<Rightarrow> (Ok (dl_id l), d))))"

text \<open>The transaction of \<open>import\<close>: every domain into the list, then the list's \<open>mtime\<close>.\<close>

definition import_rows :: "int \<Rightarrow> string list \<Rightarrow> db \<Rightarrow> exn + unit \<times> db" where
  "import_rows list_id names d =
     bindE (foldE (\<lambda>n. sql_insert_or_replace_domain n (Some list_id)) names d)
       (\<lambda>d. Inr ((), sql_touch_list list_id d))"

definition dlm_import :: "domain_list \<Rightarrow> bool \<Rightarrow> db \<Rightarrow> bool outcome \<times> db" where
  "dlm_import lst custom d =
     (case dlm_create (dl_name lst) (dl_url lst)
             (case dl_description lst of None \<Rightarrow> [] | Some s \<Rightarrow> s) custom d of
        (Ok list_id, d) \<Rightarrow>
          (case transact (import_rows list_id (map d_name (dl_domains lst))) d of
             (Inl e, d) \<Rightarrow> (Ok False, d)
           | (Inr u, d) \<Rightarrow> (Ok True, d))
      | (Throw e, d) \<Rightarrow> (Throw e, d)
      | (Crash, d) \<Rightarrow> (Crash, d))"

definition dlm_remove :: "string \<Rightarrow> db \<Rightarrow> bool \<times> db" where
  "dlm_remove name d =
     (case transact (\<lambda>d. Inr ((), sql_delete_list name d)) d of
        (Inl e, d) \<Rightarrow> (False, d)
      | (Inr u, d) \<Rightarrow> (True, d))"

definition dlm_set_enabled :: "string \<Rightarrow> bool \<Rightarrow> db \<Rightarrow> bool \<times> db" where
  "dlm_set_enabled name enabled d =
     (case transact (\<lambda>d. Inr ((), sql_set_active (if enabled then 1 else 0) name d)) d of
        (Inl e, d) \<Rightarrow> (False, d)
      | (Inr u, d) \<Rightarrow> (True, d))"

definition dlm_count :: "db \<Rightarrow> nat \<times> db" where
  "dlm_count d =
     (case transact (\<lambda>d. Inr (sql_count_active_lists d, d)) d of
        (Inr n, d) \<Rightarrow> (n, d)
      | (Inl e, d) \<Rightarrow> (0, d))"

section \<open>DomainManager: updates\<close>

text \<open>The transaction of \<open>block_domains\<close>: all deletes, then all inserts.\<close>

definition block_rows :: "int \<Rightarrow> string list \<Rightarrow> db \<Rightarrow> exn + unit \<times> db" where
  "block_rows list_id names d =
     bindE (foldE (\<lambda>n. sql_insert_or_ignore_domain n list_id) names
              (fold sql_delete_not_whitelisted names d))
       (\<lambda>d. Inr ((), d))"

definition dm_block_domains :: "resolver \<Rightarrow> string list \<Rightarrow> int \<Rightarrow> db \<Rightarrow> bool outcome \<times> db" where
  "dm_block_domains R domains list_id d =
     (let valid_domains = filter_valid R domains
      in if valid_domains = [] then (Ok False, d)
         else (case (if list_id = 0 then dlm_create ''CUSTOM'' [] ''Custom list'' True d
                     else (Ok list_id, d)) of
                 (Ok list_id, d) \<Rightarrow>
                   (case transact (block_rows list_id valid_domains) d of
                      (Inl e, d) \<Rightarrow> (Ok False, d)
                    | (Inr u, d) \<Rightarrow> (Ok True, d))
               | (Throw e, d) \<Rightarrow> (Throw e, d)
               | (Crash, d) \<Rightarrow> (Crash, d)))"

definition unblock_rows :: "string list \<Rightarrow> db \<Rightarrow> exn + unit \<times> db" where
  "unblock_rows names d =
     bindE (foldE (\<lambda>n d. sql_insert_or_replace_domain n (sql_whitelist_id d) d) names d)
       (\<lambda>d. Inr ((), d))"

definition dm_unblock_domains :: "resolver \<Rightarrow> string list \<Rightarrow> db \<Rightarrow> bool \<times> db" where
  "dm_unblock_domains R domains d =
     (let valid_domains = filter_valid R domains
      in if valid_domains = [] then (False, d)
         else (case transact (unblock_rows valid_domains) d of
                 (Inl e, d) \<Rightarrow> (False, d)
               | (Inr u, d) \<Rightarrow> (True, d)))"


section \<open>Logger\<close>

text \<open>
  \<open>Logger::log_domain_hit\<close> (\<open>src/dbl/logger\<close>).  \<open>domains_seen_[domain]\<close> inserts \<open>false\<close> for a new
  key; nothing ever sets an entry.
\<close>

definition hit_rows :: "bool \<Rightarrow> string \<Rightarrow> db \<Rightarrow> exn + unit \<times> db" where
  "hit_rows seen domain d =
     Inr ((), sql_increment_hits domain (if seen then d else sql_insert_or_ignore_stat domain d))"

definition log_domain_hit ::
  "string \<Rightarrow> (string \<Rightarrow> bool option) \<Rightarrow> db \<Rightarrow> (string \<Rightarrow> bool option) \<times> db" where
  "log_domain_hit domain seen d =
     (let seen' = (case seen domain of None \<Rightarrow> seen(domain \<mapsto> False) | Some b \<Rightarrow> seen)
      in (case (db_faults d, take_fault d) of
            (Breaks m # fs, _, d) \<Rightarrow> (seen', d)
          | (_, Some m, d) \<Rightarrow> (seen, d)
          | (_, None, d) \<Rightarrow>
              (case hit_rows (seen' domain = Some True) domain d of
                 Inl e \<Rightarrow> (seen', d)
               | Inr (u, d) \<Rightarrow> (seen', d))))"

section \<open>Every operation keeps the schema\<close>

lemma wf_query: "query f d = (r, d') \<Longrightarrow> db_wf d \<Longrightarrow> db_wf d'"
  using query_invariant [of db_wf d f] by simp

lemma wf_transact:
  assumes "transact body d = (r, d')" and "db_wf d"
    and "\<And>d x d'. db_wf d \<Longrightarrow> body d = Inr (x, d') \<Longrightarrow> db_wf d'"
  shows "db_wf d'"
  using transact_invariant [of db_wf d body] assms by simp

lemma wf_statement:
  "transact (\<lambda>d. Inr (x, f d)) d = (r, d') \<Longrightarrow> db_wf d \<Longrightarrow> (\<And>d. db_wf d \<Longrightarrow> db_wf (f d)) \<Longrightarrow> db_wf d'"
  by (erule wf_transact) auto

lemma wf_sm_get [wf_intros]: "db_wf d \<Longrightarrow> db_wf (snd (sm_get k def d))"
  by (auto simp: sm_get_def Let_def split: prod.splits dest: wf_query)

lemma wf_sm_set [wf_intros]: "db_wf d \<Longrightarrow> db_wf (snd (sm_set k v d))"
  by (auto simp: sm_set_def split: prod.splits sum.splits elim: wf_statement intro: wf_intros)

lemma wf_sm_remove [wf_intros]: "db_wf d \<Longrightarrow> db_wf (snd (sm_remove k d))"
  by (auto simp: sm_remove_def split: prod.splits sum.splits elim: wf_statement intro: wf_intros)

lemma wf_dm_get [wf_intros]: "db_wf d \<Longrightarrow> db_wf (snd (dm_get i d))"
  by (auto simp: dm_get_def split: prod.splits sum.splits dest: wf_query)

lemma wf_dm_get_by_name [wf_intros]: "db_wf d \<Longrightarrow> db_wf (snd (dm_get_by_name n d))"
  by (auto simp: dm_get_by_name_def split: prod.splits sum.splits option.splits dest: wf_query)

lemma wf_dm_get_blocked [wf_intros]: "db_wf d \<Longrightarrow> db_wf (snd (dm_get_blocked d))"
  by (auto simp: dm_get_blocked_def split: prod.splits sum.splits dest: wf_query)

lemma wf_dm_get_whitelisted [wf_intros]: "db_wf d \<Longrightarrow> db_wf (snd (dm_get_whitelisted d))"
  by (auto simp: dm_get_whitelisted_def split: prod.splits sum.splits dest: wf_query)

lemma wf_dm_count_blocked [wf_intros]: "db_wf d \<Longrightarrow> db_wf (snd (dm_count_blocked d))"
  by (auto simp: dm_count_blocked_def split: prod.splits sum.splits elim: wf_transact)

lemma wf_dlm_count [wf_intros]: "db_wf d \<Longrightarrow> db_wf (snd (dlm_count d))"
  by (auto simp: dlm_count_def split: prod.splits sum.splits elim: wf_transact)

lemma wf_dlm_get_all [wf_intros]: "db_wf d \<Longrightarrow> db_wf (snd (dlm_get_all d))"
  by (auto simp: dlm_get_all_def split: prod.splits sum.splits dest: wf_query)

lemma wf_dlm_get_by_name [wf_intros]:
  assumes "db_wf d"
  shows "db_wf (snd (dlm_get_by_name n w d))"
proof -
  obtain r d1 where q: "query (sql_get_list_by_name n) d = (r, d1)" by force
  with assms have "db_wf d1" by (rule wf_query [rotated -1])
  then have "db_wf (snd (dm_get i d1))" for i by (rule wf_dm_get)
  with q \<open>db_wf d1\<close> show ?thesis
    by (auto simp: dlm_get_by_name_def Let_def case_prod_beta split: sum.splits)
qed

lemma wf_dlm_create [wf_intros]:
  assumes "db_wf d"
  shows "db_wf (snd (dlm_create n u de c d))"
proof -
  let ?n = "if n = [] then ''CUSTOM'' else n"
  let ?t = "transact (\<lambda>d. Inr ((), sql_insert_or_ignore_list ?n u de (if c then 1 else 0) d)) d"
  obtain r d1 where t: "?t = (r, d1)" by force
  with assms have "db_wf d1" by (auto elim: wf_statement intro: wf_intros)
  then have "db_wf (snd (dlm_get_by_name ?n False d1))" by (rule wf_dlm_get_by_name)
  with t \<open>db_wf d1\<close> show ?thesis
    by (auto simp: dlm_create_def Let_def split: sum.splits option.splits prod.splits)
qed

lemma wf_import_rows: "db_wf d \<Longrightarrow> import_rows i ns d = Inr (x, d') \<Longrightarrow> db_wf d'"
  by (auto simp: import_rows_def run_iff intro!: wf_touch_list
      intro: foldE_invariant [where P = db_wf] wf_insert_or_replace_domain)

lemma wf_block_rows: "db_wf d \<Longrightarrow> block_rows i ns d = Inr (x, d') \<Longrightarrow> db_wf d'"
  by (auto simp: block_rows_def run_iff intro: foldE_invariant [where P = db_wf]
      fold_invariant_set [where P = db_wf] wf_insert_or_ignore_domain wf_delete_not_whitelisted)

lemma wf_unblock_rows: "db_wf d \<Longrightarrow> unblock_rows ns d = Inr (x, d') \<Longrightarrow> db_wf d'"
  by (auto simp: unblock_rows_def run_iff
      intro: foldE_invariant [where P = db_wf] wf_insert_or_replace_domain)

lemma wf_transact_snd:
  "db_wf d \<Longrightarrow> (\<And>d x d'. db_wf d \<Longrightarrow> body d = Inr (x, d') \<Longrightarrow> db_wf d') \<Longrightarrow>
   db_wf (snd (transact body d))"
  by (rule wf_transact [OF surjective_pairing])

lemma wf_dlm_import [wf_intros]:
  assumes "db_wf d"
  shows "db_wf (snd (dlm_import l c d))"
proof -
  obtain r d1 where c: "dlm_create (dl_name l) (dl_url l)
    (case dl_description l of None \<Rightarrow> [] | Some s \<Rightarrow> s) c d = (r, d1)" by force
  with wf_dlm_create [OF assms] have "db_wf d1" by (metis snd_conv)
  then have "db_wf (snd (transact (import_rows i ns) d1))" for i ns
    by (rule wf_transact_snd) (rule wf_import_rows)
  with c \<open>db_wf d1\<close> show ?thesis
    by (auto simp: dlm_import_def case_prod_beta split: outcome.splits sum.splits)
qed

lemma wf_dm_block_domains [wf_intros]:
  assumes "db_wf d"
  shows "db_wf (snd (dm_block_domains R ns i d))"
proof -
  obtain r d1 where c: "(if i = 0 then dlm_create ''CUSTOM'' [] ''Custom list'' True d
    else (Ok i, d)) = (r, d1)" by force
  with assms wf_dlm_create [OF assms] have "db_wf d1" by (metis snd_conv)
  then have "db_wf (snd (transact (block_rows j vs) d1))" for j vs
    by (rule wf_transact_snd) (rule wf_block_rows)
  with c assms \<open>db_wf d1\<close> show ?thesis
    by (auto simp: dm_block_domains_def Let_def case_prod_beta split: outcome.splits sum.splits)
qed

lemma wf_dm_unblock_domains [wf_intros]:
  assumes "db_wf d"
  shows "db_wf (snd (dm_unblock_domains R ns d))"
proof -
  have "db_wf (snd (transact (unblock_rows vs) d))" for vs
    using assms by (rule wf_transact_snd) (rule wf_unblock_rows)
  with assms show ?thesis
    by (auto simp: dm_unblock_domains_def Let_def case_prod_beta split: sum.splits)
qed

lemma wf_log_domain_hit [wf_intros]:
  assumes "db_wf d"
  shows "db_wf (snd (log_domain_hit n seen d))"
proof -
  obtain f d1 where tf: "take_fault d = (f, d1)" by (cases "take_fault d")
  then have "db_wf d1" using assms by (rule take_fault_invariant) simp
  then have "db_wf (sql_increment_hits n (if b then d1 else sql_insert_or_ignore_stat n d1))" for b
    by (auto intro: wf_intros)
  with tf \<open>db_wf d1\<close> show ?thesis
    by (simp add: log_domain_hit_def hit_rows_def Let_def split: list.split fate.split option.split)
qed

lemma wf_dlm_remove [wf_intros]: "db_wf d \<Longrightarrow> db_wf (snd (dlm_remove n d))"
  by (auto simp: dlm_remove_def split: prod.splits sum.splits elim: wf_statement intro: wf_intros)

lemma wf_dlm_set_enabled [wf_intros]: "db_wf d \<Longrightarrow> db_wf (snd (dlm_set_enabled n e d))"
  by (auto simp: dlm_set_enabled_def split: prod.splits sum.splits elim: wf_statement intro: wf_intros)


section \<open>What the operations do when the database does not fail\<close>

lemma find_Some_mem: "find P xs = Some x \<Longrightarrow> x \<in> set xs \<and> P x"
  by (induction xs) (auto split: if_splits)

definition list_id_of :: "string \<Rightarrow> db \<Rightarrow> int option" where
  "list_id_of n d = map_option lr_id (find (\<lambda>l. lr_name l = n) (db_lists d))"

lemma list_id_of_None: "list_id_of n d = None \<longleftrightarrow> \<not> has_list n d"
  by (auto simp: list_id_of_def has_list_def find_None_iff)

lemma list_id_of_row:
  assumes "db_wf d"
  shows "list_id_of n d = Some i \<longleftrightarrow> (\<exists>l \<in> set (db_lists d). lr_name l = n \<and> lr_id l = i)"
proof
  assume "list_id_of n d = Some i"
  then show "\<exists>l \<in> set (db_lists d). lr_name l = n \<and> lr_id l = i"
    by (auto simp: list_id_of_def dest: find_Some_mem)
next
  assume "\<exists>l \<in> set (db_lists d). lr_name l = n \<and> lr_id l = i"
  then obtain l where l: "l \<in> set (db_lists d)" "lr_name l = n" "lr_id l = i" by blast
  then obtain k where k: "find (\<lambda>l. lr_name l = n) (db_lists d) = Some k"
    by (cases "find (\<lambda>l. lr_name l = n) (db_lists d)") (auto simp: find_None_iff)
  with l assms have "k = l" by (auto dest!: find_Some_mem intro: list_by_name_unique)
  with k l show "list_id_of n d = Some i" by (simp add: list_id_of_def)
qed

lemma list_id_of_ids: "list_id_of n d = Some i \<Longrightarrow> i \<in> list_ids d"
  by (auto simp: list_id_of_def list_ids_def dest: find_Some_mem)

lemma find_append_new:
  "find P (xs @ [x]) = (case find P xs of None \<Rightarrow> if P x then Some x else None | Some y \<Rightarrow> Some y)"
  by (induction xs) auto

lemma list_id_of_insert:
  "list_id_of n (sql_insert_or_ignore_list m u de c d) =
     (if n = m then Some (case list_id_of m d of None \<Rightarrow> next_list_id d | Some i \<Rightarrow> i)
      else list_id_of n d)"
  using list_id_of_None [of m d]
  by (auto simp: sql_insert_or_ignore_list_def list_id_of_def add_list_row_def find_append_new
      split: option.splits)

definition custom_name :: "string \<Rightarrow> string" where
  "custom_name n = (if n = [] then ''CUSTOM'' else n)"

lemma faults_insert_list [simp]: "db_faults (sql_insert_or_ignore_list n u de c d) = db_faults d"
  by (simp add: sql_insert_or_ignore_list_def add_list_row_def)

lemma dlm_get_by_name_ok:
  "db_faults d = [] \<Longrightarrow> dlm_get_by_name n False d =
     (Some (case sql_get_list_by_name n d of None \<Rightarrow> new_domain_list | Some l \<Rightarrow> l), d)"
  by (simp add: dlm_get_by_name_def query_ok Let_def)

lemma dlm_create_ok:
  assumes "db_faults d = []"
  shows "dlm_create n u de c d =
    (Ok (case list_id_of (custom_name n) d of None \<Rightarrow> next_list_id d | Some i \<Rightarrow> i),
     sql_insert_or_ignore_list (custom_name n) u de (if c then 1 else 0) d)"
proof -
  let ?m = "custom_name n"
  let ?d = "sql_insert_or_ignore_list ?m u de (if c then 1 else 0) d"
  have "list_id_of ?m ?d = Some (case list_id_of ?m d of None \<Rightarrow> next_list_id d | Some i \<Rightarrow> i)"
    by (simp add: list_id_of_insert)
  then obtain l where l: "sql_get_list_by_name ?m ?d = Some l"
    "dl_id l = (case list_id_of ?m d of None \<Rightarrow> next_list_id d | Some i \<Rightarrow> i)"
    by (auto simp: list_id_of_def sql_get_list_by_name_def list_from_row_def)
  from assms have "dlm_get_by_name ?m False ?d = (Some l, ?d)"
    by (simp add: dlm_get_by_name_ok l(1))
  with assms l(2) show ?thesis
    by (simp add: dlm_create_def custom_name_def [symmetric] transact_ok Let_def)
qed

text \<open>A domain that an update leaves alone: it belongs to a list marked as a whitelist.\<close>

definition on_whitelist :: "db \<Rightarrow> string \<Rightarrow> bool" where
  "on_whitelist d n \<longleftrightarrow> (\<exists>i \<in> whitelist_ids d. domain_map d n = Some i)"

lemma option_eqI: "(\<And>i. x = Some i \<longleftrightarrow> y = Some i) \<Longrightarrow> x = y"
  by (cases x; cases y) auto

lemma domain_map_delete:
  assumes "db_wf d"
  shows "domain_map (sql_delete_not_whitelisted n d) k =
    (if k = n \<and> \<not> on_whitelist d n then None else domain_map d k)"
proof (rule option_eqI)
  fix i
  let ?r = "\<lparr>dr_name = k, dr_list_id = i\<rparr>"
  have "domain_map (sql_delete_not_whitelisted n d) k = Some i \<longleftrightarrow>
      ?r \<in> set (db_domains d) \<and> \<not> (k = n \<and> i \<notin> whitelist_ids d)"
    by (simp add: domain_map_row [OF wf_delete_not_whitelisted [OF assms]])
      (simp add: sql_delete_not_whitelisted_def)
  also have "\<dots> \<longleftrightarrow> domain_map d k = Some i \<and> \<not> (k = n \<and> \<not> on_whitelist d n)"
    by (auto simp: domain_map_row [OF assms, symmetric] on_whitelist_def)
  finally show "domain_map (sql_delete_not_whitelisted n d) k = Some i \<longleftrightarrow>
      (if k = n \<and> \<not> on_whitelist d n then None else domain_map d k) = Some i"
    by auto
qed

text \<open>Updates of the \<open>domains\<close> table alone.\<close>

definition domains_only :: "db \<Rightarrow> db \<Rightarrow> bool" where
  "domains_only d d' \<longleftrightarrow> (\<exists>ds. d' = d\<lparr>db_domains := ds\<rparr>)"

lemma domains_only_refl [simp]: "domains_only d d"
  by (auto simp: domains_only_def intro: exI [of _ "db_domains d"])

lemma domains_only_trans: "domains_only a b \<Longrightarrow> domains_only b c \<Longrightarrow> domains_only a c"
  by (auto simp: domains_only_def)

lemma domains_only_ops [simp]:
  "domains_only d (put_domain n i d)" "domains_only d (sql_delete_not_whitelisted n d)"
  "domains_only d (add_domain_row n i d)"
  by (auto simp: domains_only_def put_domain_def sql_delete_not_whitelisted_def
      add_domain_row_def intro: exI [of _ "db_domains d"])

lemma domains_only_fold:
  "(\<And>x d. domains_only d (f x d)) \<Longrightarrow> domains_only d (fold f xs d)"
  by (induction xs arbitrary: d) (auto intro: domains_only_trans)

lemma domains_only_frame [frame]:
  assumes "domains_only d d'"
  shows "db_lists d' = db_lists d" "db_settings d' = db_settings d" "db_stats d' = db_stats d"
    "db_faults d' = db_faults d" "db_now d' = db_now d" "list_ids d' = list_ids d"
    "whitelist_ids d' = whitelist_ids d" "sql_whitelist_id d' = sql_whitelist_id d"
  using assms by (auto simp: domains_only_def list_ids_def whitelist_ids_def sql_whitelist_id_def)

lemma on_whitelist_delete:
  assumes "db_wf d"
  shows "on_whitelist (sql_delete_not_whitelisted n d) k = on_whitelist d k"
  using domains_only_frame(7) [OF domains_only_ops(2), of n d]
  by (auto simp: on_whitelist_def domain_map_delete [OF assms])

lemma domain_map_delete_all:
  assumes "db_wf d"
  shows "db_wf (fold sql_delete_not_whitelisted ns d) \<and>
    domain_map (fold sql_delete_not_whitelisted ns d) =
      (\<lambda>k. if k \<in> set ns \<and> \<not> on_whitelist d k then None else domain_map d k)"
  using assms
proof (induction ns arbitrary: d)
  case (Cons n ns)
  have wf: "db_wf (sql_delete_not_whitelisted n d)"
    using Cons.prems by (rule wf_delete_not_whitelisted)
  from Cons.IH [OF wf] Cons.prems show ?case
    by (auto simp: on_whitelist_delete domain_map_delete fun_eq_iff)
qed simp


lemma block_rows_ok:
  assumes "db_wf d" and "i \<in> list_ids d"
  obtains d' where "block_rows i ns d = Inr ((), d')" "db_wf d'" "domains_only d d'"
    "domain_map d' = (\<lambda>k. if k \<in> set ns \<and> \<not> on_whitelist d k then Some i else domain_map d k)"
proof -
  let ?d1 = "fold sql_delete_not_whitelisted ns d"
  let ?d2 = "fold (\<lambda>n. add_domain_row n i) ns ?d1"
  have only1: "domains_only d ?d1" by (rule domains_only_fold) simp
  with assms(2) have "i \<in> list_ids ?d1" by (simp add: frame)
  then have "foldE (\<lambda>n. sql_insert_or_ignore_domain n i) ns ?d1 = Inr ?d2 \<and> i \<in> list_ids ?d2"
    by (rule foldE_ok) (simp add: sql_insert_or_ignore_domain_def)
  then have run: "block_rows i ns d = Inr ((), ?d2)" by (simp add: block_rows_def)
  have "domain_map ?d2 =
      (\<lambda>k. if k \<in> set ns \<and> \<not> on_whitelist d k then Some i else domain_map d k)"
    using domain_map_delete_all [OF assms(1), of ns]
    by (auto simp: domains_ignore.look_add_all on_whitelist_def fun_eq_iff)
  moreover have "domains_only d ?d2"
    by (rule domains_only_trans [OF only1]) (rule domains_only_fold, simp)
  ultimately show ?thesis
    using that run wf_block_rows [OF assms(1) run] by blast
qed

lemma unblock_rows_ok:
  assumes "db_wf d" and "sql_whitelist_id d = Some w"
  obtains d' where "unblock_rows ns d = Inr ((), d')" "db_wf d'" "domains_only d d'"
    "domain_map d' = (\<lambda>k. if k \<in> set ns then Some w else domain_map d k)"
proof -
  let ?d' = "fold (\<lambda>n. put_domain n w) ns d"
  have w: "w \<in> list_ids d"
    using assms(2) list_id_of_ids [of "''WHITELIST''"] by (simp add: sql_whitelist_id_def list_id_of_def)
  have "foldE (\<lambda>n d. sql_insert_or_replace_domain n (sql_whitelist_id d) d) ns d = Inr ?d' \<and>
      (sql_whitelist_id ?d' = Some w \<and> w \<in> list_ids ?d')"
    by (rule foldE_ok) (use assms(2) w in
      \<open>auto simp: sql_insert_or_replace_domain_def sql_whitelist_id_def put_domain_def list_ids_def\<close>)
  then have run: "unblock_rows ns d = Inr ((), ?d')" by (simp add: unblock_rows_def)
  have "domain_map ?d' = (\<lambda>k. if k \<in> set ns then Some w else domain_map d k)"
    by (rule domains.look_put_all)
  moreover have "domains_only d ?d'" by (rule domains_only_fold) simp
  ultimately show ?thesis
    using that run wf_unblock_rows [OF assms(1) run] by blast
qed

lemma unblock_rows_no_whitelist:
  "sql_whitelist_id d = None \<Longrightarrow> ns \<noteq> [] \<Longrightarrow>
   unblock_rows ns d = Inl (RuntimeError ''NOT NULL constraint failed: domains.list_id'')"
  by (cases ns) (auto simp: unblock_rows_def sql_insert_or_replace_domain_def)

lemma import_rows_ok:
  assumes "db_wf d" and "i \<in> list_ids d"
  obtains d' where "import_rows i ns d = Inr ((), sql_touch_list i d')" "db_wf d'" "domains_only d d'"
    "domain_map d' = (\<lambda>k. if k \<in> set ns then Some i else domain_map d k)"
proof -
  let ?d' = "fold (\<lambda>n. put_domain n i) ns d"
  have "foldE (\<lambda>n. sql_insert_or_replace_domain n (Some i)) ns d = Inr ?d' \<and>
      (db_wf ?d' \<and> i \<in> list_ids ?d')"
    by (rule foldE_ok) (use assms in
      \<open>auto simp: sql_insert_or_replace_domain_def intro: wf_put_domain\<close>)
  then have "import_rows i ns d = Inr ((), sql_touch_list i ?d')" and "db_wf ?d'"
    by (simp_all add: import_rows_def)
  moreover have "domain_map ?d' = (\<lambda>k. if k \<in> set ns then Some i else domain_map d k)"
    by (rule domains.look_put_all)
  moreover have "domains_only d ?d'" by (rule domains_only_fold) simp
  ultimately show ?thesis using that by blast
qed

lemma filter_valid_mem: "k \<in> set (filter_valid R ns) \<longleftrightarrow> k \<in> set ns \<and> valid_name R k"
  by (auto simp: filter_valid_def)

lemma domain_map_insert_list [simp]:
  "domain_map (sql_insert_or_ignore_list n u de c d) = domain_map d"
  by (simp add: domain_map_def sql_insert_or_ignore_list_def add_list_row_def)

lemma domain_map_touch [simp]: "domain_map (sql_touch_list i d) = domain_map d"
  by (simp add: domain_map_def sql_touch_list_def)

lemma whitelist_ids_insert_list [simp]:
  "whitelist_ids (sql_insert_or_ignore_list n u de c d) = whitelist_ids d"
  by (auto simp: whitelist_ids_def sql_insert_or_ignore_list_def add_list_row_def)

lemma on_whitelist_insert_list [simp]:
  "on_whitelist (sql_insert_or_ignore_list n u de c d) = on_whitelist d"
  by (simp add: on_whitelist_def fun_eq_iff)

lemma dm_block_into:
  assumes "db_wf d1" and "db_faults d1 = []" and "i \<in> list_ids d1" and "filter_valid R ns \<noteq> []"
    and "(if j = 0 then dlm_create ''CUSTOM'' [] ''Custom list'' True d else (Ok j, d)) = (Ok i, d1)"
  obtains d' where "dm_block_domains R ns j d = (Ok True, d')" "db_wf d'" "domains_only d1 d'"
    "domain_map d' = (\<lambda>k. if k \<in> set ns \<and> valid_name R k \<and> \<not> on_whitelist d1 k then Some i
                          else domain_map d1 k)"
proof -
  from assms(1,3) obtain d' where d': "block_rows i (filter_valid R ns) d1 = Inr ((), d')"
    "db_wf d'" "domains_only d1 d'"
    "domain_map d' = (\<lambda>k. if k \<in> set (filter_valid R ns) \<and> \<not> on_whitelist d1 k then Some i
                          else domain_map d1 k)"
    by (rule block_rows_ok)
  from d'(1) assms(2,4,5) have "dm_block_domains R ns j d = (Ok True, d')"
    by (simp add: dm_block_domains_def transact_ok Let_def)
  with d' that show ?thesis by (auto simp: filter_valid_mem)
qed

section \<open>Blocking and unblocking domains\<close>

text \<open>Blocking domains into an existing list moves exactly the valid names that are not on
  a whitelist into that list, whatever list they were in before; every other domain and every
  other table is unchanged, the schema's constraints hold afterwards and the call reports
  success.  A whitelisted domain stays on its whitelist.\<close>

theorem block_domains_spec:
  assumes "db_wf d" and "db_faults d = []" and "i \<in> list_ids d" and "i \<noteq> 0"
    and "filter_valid R ns \<noteq> []"
  shows "\<exists>d'. dm_block_domains R ns i d = (Ok True, d') \<and> db_wf d' \<and> domains_only d d' \<and>
    domain_map d' = (\<lambda>k. if k \<in> set ns \<and> valid_name R k \<and> \<not> on_whitelist d k then Some i
                          else domain_map d k)"
  using dm_block_into [OF assms(1-3,5), of i d] assms(4) by force

lemma block_custom_run:
  assumes "db_wf d" and "db_faults d = []" and "filter_valid R ns \<noteq> []"
  obtains i d' where "dm_block_domains R ns 0 d = (Ok True, d')" "db_wf d'"
    "domains_only (sql_insert_or_ignore_list ''CUSTOM'' [] ''Custom list'' 1 d) d'"
    "list_id_of ''CUSTOM'' d' = Some i"
    "domain_map d' = (\<lambda>k. if k \<in> set ns \<and> valid_name R k \<and> \<not> on_whitelist d k then Some i
                          else domain_map d k)"
proof -
  let ?d1 = "sql_insert_or_ignore_list ''CUSTOM'' [] ''Custom list'' 1 d"
  obtain i where i: "list_id_of ''CUSTOM'' ?d1 = Some i" by (simp add: list_id_of_insert)
  have "dlm_create ''CUSTOM'' [] ''Custom list'' True d = (Ok i, ?d1)"
    using dlm_create_ok [OF assms(2), of "''CUSTOM''" "[]" "''Custom list''" True] i
    by (simp add: custom_name_def list_id_of_insert)
  then obtain d' where d': "dm_block_domains R ns 0 d = (Ok True, d')" "db_wf d'"
    "domains_only ?d1 d'"
    "domain_map d' = (\<lambda>k. if k \<in> set ns \<and> valid_name R k \<and> \<not> on_whitelist ?d1 k then Some i
                          else domain_map ?d1 k)"
    using dm_block_into [of ?d1 i R ns 0 d] assms i list_id_of_ids [OF i]
    by (auto intro: wf_intros)
  moreover have "list_id_of ''CUSTOM'' d' = Some i"
    using d'(3) i by (simp add: list_id_of_def frame)
  moreover have "domain_map d' = (\<lambda>k. if k \<in> set ns \<and> valid_name R k \<and> \<not> on_whitelist d k
      then Some i else domain_map d k)"
    using d'(4) by (simp cong: if_cong)
  ultimately show ?thesis using that [OF d'(1-3)] by simp
qed

lemma unblock_run:
  assumes "db_wf d" and "db_faults d = []" and "filter_valid R ns \<noteq> []"
    and "sql_whitelist_id d = Some w"
  obtains d' where "dm_unblock_domains R ns d = (True, d')" "db_wf d'" "domains_only d d'"
    "domain_map d' = (\<lambda>k. if k \<in> set ns \<and> valid_name R k then Some w else domain_map d k)"
proof -
  from assms(1,4) obtain d' where d': "unblock_rows (filter_valid R ns) d = Inr ((), d')"
    "db_wf d'" "domains_only d d'"
    "domain_map d' = (\<lambda>k. if k \<in> set (filter_valid R ns) then Some w else domain_map d k)"
    by (rule unblock_rows_ok)
  with assms(2,3) have "dm_unblock_domains R ns d = (True, d')"
    by (simp add: dm_unblock_domains_def transact_ok Let_def)
  with d' that show ?thesis by (auto simp: filter_valid_mem)
qed

text \<open>Blocking without a list id uses the list named CUSTOM, creating it when it is missing;
  the lists keep their ids and the blocked names end in that list.\<close>

theorem block_domains_custom:
  assumes "db_wf d" and "db_faults d = []" and "filter_valid R ns \<noteq> []"
  shows "\<exists>i d'. dm_block_domains R ns 0 d = (Ok True, d') \<and> db_wf d' \<and>
    domains_only (sql_insert_or_ignore_list ''CUSTOM'' [] ''Custom list'' 1 d) d' \<and>
    list_id_of ''CUSTOM'' d' = Some i \<and>
    domain_map d' = (\<lambda>k. if k \<in> set ns \<and> valid_name R k \<and> \<not> on_whitelist d k then Some i
                          else domain_map d k)"
proof -
  obtain i d' where d': "dm_block_domains R ns 0 d = (Ok True, d')" "db_wf d'"
    "domains_only (sql_insert_or_ignore_list ''CUSTOM'' [] ''Custom list'' 1 d) d'"
    "list_id_of ''CUSTOM'' d' = Some i"
    "domain_map d' = (\<lambda>k. if k \<in> set ns \<and> valid_name R k \<and> \<not> on_whitelist d k then Some i
                          else domain_map d k)"
    by (rule block_custom_run [OF assms])
  show ?thesis by (intro exI [of _ i] exI [of _ d'] conjI; fact)
qed

text \<open>Unblocking moves exactly the valid names into the list named WHITELIST and leaves
  everything else as it was; when that list is gone the call fails, no row changes, and the session
  keeps its transaction open.\<close>

theorem unblock_domains_spec:
  assumes "db_wf d" and "db_faults d = []" and "filter_valid R ns \<noteq> []"
  shows "case sql_whitelist_id d of
      None \<Rightarrow> dm_unblock_domains R ns d = (False, d\<lparr>db_faults := [Stuck]\<rparr>)
    | Some w \<Rightarrow> \<exists>d'. dm_unblock_domains R ns d = (True, d') \<and> db_wf d' \<and> domains_only d d' \<and>
        domain_map d' = (\<lambda>k. if k \<in> set ns \<and> valid_name R k then Some w else domain_map d k)"
proof (cases "sql_whitelist_id d")
  case None
  with assms show ?thesis
    by (simp add: dm_unblock_domains_def transact_ok unblock_rows_no_whitelist Let_def)
next
  case (Some w)
  obtain d' where d': "dm_unblock_domains R ns d = (True, d')" "db_wf d'" "domains_only d d'"
    "domain_map d' = (\<lambda>k. if k \<in> set ns \<and> valid_name R k then Some w else domain_map d k)"
    by (rule unblock_run [OF assms Some])
  then have "\<exists>d'. dm_unblock_domains R ns d = (True, d') \<and> db_wf d' \<and> domains_only d d' \<and>
      domain_map d' = (\<lambda>k. if k \<in> set ns \<and> valid_name R k then Some w else domain_map d k)"
    by (intro exI [of _ d'] conjI)
  with Some show ?thesis by (simp only: option.case)
qed

text \<open>The row of the list WHITELIST is a whitelist, as the initial data makes it.\<close>

definition whitelist_row :: "db \<Rightarrow> list_row \<Rightarrow> bool" where
  "whitelist_row d l \<longleftrightarrow> l \<in> set (db_lists d) \<and> lr_name l = ''WHITELIST'' \<and> lr_is_whitelist l = 1"

lemma whitelist_row_id:
  "db_wf d \<Longrightarrow> whitelist_row d l \<Longrightarrow> sql_whitelist_id d = Some (lr_id l)"
  using list_id_of_row [of d "''WHITELIST''" "lr_id l"]
  by (auto simp: sql_whitelist_id_def list_id_of_def whitelist_row_def)

lemma listed_same_list:
  assumes "db_wf d" and "l \<in> set (db_lists d)" and "domain_map d k = Some (lr_id l)"
  shows "listed P d k = P l"
  using assms list_by_id_unique [OF assms(1,2)] by (auto simp: listed_def)

section \<open>Importing, enabling and removing lists\<close>

lemma list_id_of_touch: "list_id_of n (sql_touch_list i d) = list_id_of n d"
proof -
  have "map_option lr_id (find (\<lambda>l. lr_name l = n)
      (map (\<lambda>l. if lr_id l = i then l\<lparr>lr_mtime := t\<rparr> else l) ls)) =
    map_option lr_id (find (\<lambda>l. lr_name l = n) ls)" for t ls
    by (induction ls) auto
  then show ?thesis by (simp add: list_id_of_def sql_touch_list_def)
qed

lemma touch_mtime:
  assumes "l \<in> set (db_lists (sql_touch_list i d))" and "lr_id l = i"
  shows "lr_mtime l = db_now d"
proof -
  from assms(1) have "l \<in> (\<lambda>l. if lr_id l = i then l\<lparr>lr_mtime := db_now d\<rparr> else l) ` set (db_lists d)"
    by (simp add: sql_touch_list_def del: if_image_distrib)
  then obtain m where "l = (if lr_id m = i then m\<lparr>lr_mtime := db_now d\<rparr> else m)" by blast
  with assms(2) show ?thesis by (cases "lr_id m = i") auto
qed

lemma dlm_import_run:
  assumes "db_wf d" and "db_faults d = []"
  obtains i d2 where
    "dlm_import lst c d = (Ok True, sql_touch_list i d2)" "db_wf d2"
    "list_id_of (custom_name (dl_name lst)) d2 = Some i"
    "domains_only (sql_insert_or_ignore_list (custom_name (dl_name lst)) (dl_url lst)
       (case dl_description lst of None \<Rightarrow> [] | Some s \<Rightarrow> s) (if c then 1 else 0) d) d2"
    "domain_map d2 = (\<lambda>k. if k \<in> d_name ` set (dl_domains lst) then Some i else domain_map d k)"
proof -
  let ?n = "custom_name (dl_name lst)"
  let ?de = "case dl_description lst of None \<Rightarrow> [] | Some s \<Rightarrow> s"
  let ?d1 = "sql_insert_or_ignore_list ?n (dl_url lst) ?de (if c then 1 else 0) d"
  obtain i where i: "list_id_of ?n ?d1 = Some i"
    "i = (case list_id_of ?n d of None \<Rightarrow> next_list_id d | Some i \<Rightarrow> i)"
    by (simp add: list_id_of_insert)
  have "db_wf ?d1" using assms(1) by (rule wf_insert_or_ignore_list)
  moreover have "i \<in> list_ids ?d1" using i(1) by (rule list_id_of_ids)
  ultimately obtain d2 where d2:
    "import_rows i (map d_name (dl_domains lst)) ?d1 = Inr ((), sql_touch_list i d2)" "db_wf d2"
    "domains_only ?d1 d2"
    "domain_map d2 = (\<lambda>k. if k \<in> set (map d_name (dl_domains lst)) then Some i else domain_map ?d1 k)"
    by (rule import_rows_ok)
  have run: "dlm_import lst c d = (Ok True, sql_touch_list i d2)"
    using assms(2) dlm_create_ok [OF assms(2), of "dl_name lst"] d2(1) i(2)
    by (simp add: dlm_import_def transact_ok)
  have id: "list_id_of ?n d2 = Some i" using i(1) d2(3) by (simp add: list_id_of_def frame)
  show ?thesis by (rule that [OF run d2(2) id d2(3)]) (simp add: d2(4) cong: if_cong)
qed

lemma dlm_import_ok:
  assumes "db_wf d" and "db_faults d = []"
  obtains i u de ci d2 where
    "dlm_import lst c d = (Ok True, sql_touch_list i d2)" "db_wf d2"
    "list_id_of (custom_name (dl_name lst)) d2 = Some i"
    "domains_only (sql_insert_or_ignore_list (custom_name (dl_name lst)) u de ci d) d2"
    "domain_map d2 = (\<lambda>k. if k \<in> d_name ` set (dl_domains lst) then Some i else domain_map d k)"
  by (rule dlm_import_run [OF assms])

text \<open>C16: Importing a list puts every domain of it into the list of its name (CUSTOM when the
  name is empty), taking it from whatever list it was in, a whitelist included, stamps the list
  with the current time and leaves all other domains alone.\<close>

theorem import_spec:
  assumes "db_wf d" and "db_faults d = []"
  shows "\<exists>d' i. dlm_import lst c d = (Ok True, d') \<and> db_wf d' \<and>
    list_id_of (custom_name (dl_name lst)) d' = Some i \<and>
    (\<forall>k. domain_map d' k = (if k \<in> d_name ` set (dl_domains lst) then Some i else domain_map d k)) \<and>
    (\<forall>l \<in> set (db_lists d'). lr_id l = i \<longrightarrow> lr_mtime l = db_now d)"
proof -
  from dlm_import_ok [OF assms, of lst c] obtain i u de ci d2 where
    run: "dlm_import lst c d = (Ok True, sql_touch_list i d2)" "db_wf d2"
    "list_id_of (custom_name (dl_name lst)) d2 = Some i"
    "domains_only (sql_insert_or_ignore_list (custom_name (dl_name lst)) u de ci d) d2"
    "domain_map d2 = (\<lambda>k. if k \<in> d_name ` set (dl_domains lst) then Some i else domain_map d k)" .
  have "db_now d2 = db_now d"
    using run(4) by (simp add: frame sql_insert_or_ignore_list_def add_list_row_def)
  then have "\<forall>l \<in> set (db_lists (sql_touch_list i d2)). lr_id l = i \<longrightarrow> lr_mtime l = db_now d"
    using touch_mtime [of _ i d2] by metis
  then show ?thesis
    using run wf_touch_list [OF run(2), of i]
    by (intro exI [of _ "sql_touch_list i d2"] exI [of _ i]) (simp add: list_id_of_touch)
qed

lemma listed_map_lists:
  "(\<And>l. lr_id (f l) = lr_id l) \<Longrightarrow>
   listed P (d\<lparr>db_lists := map f (db_lists d)\<rparr>) k \<longleftrightarrow>
     (\<exists>l \<in> set (db_lists d). P (f l) \<and> domain_map d k = Some (lr_id l))"
  by (simp add: listed_def domain_map_def)

text \<open>An import can undo an unblock: a domain listed by an imported list that exists, is
  active and is no whitelist is blocked after the import, even if it was on the whitelist.\<close>

theorem import_overrides_whitelist:
  assumes "db_wf d" and "db_faults d = []" and "k \<in> d_name ` set (dl_domains lst)"
    and "l \<in> set (db_lists d)" and "lr_name l = custom_name (dl_name lst)" and "blocks l"
  shows "blocked (snd (dlm_import lst c d)) k"
proof -
  from dlm_import_ok [OF assms(1,2), of lst c] obtain i u de ci d2 where
    run: "dlm_import lst c d = (Ok True, sql_touch_list i d2)" "db_wf d2"
    "list_id_of (custom_name (dl_name lst)) d2 = Some i"
    "domains_only (sql_insert_or_ignore_list (custom_name (dl_name lst)) u de ci d) d2"
    "domain_map d2 = (\<lambda>k. if k \<in> d_name ` set (dl_domains lst) then Some i else domain_map d k)" .
  have l2: "l \<in> set (db_lists d2)"
    using run(4) assms(4) by (simp add: frame sql_insert_or_ignore_list_def add_list_row_def)
  with run(2,3) assms(5) have "lr_id l = i"
    using list_id_of_row [OF run(2)] list_by_name_unique [OF run(2)] by metis
  with run(5) assms(3) have "domain_map d2 k = Some (lr_id l)" by simp
  with l2 assms(6) have "blocked (sql_touch_list i d2) k"
    unfolding blocked_def sql_touch_list_def
    by (subst listed_map_lists) (auto simp: blocks_def)
  with run(1) show ?thesis by simp
qed

text \<open>Enabling or disabling a list changes what is blocked exactly for the domains of that
  list: they are blocked when it is enabled and not a whitelist, and not blocked when it is
  disabled.  Names, ids and the membership of domains do not change, and a name without a list
  changes nothing at all.\<close>

theorem set_enabled_spec:
  assumes "db_wf d" and "db_faults d = []"
  shows "\<exists>d'. dlm_set_enabled n e d = (True, d') \<and> db_wf d' \<and> domain_map d' = domain_map d \<and>
    map lr_name (db_lists d') = map lr_name (db_lists d) \<and> list_ids d' = list_ids d \<and>
    (\<not> has_list n d \<longrightarrow> d' = d) \<and>
    (\<forall>k. blocked d' k \<longleftrightarrow>
       (if (\<exists>i. list_id_of n d = Some i \<and> domain_map d k = Some i)
        then e \<and> (\<exists>l \<in> set (db_lists d). lr_name l = n \<and> lr_is_whitelist l = 0)
        else blocked d k))"
proof -
  let ?s = "if e then 1 else 0 :: int"
  let ?f = "\<lambda>l. if lr_name l = n then l\<lparr>lr_active := ?s\<rparr> else l"
  let ?d' = "sql_set_active ?s n d"
  have "blocked ?d' k \<longleftrightarrow> (if (\<exists>i. list_id_of n d = Some i \<and> domain_map d k = Some i)
       then e \<and> (\<exists>l \<in> set (db_lists d). lr_name l = n \<and> lr_is_whitelist l = 0)
       else blocked d k)" for k
  proof (cases "domain_map d k")
    case (Some i)
    have b: "blocked ?d' k \<longleftrightarrow> (\<exists>l \<in> set (db_lists d). blocks (?f l) \<and> lr_id l = i)"
      unfolding blocked_def sql_set_active_def
      by (subst listed_map_lists) (use Some in auto)
    show ?thesis
    proof (cases "list_id_of n d = Some i")
      case True
      then obtain m where m: "m \<in> set (db_lists d)" "lr_name m = n" "lr_id m = i"
        using list_id_of_row [OF assms(1)] by blast
      then have "blocked ?d' k \<longleftrightarrow> blocks (?f m)"
        using b list_by_id_unique [OF assms(1)] by metis
      moreover have "(\<exists>l \<in> set (db_lists d). lr_name l = n \<and> lr_is_whitelist l = 0) \<longleftrightarrow>
          lr_is_whitelist m = 0"
        using m list_by_name_unique [OF assms(1)] by metis
      ultimately show ?thesis using True Some m(2) by (simp add: blocks_def)
    next
      case False
      then have other: "lr_name l \<noteq> n" if "l \<in> set (db_lists d)" "lr_id l = i" for l
        using that list_id_of_row [OF assms(1), of n i] by blast
      have "blocked ?d' k \<longleftrightarrow> (\<exists>l \<in> set (db_lists d). blocks l \<and> lr_id l = i)"
        unfolding b by (rule bex_cong) (auto dest: other)
      moreover have "blocked d k \<longleftrightarrow> (\<exists>l \<in> set (db_lists d). blocks l \<and> lr_id l = i)"
        using Some by (auto simp: blocked_def listed_def)
      ultimately show ?thesis using False Some by simp
    qed
  qed (simp add: blocked_def listed_def sql_set_active_def domain_map_def)
  have "\<not> has_list n d \<longrightarrow> ?d' = d"
  proof
    assume "\<not> has_list n d"
    then have "map ?f (db_lists d) = db_lists d" by (intro map_idI) (auto simp: has_list_def)
    then show "?d' = d" by (simp add: sql_set_active_def)
  qed
  have "dlm_set_enabled n e d = (True, ?d')"
    using assms(2) by (simp add: dlm_set_enabled_def transact_ok)
  have "domain_map ?d' = domain_map d" by (simp add: domain_map_def sql_set_active_def)
  have "map lr_name (db_lists ?d') = map lr_name (db_lists d)"
    by (simp add: sql_set_active_def)
  have "list_ids ?d' = list_ids d"
    unfolding list_ids_def sql_set_active_def
    by (simp add: image_image if_distrib [where f = lr_id] cong: if_cong del: if_image_distrib)
  have "db_wf ?d'" using assms(1) by (rule wf_set_active)
  show ?thesis by (intro exI [of _ ?d'] conjI allI; fact)
qed


text \<open>Removing a list deletes its row and, by the cascading foreign key, exactly the domains
  that belonged to it; the other lists and domains stay.\<close>

theorem remove_list_spec:
  assumes "db_wf d" and "db_faults d = []"
  shows "\<exists>d'. dlm_remove n d = (True, d') \<and> db_wf d' \<and> \<not> has_list n d' \<and>
    (\<forall>m. m \<noteq> n \<longrightarrow> list_id_of m d' = list_id_of m d) \<and>
    (\<forall>k. domain_map d' k =
       (if \<exists>i. list_id_of n d = Some i \<and> domain_map d k = Some i then None else domain_map d k))"
proof -
  let ?d' = "sql_delete_list n d"
  have wf: "db_wf ?d'" using assms(1) by (rule wf_delete_list)
  have run: "dlm_remove n d = (True, ?d')"
    using assms(2) by (simp add: dlm_remove_def transact_ok)
  have lists: "db_lists ?d' = filter (\<lambda>l. lr_name l \<noteq> n) (db_lists d)"
    by (simp add: sql_delete_list_def Let_def)
  have dom: "domain_map ?d' k =
      (if \<exists>i. list_id_of n d = Some i \<and> domain_map d k = Some i then None else domain_map d k)" for k
  proof (rule option_eqI)
    fix i
    have "domain_map ?d' k = Some i \<longleftrightarrow> \<lparr>dr_name = k, dr_list_id = i\<rparr> \<in> set (db_domains d) \<and>
        \<not> (\<exists>l \<in> set (db_lists d). lr_name l = n \<and> lr_id l = i)"
      by (auto simp: domain_map_row [OF wf]) (auto simp: sql_delete_list_def Let_def)
    also have "\<dots> \<longleftrightarrow> domain_map d k = Some i \<and> list_id_of n d \<noteq> Some i"
      by (simp add: domain_map_row [OF assms(1)] list_id_of_row [OF assms(1)])
    finally show "domain_map ?d' k = Some i \<longleftrightarrow>
        (if \<exists>i. list_id_of n d = Some i \<and> domain_map d k = Some i then None else domain_map d k) = Some i"
      by auto
  qed
  have ids: "list_id_of m ?d' = list_id_of m d" if "m \<noteq> n" for m
  proof -
    have skip: "find (\<lambda>l. lr_name l = m) (filter (\<lambda>l. lr_name l \<noteq> n) ls) =
        find (\<lambda>l. lr_name l = m) ls" for ls
      using that by (induction ls) auto
    show ?thesis by (simp only: list_id_of_def lists skip)
  qed
  have "\<not> has_list n ?d'" by (auto simp: has_list_def lists)
  with wf run dom ids show ?thesis by (intro exI [of _ ?d']) simp
qed

text \<open>Creating a list returns the positive id under which the list is then found; a list that
  exists already is returned as it is, a new one gets an id that no list had, is active, and
  no domain is touched.\<close>

theorem create_list_spec:
  assumes "db_wf d" and "db_faults d = []"
  shows "\<exists>i d'. dlm_create n u de c d = (Ok i, d') \<and> db_wf d' \<and> 0 < i \<and>
    list_id_of (custom_name n) d' = Some i \<and> domain_map d' = domain_map d \<and>
    (\<forall>j. list_id_of (custom_name n) d = Some j \<longrightarrow> i = j \<and> d' = d) \<and>
    (list_id_of (custom_name n) d = None \<longrightarrow> i \<notin> list_ids d \<and>
       db_lists d' = db_lists d @ [\<lparr>lr_id = i, lr_name = custom_name n, lr_url = u,
         lr_description = de, lr_active = 1, lr_custom = (if c then 1 else 0),
         lr_is_whitelist = 0, lr_mtime = 0\<rparr>])"
proof (cases "list_id_of (custom_name n) d")
  case None
  let ?ci = "if c then 1 else 0 :: int"
  let ?d' = "add_list_row (custom_name n) u de ?ci 0 d"
  have fresh: "next_list_id d \<notin> list_ids d"
    using next_list_id_fresh [of _ d] by (fastforce simp: list_ids_def)
  from None have new: "\<not> has_list (custom_name n) d" by (simp add: list_id_of_None)
  then have ins: "sql_insert_or_ignore_list (custom_name n) u de ?ci d = ?d'"
    by (simp add: sql_insert_or_ignore_list_def)
  have run: "dlm_create n u de c d = (Ok (next_list_id d), ?d')"
    using dlm_create_ok [OF assms(2), of n u de c] by (simp only: ins None option.case)
  have id: "list_id_of (custom_name n) ?d' = Some (next_list_id d)"
    using list_id_of_insert [of "custom_name n" "custom_name n" u de ?ci d]
    by (simp only: ins None option.case if_True simp_thms)
  have dm: "domain_map ?d' = domain_map d" by (simp add: domain_map_def add_list_row_def)
  have wf: "db_wf ?d'" using assms(1) new by (rule wf_add_list_row)
  from run id dm wf fresh None next_list_id_pos [of d] show ?thesis
    by (intro exI [of _ "next_list_id d"] exI [of _ ?d']) (simp add: add_list_row_def)
next
  case (Some j)
  then have "has_list (custom_name n) d" using list_id_of_None [of "custom_name n" d] by simp
  moreover have "0 < j"
    using Some assms(1) list_id_of_row [OF assms(1)] by (auto simp: db_wf_def)
  ultimately show ?thesis
    using Some assms dlm_create_ok [OF assms(2), of n u de c]
    by (auto simp: sql_insert_or_ignore_list_def)
qed

section \<open>What the queries return\<close>

text \<open>What the query for the blocked domains gives.\<close>

lemma get_blocked_run:
  assumes "db_wf d" and "db_faults d = []"
  obtains ds where "dm_get_blocked d = (ds, d)" "sorted (map d_name ds)" "distinct (map d_name ds)"
    "d_name ` set ds = {n. blocked d n}"
proof -
  have "dm_get_blocked d = (sql_get_blocked_domains d, d)"
    using assms(2) by (simp add: dm_get_blocked_def query_ok)
  moreover have "sorted (map d_name (sql_get_blocked_domains d))"
    by (simp add: sql_get_blocked_domains_def order_by_name_props)
  moreover have "distinct (map d_name (sql_get_blocked_domains d))"
    unfolding sql_get_blocked_domains_def order_by_name_props(3)
    using assms(1) by (rule distinct_join)
  ultimately show ?thesis using blocked_names [OF assms(1)] by (rule that)
qed

lemma get_whitelisted_ok:
  assumes "db_wf d" and "db_faults d = []"
  shows "\<exists>ds. dm_get_whitelisted d = (ds, d) \<and> distinct (map d_name ds) \<and>
    d_name ` set ds = {n. whitelisted d n}"
proof -
  have "dm_get_whitelisted d = (sql_get_all_whitelisted_domains d, d)"
    using assms(2) by (simp add: dm_get_whitelisted_def query_ok)
  moreover have "distinct (map d_name (sql_get_all_whitelisted_domains d))"
    unfolding sql_get_all_whitelisted_domains_def using assms(1) by (rule distinct_join)
  ultimately show ?thesis using whitelisted_names [OF assms(1)] by blast
qed

text \<open>The two queries never give the same domain: nothing is reported as blocked and as
  whitelisted at once, and with every list active and marked 0 or 1 each domain is one or the
  other.\<close>

theorem blocked_whitelisted_disjoint:
  assumes "db_wf d"
  shows "\<not> (blocked d k \<and> whitelisted d k) \<and>
    ((\<forall>l \<in> set (db_lists d). lr_active l = 1 \<and> lr_is_whitelist l \<in> {0, 1}) \<longrightarrow>
       domain_map d k \<noteq> None \<longrightarrow> blocked d k \<or> whitelisted d k)"
proof (intro conjI impI notI)
  assume "blocked d k \<and> whitelisted d k"
  then obtain l m where lm: "l \<in> set (db_lists d)" "blocks l" "domain_map d k = Some (lr_id l)"
    "m \<in> set (db_lists d)" "whitelists m" "domain_map d k = Some (lr_id m)"
    by (auto simp: blocked_def whitelisted_def listed_def)
  then have "l = m" using list_by_id_unique [OF assms lm(1,4)] by simp
  with lm(2,5) show False by (simp add: blocks_def whitelists_def)
next
  assume *: "\<forall>l \<in> set (db_lists d). lr_active l = 1 \<and> lr_is_whitelist l \<in> {0, 1}"
    and "domain_map d k \<noteq> None"
  then obtain i where i: "domain_map d k = Some i" by auto
  with assms obtain l where "l \<in> set (db_lists d)" "lr_id l = i"
    using domain_map_Some_row [OF i] by (auto simp: db_wf_def list_ids_def)
  with * i show "blocked d k \<or> whitelisted d k"
    by (auto simp: blocked_def whitelisted_def listed_def blocks_def whitelists_def)
qed

text \<open>The number that \<open>count_blocked\<close> reports counts every domain of the database, those on a
  whitelist and those of disabled lists included, because the list condition sits in a left
  join.\<close>

theorem count_blocked_counts_all:
  assumes "db_wf d" and "db_faults d = []"
  shows "dm_count_blocked d = (length (db_domains d), d)"
  using assms by (simp add: dm_count_blocked_def transact_ok count_blocked_all_rows)

section \<open>Failures\<close>

text \<open>When the session of an operation fails, the operation reports failure (the empty list,
  \<open>false\<close> or 0) and no table changes; reading a setting then gives the default.\<close>

theorem failed_session_changes_nothing:
  assumes "db_faults d = Fails m # fs" and "filter_valid R ns \<noteq> []" and "i \<noteq> 0"
  defines "d' \<equiv> d\<lparr>db_faults := fs\<rparr>"
  shows "sm_set k v d = (False, d') \<and> sm_remove k d = (False, d') \<and> sm_get k v d = (v, d') \<and>
    dm_block_domains R ns i d = (Ok False, d') \<and> dm_unblock_domains R ns d = (False, d') \<and>
    dlm_create n u de c d = (Ok 0, d') \<and> dlm_remove n d = (False, d') \<and>
    dlm_set_enabled n e d = (False, d') \<and> dm_get_blocked d = ([], d') \<and>
    dlm_get_by_name n w d = (None, d') \<and> dm_get_by_name n d = (None, d')"
  using assms
  by (simp add: sm_set_def sm_remove_def sm_get_def dm_block_domains_def dm_unblock_domains_def
      dlm_create_def dlm_remove_def dlm_set_enabled_def dm_get_blocked_def dlm_get_by_name_def
      dm_get_by_name_def query_fault transact_fault Let_def)

text \<open>A fault between the two sessions of \<open>create\<close> ends the process: the list row is
  committed and the null pointer that \<open>get\<close> returns is dereferenced.\<close>

theorem create_second_session_crash:
  assumes "db_faults d = Fine # Fails m # fs"
  shows "fst (dlm_create n u de c d) = Crash \<and> has_list (custom_name n) (snd (dlm_create n u de c d))"
proof -
  let ?d = "sql_insert_or_ignore_list (custom_name n) u de (if c then 1 else 0)
     (d\<lparr>db_faults := Fails m # fs\<rparr>)"
  have "has_list (custom_name n) ?d"
    by (auto simp: sql_insert_or_ignore_list_def has_list_def add_list_row_def)
  moreover have "dlm_create n u de c d = (Crash, ?d\<lparr>db_faults := fs\<rparr>)"
    using assms
    by (simp add: dlm_create_def custom_name_def [symmetric] Let_def transact_def take_fault_def
        dlm_get_by_name_def query_fault)
  ultimately show ?thesis by (simp add: has_list_def)
qed

section \<open>Statistics\<close>

lemma log_hit_ok:
  assumes "db_wf d" and "db_faults d = []" and "\<forall>n. seen n \<noteq> Some True"
  shows "\<exists>seen' d'. log_domain_hit n seen d = (seen', d') \<and> db_wf d' \<and>
    (\<forall>k. seen' k \<noteq> Some True) \<and>
    hits_map d' = (hits_map d)(n \<mapsto> (case hits_map d n of None \<Rightarrow> 1 | Some h \<Rightarrow> h + 1))"
proof -
  let ?d = "sql_increment_hits n (sql_insert_or_ignore_stat n d)"
  let ?seen = "case seen n of None \<Rightarrow> seen(n \<mapsto> False) | Some b \<Rightarrow> seen"
  have seen: "\<forall>k. ?seen k \<noteq> Some True" using assms(3) by (auto split: option.splits)
  then have "log_domain_hit n seen d = (?seen, ?d)"
    using assms(2) by (simp add: log_domain_hit_def take_fault_none hit_rows_def Let_def)
  moreover have "hits_map ?d = (hits_map d)(n \<mapsto> (case hits_map d n of None \<Rightarrow> 1 | Some h \<Rightarrow> h + 1))"
  proof -
    have inc: "map_of (map (\<lambda>(m, h). (m, if m = n then h + 1 else h)) rs) =
        (\<lambda>k. map_option (\<lambda>h. if k = n then h + 1 else h) (map_of rs k))" for rs :: "(string \<times> int) list"
      by (induction rs) (auto simp: fun_eq_iff)
    have "n \<in> fst ` set (db_stats d) \<longleftrightarrow> hits_map d n \<noteq> None"
      by (auto simp: hits_map_def map_of_eq_None_iff)
    then show ?thesis
      by (auto simp: hits_map_def sql_increment_hits_def sql_insert_or_ignore_stat_def inc
          map_add_def fun_eq_iff option.map_ident split: option.splits)
  qed
  ultimately show ?thesis
    using seen assms(1)
    by (intro exI [of _ ?seen] exI [of _ ?d]) (simp add: wf_increment_hits wf_insert_or_ignore_stat)
qed

lemma log_hit_run:
  assumes "db_wf d" and "db_faults d = []" and "\<forall>n. seen n \<noteq> Some True"
  shows "hits_map (snd (log_domain_hit n seen d)) =
    (hits_map d)(n \<mapsto> (case hits_map d n of None \<Rightarrow> 1 | Some h \<Rightarrow> h + 1))"
  using log_hit_ok [OF assms, of n] by auto

text \<open>Logging a hit of a domain adds one to its counter, starting at one for a new domain,
  and leaves all other counters alone; the cache \<open>domains_seen_\<close> never skips the insert.\<close>

theorem log_domain_hit_spec:
  assumes "db_wf d" and "db_faults d = []" and "\<forall>n. seen n \<noteq> Some True"
  shows "\<exists>seen' d'. log_domain_hit n seen d = (seen', d') \<and> db_wf d' \<and>
    (\<forall>k. seen' k \<noteq> Some True) \<and>
    hits_map d' = (hits_map d)(n \<mapsto> (case hits_map d n of None \<Rightarrow> 1 | Some h \<Rightarrow> h + 1))"
  using assms by (rule log_hit_ok)


section \<open>Every reachable database\<close>

text \<open>
  The database as the whole program uses it: it is opened (\<open>DB::init\<close>), and the service, the
  updater, the HTTP responder and the command line call the managers in any order.  The clock
  and the faults are the environment's.
\<close>

inductive db_step :: "resolver \<Rightarrow> db \<Rightarrow> db \<Rightarrow> bool" for R :: resolver where
  step_env: "db_step R d (d\<lparr>db_now := t, db_faults := fs\<rparr>)"
| step_init: "db_step R d (snd (db_init d))"
| step_get_setting: "db_step R d (snd (sm_get k v d))"
| step_set_setting: "db_step R d (snd (sm_set k v d))"
| step_remove_setting: "db_step R d (snd (sm_remove k d))"
| step_get: "db_step R d (snd (dm_get i d))"
| step_get_by_name: "db_step R d (snd (dm_get_by_name n d))"
| step_get_blocked: "db_step R d (snd (dm_get_blocked d))"
| step_get_whitelisted: "db_step R d (snd (dm_get_whitelisted d))"
| step_count_blocked: "db_step R d (snd (dm_count_blocked d))"
| step_block: "db_step R d (snd (dm_block_domains R ns i d))"
| step_unblock: "db_step R d (snd (dm_unblock_domains R ns d))"
| step_get_lists: "db_step R d (snd (dlm_get_all d))"
| step_get_list: "db_step R d (snd (dlm_get_by_name n w d))"
| step_create: "db_step R d (snd (dlm_create n u de c d))"
| step_import: "db_step R d (snd (dlm_import l c d))"
| step_remove: "db_step R d (snd (dlm_remove n d))"
| step_set_enabled: "db_step R d (snd (dlm_set_enabled n e d))"
| step_count: "db_step R d (snd (dlm_count d))"
| step_hit: "db_step R d (snd (log_domain_hit n seen d))"

inductive db_reachable :: "resolver \<Rightarrow> db \<Rightarrow> bool" for R :: resolver where
  reach_new: "db_reachable R (empty_db t)"
| reach_step: "db_reachable R d \<Longrightarrow> db_step R d d' \<Longrightarrow> db_reachable R d'"

lemma wf_clock [simp]: "db_wf (d\<lparr>db_now := t\<rparr>) = db_wf d"
  by (simp add: db_wf_def list_ids_def)

lemma db_step_wf: "db_step R d d' \<Longrightarrow> db_wf d \<Longrightarrow> db_wf d'"
  by (induction rule: db_step.induct) (simp_all add: wf_intros)

lemma reachable_wf: "db_reachable R d \<Longrightarrow> db_wf d"
proof (induction rule: db_reachable.induct)
  case (reach_new t)
  show ?case by (rule wf_empty_db)
next
  case (reach_step d d')
  then show ?case by (blast intro: db_step_wf)
qed

text \<open>Starting from a new database file, every sequence of operations of the managers and the
  logger, whatever sessions fail on the way, leaves a database that satisfies the schema: names
  and ids are unique and every domain belongs to an existing list.\<close>

theorem reachable_db_wf:
  assumes "db_reachable R d"
  shows "db_wf d"
  using assms by (rule reachable_wf)

end
