(* ===== verification/Dbl_Config.thy ===== *)
theory Dbl_Config
  imports Dbl_Prelude
begin

text \<open>
  The configuration object (\<open>src/dbl/config/config.hxx\<close>) with the defaults of its initialisers,
  and the constructor of the platform's variant (\<open>config/unix.cxx\<close>), which \<open>main\<close> uses.
\<close>

record config =
  is_debug :: bool
  is_fatal :: bool
  is_foreground :: bool
  is_test :: bool
  is_verbose :: bool
  no_chdir :: bool
  no_close_fds :: bool
  platform :: string
  base_dir :: string
  db_dir :: string
  log_file :: string
  templates_dir :: string
  script_dir :: string
  logger_config_path :: string
  service_port :: int
  http_responder_enable :: bool
  http_responder_port :: int
  http_responder_status_code :: int
  http_responder_status_text :: string
  network_ip4address :: string
  network_ip6address :: string
  network_interface :: string
  network_no_ip4 :: bool
  network_no_ip6 :: bool
  no_system_dns_proxy :: bool
  no_update :: bool
  update_interval :: int
  dns_proxy :: string
  dns_proxy_chroot :: string
  dns_proxy_config :: string
  dns_proxy_config_dest_dir :: string
  dns_proxy_disable_dnssec :: bool
  dns_proxy_executable :: string
  dns_proxy_include_dir :: string
  dns_proxy_generate_config :: bool
  dns_proxy_logfile :: string
  dns_proxy_port :: int
  dns_proxy_pidfile :: string
  dns_proxy_root_key :: string
  dns_proxy_user :: string
  dns_proxy_workdir :: string
  service_db :: string
  service_config :: string
  service_logfile :: string
  service_pidfile :: string
  service_user :: string
  disable_list_update :: bool
  list_ids :: "string list"

definition default_config :: config where
  "default_config = \<lparr>
     is_debug = False, is_fatal = False, is_foreground = False, is_test = False,
     is_verbose = False, no_chdir = False, no_close_fds = False,
     platform = [], base_dir = [], db_dir = [], log_file = [], templates_dir = [], script_dir = [],
     logger_config_path = ''log.conf'', service_port = 7654,
     http_responder_enable = True, http_responder_port = 80, http_responder_status_code = 404,
     http_responder_status_text = ''Not found'',
     network_ip4address = ''127.0.0.1'', network_ip6address = ''::1'', network_interface = [],
     network_no_ip4 = False, network_no_ip6 = False,
     no_system_dns_proxy = False, no_update = False, update_interval = 3600,
     dns_proxy = ''unbound'', dns_proxy_chroot = [], dns_proxy_config = [],
     dns_proxy_config_dest_dir = [], dns_proxy_disable_dnssec = False,
     dns_proxy_executable = ''unbound'', dns_proxy_include_dir = [],
     dns_proxy_generate_config = False, dns_proxy_logfile = ''dbsblocker-proxy.log'',
     dns_proxy_port = 53, dns_proxy_pidfile = ''dbsblocker-proxy.pid'',
     dns_proxy_root_key = ''root.key'', dns_proxy_user = ''unbound'', dns_proxy_workdir = [],
     service_db = ''dbsblocker.db'', service_config = ''dnsblocker.conf'',
     service_logfile = ''dbsblocker.log'', service_pidfile = ''dbsblocker.pid'',
     service_user = ''dnsblocker'', disable_list_update = False, list_ids = [''CUSTOM'']\<rparr>"

definition unix_config :: config where
  "unix_config =
     (let c = default_config\<lparr>platform := ''unix'', base_dir := ''/etc/dnsblocker'',
            db_dir := ''/var/lib/dnsblocker'', log_file := ''/var/log/dnsblocker/dnsblocker.log''\<rparr>;
          c = c\<lparr>templates_dir := base_dir c @ ''/templates'', script_dir := base_dir c @ ''/scripts/unix'',
            logger_config_path := base_dir c @ ''/log.conf'', network_interface := ''lo'',
            dns_proxy := ''unbound'', dns_proxy_config_dest_dir := ''/var/run/dnsblocker'',
            dns_proxy_executable := ''unbound''\<rparr>;
          c = c\<lparr>dns_proxy_include_dir := ''/etc/'' @ dns_proxy c @ ''/'' @ dns_proxy c @ ''.conf.d'',
            dns_proxy_logfile := ''/var/log/dnsblocker/proxy.log'',
            dns_proxy_pidfile := ''/var/run/dnsblocker/proxy.pid'',
            dns_proxy_root_key := base_dir c @ ''/dnssec/root.key'',
            dns_proxy_user := ''unbound'', dns_proxy_workdir := base_dir c\<rparr>
      in c\<lparr>service_db := db_dir c @ ''/dbsblocker.db'',
            service_logfile := ''/var/log/dnsblocker/service.log'',
            service_config := base_dir c @ ''/dnsblocker.conf'',
            service_pidfile := ''/var/run/dnsblocker/service.pid''\<rparr>)"

end
