(* ===== verification/Dbl_Options.thy ===== *)
theory Dbl_Options
  imports Dbl_Config "HOL-Library.List_Lexorder" "HOL-Library.Char_ord"
begin

text \<open>
  The program options (\<open>src/dbl/options\<close>, \<open>src/dbl/init\<close>): the option tables with their defaults and
  the members of the configuration they are bound to, storing and notifying, typed access, and
  the validation.  Boost.Program_options parses the command line and the file (\<open>parsed\<close>
  below); what \<open>store\<close> and \<open>notify\<close> do with the result is modelled as documented: a value stored
  first is final, a default fills a gap and may be replaced, and \<open>notify\<close> goes through the
  variables in the order of their names.
\<close>

section \<open>Values and declarations\<close>

datatype opt_value = V_bool bool | V_int int | V_string string | V_strings "string list"

record option_decl =
  od_name :: string
  od_default :: "opt_value option"
  od_bind :: "opt_value \<Rightarrow> config \<Rightarrow> config"

fun bind_bool :: "((bool \<Rightarrow> bool) \<Rightarrow> config \<Rightarrow> config) \<Rightarrow> opt_value \<Rightarrow> config \<Rightarrow> config" where
  "bind_bool upd (V_bool b) c = upd (\<lambda>_. b) c"
| "bind_bool upd v c = c"

fun bind_int :: "((int \<Rightarrow> int) \<Rightarrow> config \<Rightarrow> config) \<Rightarrow> opt_value \<Rightarrow> config \<Rightarrow> config" where
  "bind_int upd (V_int i) c = upd (\<lambda>_. i) c"
| "bind_int upd v c = c"

fun bind_string :: "((string \<Rightarrow> string) \<Rightarrow> config \<Rightarrow> config) \<Rightarrow> opt_value \<Rightarrow> config \<Rightarrow> config" where
  "bind_string upd (V_string s) c = upd (\<lambda>_. s) c"
| "bind_string upd v c = c"

fun bind_strings :: "((string list \<Rightarrow> string list) \<Rightarrow> config \<Rightarrow> config) \<Rightarrow> opt_value \<Rightarrow> config \<Rightarrow> config" where
  "bind_strings upd (V_strings s) c = upd (\<lambda>_. s) c"
| "bind_strings upd v c = c"

definition flag :: "string \<Rightarrow> bool \<Rightarrow> ((bool \<Rightarrow> bool) \<Rightarrow> config \<Rightarrow> config) \<Rightarrow> option_decl" where
  "flag n d upd = \<lparr>od_name = n, od_default = Some (V_bool d), od_bind = bind_bool upd\<rparr>"

definition text_option :: "string \<Rightarrow> string \<Rightarrow> ((string \<Rightarrow> string) \<Rightarrow> config \<Rightarrow> config) \<Rightarrow> option_decl" where
  "text_option n d upd = \<lparr>od_name = n, od_default = Some (V_string d), od_bind = bind_string upd\<rparr>"

definition number :: "string \<Rightarrow> int \<Rightarrow> ((int \<Rightarrow> int) \<Rightarrow> config \<Rightarrow> config) \<Rightarrow> option_decl" where
  "number n d upd = \<lparr>od_name = n, od_default = Some (V_int d), od_bind = bind_int upd\<rparr>"

text \<open>An option that is only read through \<open>Options::get\<close>.\<close>

definition unbound_option :: "string \<Rightarrow> opt_value option \<Rightarrow> option_decl" where
  "unbound_option n d = \<lparr>od_name = n, od_default = d, od_bind = (\<lambda>v c. c)\<rparr>"

section \<open>The tables\<close>

definition flags_options :: "option_decl list" where
  "flags_options =
     [unbound_option ''help'' None,
      flag ''debug'' False is_debug_update,
      flag ''fatal'' False is_fatal_update,
      flag ''foreground'' False is_foreground_update,
      flag ''verbose'' False is_verbose_update,
      flag ''test'' False is_test_update]"

definition service_options :: "string \<Rightarrow> config \<Rightarrow> option_decl list" where
  "service_options current_platform c =
     [text_option ''basedir'' (base_dir c) base_dir_update,
      text_option ''config'' (service_config c) service_config_update,
      unbound_option ''no-config'' (Some (V_bool False)),
      text_option ''db'' (service_db c) service_db_update,
      text_option ''logfile'' (service_logfile c) service_logfile_update,
      text_option ''logger-config-path'' (logger_config_path c) logger_config_path_update,
      flag ''no-chdir'' False no_chdir_update,
      flag ''no-close-fds'' False no_chdir_update,
      text_option ''pidfile'' (service_pidfile c) service_pidfile_update,
      text_option ''platform'' current_platform platform_update,
      number ''service-port'' (service_port c) service_port_update,
      text_option ''script-dir'' (script_dir c) script_dir_update,
      text_option ''service-user'' (service_user c) service_user_update,
      text_option ''templates-dir'' (templates_dir c) templates_dir_update,
      flag ''no-system-dns-proxy'' False no_system_dns_proxy_update,
      flag ''no-update'' False no_update_update,
      number ''update-interval'' (update_interval c) update_interval_update]"

definition lists_options :: "config \<Rightarrow> option_decl list" where
  "lists_options c =
     [flag ''disable-list-update'' (disable_list_update c) disable_list_update_update,
      \<lparr>od_name = ''list-ids'', od_default = None, od_bind = bind_strings list_ids_update\<rparr>]"

definition dnsproxy_options :: "config \<Rightarrow> option_decl list" where
  "dnsproxy_options c =
     [text_option ''dns-proxy'' (dns_proxy c) dns_proxy_update,
      text_option ''dns-proxy-include-dir'' (dns_proxy_include_dir c) dns_proxy_include_dir_update]"

definition dnsproxy_custom_options :: "config \<Rightarrow> option_decl list" where
  "dnsproxy_custom_options c =
     [text_option ''dns-proxy-chroot'' (dns_proxy_chroot c) dns_proxy_chroot_update,
      text_option ''dns-proxy-config'' [] dns_proxy_config_update,
      text_option ''dns-proxy-config-destdir'' (dns_proxy_config_dest_dir c) dns_proxy_config_dest_dir_update,
      flag ''dns-proxy-disable-dnssec'' (dns_proxy_disable_dnssec c) dns_proxy_disable_dnssec_update,
      flag ''dns-proxy-generate-config'' (dns_proxy_generate_config c) dns_proxy_generate_config_update,
      text_option ''dns-proxy-logfile'' (dns_proxy_logfile c) dns_proxy_logfile_update,
      text_option ''dns-proxy-pidfile'' (dns_proxy_pidfile c) dns_proxy_pidfile_update,
      number ''dns-proxy-port'' (dns_proxy_port c) dns_proxy_port_update,
      text_option ''dns-proxy-root-key'' (dns_proxy_root_key c) dns_proxy_root_key_update,
      text_option ''dns-proxy-user'' (dns_proxy_user c) dns_proxy_user_update,
      text_option ''dns-proxy-workdir'' (dns_proxy_workdir c) dns_proxy_workdir_update]"

definition network_options :: "config \<Rightarrow> option_decl list" where
  "network_options c =
     [text_option ''network-interface'' (network_interface c) network_interface_update,
      text_option ''network-ip4address'' (network_ip4address c) network_ip4address_update,
      text_option ''network-ip6address'' (network_ip6address c) network_ip6address_update,
      flag ''network-no-ip4'' (network_no_ip4 c) network_no_ip4_update,
      flag ''network-no-ip6'' (network_no_ip6 c) network_no_ip6_update]"

definition http_responder_options :: "config \<Rightarrow> option_decl list" where
  "http_responder_options c =
     [flag ''http-responder-enable'' False http_responder_enable_update,
      number ''http-responder-port'' (http_responder_port c) http_responder_port_update,
      number ''http-responder-status-code'' (http_responder_status_code c) http_responder_status_code_update,
      text_option ''http-responder-status-text'' (http_responder_status_text c) http_responder_status_text_update]"

definition query_options :: "option_decl list" where
  "query_options =
     [unbound_option ''query'' (Some (V_bool False)),
      unbound_option ''domain-lists'' (Some (V_bool False)),
      unbound_option ''domains'' (Some (V_bool False)),
      unbound_option ''domain'' (Some (V_string []))]"

definition management_options :: "option_decl list" where
  "management_options =
     [unbound_option ''block'' None,
      unbound_option ''unblock'' None,
      unbound_option ''add-list'' (Some (V_bool False)),
      unbound_option ''list-name'' (Some (V_string [])),
      unbound_option ''list-url'' (Some (V_string [])),
      unbound_option ''list-description'' (Some (V_string [])),
      unbound_option ''delete-list'' (Some (V_string [])),
      unbound_option ''enable-list'' (Some (V_string [])),
      unbound_option ''disable-list'' (Some (V_string [])),
      unbound_option ''export-lists'' (Some (V_string []))]"

definition all_options :: "string \<Rightarrow> config \<Rightarrow> option_decl list" where
  "all_options current_platform c =
     flags_options @ service_options current_platform c @ network_options c @ dnsproxy_options c @
     dnsproxy_custom_options c @ http_responder_options c @ lists_options c @ management_options @
     query_options"

section \<open>Storing and notifying\<close>

text \<open>The variables, sorted by name; the flag says that the value is a default.\<close>

type_synonym variables_map = "(string \<times> opt_value \<times> bool) list"

definition vm_put :: "string \<times> opt_value \<Rightarrow> variables_map \<Rightarrow> variables_map" where
  "vm_put nv vm =
     (case map_of vm (fst nv) of
        Some (w, False) \<Rightarrow> vm
      | _ \<Rightarrow> assoc_set (fst nv) (snd nv, False) vm)"

definition vm_default :: "option_decl \<Rightarrow> variables_map \<Rightarrow> variables_map" where
  "vm_default od vm =
     (case (map_of vm (od_name od), od_default od) of
        (None, Some v) \<Rightarrow> assoc_set (od_name od) (v, True) vm
      | _ \<Rightarrow> vm)"

definition vm_store :: "option_decl list \<Rightarrow> (string \<times> opt_value) list \<Rightarrow> variables_map \<Rightarrow> variables_map" where
  "vm_store decls parsed vm =
     fold vm_default decls
       (fold vm_put (filter (\<lambda>nv. fst nv \<in> set (map od_name decls)) parsed) vm)"

definition decl_bind :: "option_decl list \<Rightarrow> string \<Rightarrow> opt_value \<Rightarrow> config \<Rightarrow> config" where
  "decl_bind decls n v c = (case find (\<lambda>od. od_name od = n) decls of None \<Rightarrow> c | Some od \<Rightarrow> od_bind od v c)"

definition vm_notify :: "option_decl list \<Rightarrow> variables_map \<Rightarrow> config \<Rightarrow> config" where
  "vm_notify decls vm c = fold (\<lambda>(n, v, d) c. decl_bind decls n v c) vm c"

section \<open>Options\<close>

text \<open>\<open>Options::get<T>\<close>: an absent variable gives \<open>T()\<close>, one of another type throws.\<close>

definition bad_any_cast :: exn where "bad_any_cast = OtherException ''boost::bad_any_cast''"

definition get_bool :: "variables_map \<Rightarrow> string \<Rightarrow> exn + bool" where
  "get_bool vm k = (case map_of vm k of
     None \<Rightarrow> Inr False | Some (V_bool b, d) \<Rightarrow> Inr b | Some (v, d) \<Rightarrow> Inl bad_any_cast)"

definition get_string :: "variables_map \<Rightarrow> string \<Rightarrow> exn + string" where
  "get_string vm k = (case map_of vm k of
     None \<Rightarrow> Inr [] | Some (V_string s, d) \<Rightarrow> Inr s | Some (v, d) \<Rightarrow> Inl bad_any_cast)"

definition get_strings :: "variables_map \<Rightarrow> string \<Rightarrow> exn + string list" where
  "get_strings vm k = (case map_of vm k of
     None \<Rightarrow> Inr [] | Some (V_strings s, d) \<Rightarrow> Inr s | Some (v, d) \<Rightarrow> Inl bad_any_cast)"

definition has_help :: "variables_map \<Rightarrow> bool" where
  "has_help vm = (map_of vm ''help'' \<noteq> None)"

text \<open>
  The surroundings of \<open>parse\<close>: what \<open>uname\<close> gives, what the parsers give for the command line and
  for the file of a path (\<open>None\<close> when it does not exist, an exception when it cannot be read or
  parsed).
\<close>

record parse_env =
  pe_sysname :: "string option"
  pe_command_line :: "exn + (string \<times> opt_value) list"
  pe_config_file :: "string \<Rightarrow> (exn + (string \<times> opt_value) list) option"

text \<open>Every exception of the try block is thrown again as a runtime error.\<close>

definition rethrow :: "exn + 'a \<Rightarrow> exn + 'a" where
  "rethrow r = (case r of Inl e \<Rightarrow> Inl (RuntimeError (what e)) | Inr x \<Rightarrow> Inr x)"

definition options_parse :: "parse_env \<Rightarrow> config \<Rightarrow> exn + variables_map \<times> config" where
  "options_parse P c0 =
     (case pe_sysname P of
        None \<Rightarrow> Inl (RuntimeError ''uname() failed'')
      | Some sysname \<Rightarrow>
          (let decls = all_options (to_lower sysname) c0 in
           rethrow (bindE (pe_command_line P) (\<lambda>parsed.
             let vm = vm_store decls parsed []; c = vm_notify decls vm c0
             in if has_help vm \<or> get_bool vm ''no-config'' = Inr True then Inr (vm, c)
                else (case pe_config_file P (service_config c) of
                   None \<Rightarrow> Inl (RuntimeError (''Configuration file does not exist: '' @ service_config c))
                 | Some r \<Rightarrow> bindE r (\<lambda>parsed.
                     let vm = vm_store decls parsed vm in Inr (vm, vm_notify decls vm c)))))))"

text \<open>\<open>throw_on_conflict\<close>, which nothing calls.\<close>

definition throw_on_conflict :: "variables_map \<Rightarrow> string \<Rightarrow> string \<Rightarrow> exn + unit" where
  "throw_on_conflict vm x y =
     (case (map_of vm x, map_of vm y) of
        (Some (v, False), Some (w, False)) \<Rightarrow>
          Inl (OtherException (''Conflicting options '' @ [CHR 0x27] @ x @ [CHR 0x27] @ '' and '' @
            [CHR 0x27] @ y @ [CHR 0x27] @ ''.''))
      | _ \<Rightarrow> Inr ())"

text \<open>\<open>init::validate_options\<close>.\<close>

definition validate_options :: "variables_map \<Rightarrow> exn + unit" where
  "validate_options vm =
     bindE (get_string vm ''dns-proxy'') (\<lambda>proxy.
       if to_lower proxy \<noteq> ''unbound'' \<and> to_lower proxy \<noteq> ''dnsmasq''
       then Inl (RuntimeError ''Invalid dnsproxy software'') else Inr ())"

text \<open>
  \<open>setup_logging\<close>: the settings that replace those of the logger's configuration file, as level,
  type and value in the order they are made, and the path of that file.
\<close>

definition setup_logging :: "variables_map \<Rightarrow> exn + string \<times> (string \<times> string \<times> string) list" where
  "setup_logging vm =
     bindE (get_bool vm ''foreground'') (\<lambda>is_foreground.
     bindE (get_bool vm ''debug'') (\<lambda>is_debug.
     bindE (get_string vm ''logfile'') (\<lambda>logfile.
     bindE (get_string vm ''logger-config-path'') (\<lambda>path.
       Inr (path,
         (if logfile \<noteq> [] then [(''Global'', ''Filename'', logfile)] else []) @
         [(''Global'', ''ToStandardOutput'', if is_foreground then ''true'' else ''false''),
          (''Debug'', ''Enabled'', if is_debug then ''true'' else ''false'')])))))"

text \<open>\<open>dump_variables_map\<close>: one line for each variable, the name padded to 48 columns.\<close>

fun dump_value :: "opt_value \<Rightarrow> string" where
  "dump_value (V_int i) = show_int i"
| "dump_value (V_string s) = s"
| "dump_value (V_bool b) = (if b then ''1'' else ''0'')"
| "dump_value (V_strings ss) = []"

definition dump_variables_map :: "variables_map \<Rightarrow> string" where
  "dump_variables_map vm =
     concat (map (\<lambda>(n, v, d). '': '' @ n @ replicate (48 - length n) (CHR '' '') @ dump_value v @ LF)
               vm)"

section \<open>Lemmas on the variables\<close>

lemma map_of_vm_put:
  "map_of (vm_put (n, v) vm) k =
     (if k = n then (case map_of vm n of Some (w, False) \<Rightarrow> Some (w, False) | _ \<Rightarrow> Some (v, False))
      else map_of vm k)"
  by (auto simp: vm_put_def split: option.splits bool.splits prod.splits)

lemma map_of_vm_default:
  "map_of (vm_default od vm) k =
     (if k = od_name od \<and> map_of vm k = None then map_option (\<lambda>v. (v, True)) (od_default od)
      else map_of vm k)"
  by (auto simp: vm_default_def split: option.splits)

lemma vm_default_keeps:
  "map_of vm k = Some x \<Longrightarrow> map_of (fold vm_default decls vm) k = Some x"
  by (induction decls arbitrary: vm) (auto simp: map_of_vm_default)

lemma vm_put_keeps:
  "map_of vm k = Some (v, False) \<Longrightarrow> map_of (fold vm_put parsed vm) k = Some (v, False)"
proof (induction parsed arbitrary: vm)
  case (Cons nv parsed)
  from Cons.prems have "map_of (vm_put nv vm) k = Some (v, False)"
    by (cases nv) (auto simp: map_of_vm_put)
  then show ?case by (simp add: Cons.IH)
qed simp

lemma vm_store_keeps:
  "map_of vm k = Some (v, False) \<Longrightarrow> map_of (vm_store decls parsed vm) k = Some (v, False)"
  unfolding vm_store_def by (intro vm_default_keeps vm_put_keeps)

lemma vm_put_stores:
  assumes "(k, v) \<in> set parsed" and "distinct (map fst parsed)" and "\<nexists>w. map_of vm k = Some (w, False)"
  shows "map_of (fold vm_put parsed vm) k = Some (v, False)"
  using assms
proof (induction parsed arbitrary: vm)
  case (Cons nv parsed)
  obtain n w where nv: "nv = (n, w)" by (cases nv)
  show ?case
  proof (cases "n = k")
    case True
    with Cons.prems nv have "w = v" by (auto simp: image_iff split: prod.splits)
    with True Cons.prems(3) nv have "map_of (vm_put nv vm) k = Some (v, False)"
      by (auto simp: map_of_vm_put split: option.splits bool.splits)
    then show ?thesis by (simp add: vm_put_keeps)
  next
    case False
    with Cons nv show ?thesis by (auto simp: map_of_vm_put)
  qed
qed simp

lemma vm_store_stores:
  assumes "(k, v) \<in> set parsed" and "distinct (map fst parsed)" and "k \<in> set (map od_name decls)"
    and "\<nexists>w. map_of vm k = Some (w, False)"
  shows "map_of (vm_store decls parsed vm) k = Some (v, False)"
  unfolding vm_store_def
  by (intro vm_default_keeps vm_put_stores) (use assms in \<open>auto simp: distinct_map_filter\<close>)

lemma command_line_stored:
  assumes "options_parse P c0 = Inr (vm, c)" and "pe_command_line P = Inr parsed"
    and "pe_sysname P = Some sysname" and "(k, v) \<in> set parsed" and "distinct (map fst parsed)"
    and "k \<in> set (map od_name (all_options (to_lower sysname) c0))"
  shows "map_of vm k = Some (v, False)"
proof -
  let ?decls = "all_options (to_lower sysname) c0"
  have "map_of (vm_store ?decls parsed []) k = Some (v, False)"
    by (rule vm_store_stores [OF assms(4-6)]) simp
  moreover from this have "map_of (vm_store ?decls p (vm_store ?decls parsed [])) k = Some (v, False)" for p
    by (rule vm_store_keeps)
  ultimately show ?thesis
    using assms(1-3)
    by (auto simp: options_parse_def rethrow_def Let_def run_iff
        split: sum.splits option.splits if_splits)
qed

text \<open>The command line wins over the configuration file: a value given on the command line is
  what the program reads after the file was stored, whatever the file says.\<close>

theorem command_line_wins:
  assumes "options_parse P c0 = Inr (vm, c)" and "pe_command_line P = Inr parsed"
    and "pe_sysname P = Some sysname" and "(k, v) \<in> set parsed" and "distinct (map fst parsed)"
    and "k \<in> set (map od_name (all_options (to_lower sysname) c0))"
  shows "map_of vm k = Some (v, False)"
  using assms by (rule command_line_stored)

section \<open>The two flags that share a member\<close>

lemma vm_store_sorted:
  assumes "assoc_sorted vm"
  shows "assoc_sorted (vm_store decls parsed vm)"
proof -
  have "assoc_sorted (vm_put nv vm)" if "assoc_sorted vm" for nv vm
    using that by (auto simp: vm_put_def assoc_sorted_set split: option.splits bool.splits prod.splits)
  then have "assoc_sorted (fold vm_put ps vm)" for ps
    by (rule fold_invariant_set [where P = assoc_sorted, OF assms])
  moreover have "assoc_sorted (vm_default od vm)" if "assoc_sorted vm" for od vm
    using that by (auto simp: vm_default_def assoc_sorted_set split: option.splits)
  then have "assoc_sorted (fold vm_default ds vm)" if "assoc_sorted vm" for ds vm
    using that by (rule_tac fold_invariant_set [where P = assoc_sorted])
  ultimately show ?thesis
    unfolding vm_store_def by blast
qed

lemma bind_keeps:
  "(\<And>f c. g (upd f c) = g c) \<Longrightarrow> g (bind_bool upd v c) = g c"
  "(\<And>f c. g (upd' f c) = g c) \<Longrightarrow> g (bind_int upd' v c) = g c"
  "(\<And>f c. g (upd'' f c) = g c) \<Longrightarrow> g (bind_string upd'' v c) = g c"
  "(\<And>f c. g (upd3 f c) = g c) \<Longrightarrow> g (bind_strings upd3 v c) = g c"
  by (cases v; simp)+

lemmas option_tables = all_options_def flags_options_def service_options_def network_options_def
  dnsproxy_options_def dnsproxy_custom_options_def http_responder_options_def lists_options_def
  management_options_def query_options_def

lemmas option_forms = flag_def text_option_def number_def unbound_option_def

lemma no_close_fds_unbound:
  "od \<in> set (all_options sys c0) \<Longrightarrow> no_close_fds (od_bind od v c) = no_close_fds c"
  by (auto simp: option_tables option_forms bind_keeps)

lemma no_chdir_bound:
  "od \<in> set (all_options sys c0) \<Longrightarrow> od_name od \<notin> {''no-chdir'', ''no-close-fds''} \<Longrightarrow>
   no_chdir (od_bind od v c) = no_chdir c"
  by (auto simp: option_tables option_forms bind_keeps)

lemma decl_bind_keeps:
  assumes "\<And>od. od \<in> set decls \<Longrightarrow> od_name od = n \<Longrightarrow> g (od_bind od v c) = g c"
  shows "g (decl_bind decls n v c) = g c"
proof (cases "find (\<lambda>od. od_name od = n) decls")
  case (Some od)
  then have "od \<in> set decls" "od_name od = n" by (auto simp: find_Some_iff)
  with Some assms show ?thesis by (simp add: decl_bind_def)
qed (simp add: decl_bind_def)

lemma vm_notify_keeps:
  assumes "\<And>n v d c. (n, v, d) \<in> set vm \<Longrightarrow> g (decl_bind decls n v c) = g c"
  shows "g (vm_notify decls vm c) = g c"
proof -
  have "g (fold (\<lambda>(n, v, d) c. decl_bind decls n v c) vm c) = g c"
  proof (rule fold_invariant_set [where P = "\<lambda>x. g x = g c"])
    fix y x assume "y \<in> set vm" and "g x = g c"
    with assms show "g ((\<lambda>(n, v, d) c. decl_bind decls n v c) y x) = g c"
      by (cases y) simp
  qed simp
  then show ?thesis by (simp add: vm_notify_def)
qed

lemma close_fds_found:
  "find (\<lambda>od. od_name od = ''no-close-fds'') (all_options sys c0) =
     Some (flag ''no-close-fds'' False no_chdir_update)"
  by (simp add: option_tables option_forms)

lemma notify_no_chdir:
  assumes "assoc_sorted vm" and "map_of vm ''no-close-fds'' = Some (V_bool b, d)"
  shows "no_chdir (vm_notify (all_options sys c0) vm c) = b"
proof -
  let ?decls = "all_options sys c0" and ?k = "''no-close-fds''"
  obtain pre post where vm: "vm = pre @ (?k, V_bool b, d) # post"
    using map_of_SomeD [OF assms(2)] by (auto dest: split_list)
  have later: "n \<notin> {''no-chdir'', ''no-close-fds''}" if "(n, x) \<in> set post" for n x
  proof -
    have "?k < n" using assms(1) that by (force simp: vm assoc_sorted_def sorted_wrt_append)
    moreover have "''no-chdir'' < ?k" by code_simp
    ultimately show ?thesis by auto
  qed
  have "no_chdir (vm_notify ?decls post c') = no_chdir c'" for c'
    by (rule vm_notify_keeps, rule decl_bind_keeps) (use later no_chdir_bound in blast)
  moreover have "no_chdir (decl_bind ?decls ?k (V_bool b) c') = b" for c'
    unfolding decl_bind_def close_fds_found by (simp add: flag_def)
  ultimately show ?thesis by (simp add: vm vm_notify_def)
qed

lemma options_parse_shape:
  assumes "options_parse P c0 = Inr (vm, c)"
  obtains sys c1 where "c = vm_notify (all_options sys c0) vm c1" "assoc_sorted vm"
    "no_close_fds c1 = no_close_fds c0"
proof -
  have keep: "no_close_fds (vm_notify (all_options sys c0) w x) = no_close_fds x" for sys w x
    by (rule vm_notify_keeps, rule decl_bind_keeps) (rule no_close_fds_unbound)
  have sorted: "assoc_sorted (vm_store ds p [])" "assoc_sorted (vm_store ds q (vm_store ds p []))" for ds p q
    by (intro vm_store_sorted; simp add: assoc_sorted_def)+
  from assms that keep sorted show ?thesis
    by (auto simp: options_parse_def rethrow_def Let_def run_iff split: sum.splits option.splits if_splits)
qed

text \<open>The flag "no-close-fds" sets \<open>no_chdir\<close>, and it alone decides it: after any successful parse
  \<open>no_chdir\<close> is the value of "no-close-fds", so "no-chdir" has no effect, and
  \<open>no_close_fds\<close> keeps its initial value.\<close>

theorem no_close_fds_sets_no_chdir:
  assumes "options_parse P c0 = Inr (vm, c)" and "map_of vm ''no-close-fds'' = Some (V_bool b, d)"
  shows "no_chdir c = b \<and> no_close_fds c = no_close_fds c0"
proof -
  obtain sys c1 where c: "c = vm_notify (all_options sys c0) vm c1" "assoc_sorted vm"
    "no_close_fds c1 = no_close_fds c0"
    by (rule options_parse_shape [OF assms(1)])
  have "no_close_fds c = no_close_fds c1"
    unfolding c(1) by (rule vm_notify_keeps, rule decl_bind_keeps) (rule no_close_fds_unbound)
  with c notify_no_chdir [OF c(2) assms(2)] show ?thesis by simp
qed

end
