(* ===== verification/Dbl_Cli.thy ===== *)
theory Dbl_Cli
  imports Dbl_Managers Dbl_Options
begin

text \<open>
  The command line tools of the program: \<open>mgmt::Mgmt\<close> (\<open>src/dbl/mgmt\<close>) and \<open>query::Query\<close>
  (\<open>src/dbl/query\<close>).  A run takes the variables of the command line and the database; it gives
  its result, what it wrote to the standard output and error, and the new database.
\<close>

section \<open>Management\<close>

record mgmt =
  mg_add_list :: bool
  mg_delete_list :: string
  mg_export_list :: string
  mg_enable_list :: string
  mg_disable_list :: string
  mg_block_domains :: "string list"
  mg_unblock_domains :: "string list"

definition new_mgmt :: "variables_map \<Rightarrow> exn + mgmt" where
  "new_mgmt vm =
     bindE (get_bool vm ''add-list'') (\<lambda>add.
     bindE (get_string vm ''delete-list'') (\<lambda>delete.
     bindE (get_string vm ''export-list'') (\<lambda>export.
     bindE (get_string vm ''enable-list'') (\<lambda>enable.
     bindE (get_string vm ''disable-list'') (\<lambda>disable.
     bindE (get_strings vm ''block'') (\<lambda>block.
     bindE (get_strings vm ''unblock'') (\<lambda>unblock.
       Inr \<lparr>mg_add_list = add, mg_delete_list = delete, mg_export_list = export,
            mg_enable_list = enable, mg_disable_list = disable, mg_block_domains = block,
            mg_unblock_domains = unblock\<rparr>)))))))"

definition has_work :: "mgmt \<Rightarrow> bool" where
  "has_work m \<longleftrightarrow>
     mg_add_list m \<or> mg_delete_list m \<noteq> [] \<or> mg_export_list m \<noteq> [] \<or> mg_enable_list m \<noteq> [] \<or>
     mg_disable_list m \<noteq> [] \<or> mg_block_domains m \<noteq> [] \<or> mg_unblock_domains m \<noteq> []"

text \<open>What a command wrote: standard output and standard error.\<close>

type_synonym console = "string \<times> string"

text \<open>The loop over the domains to block that looks for conflicts.\<close>

definition conflict_message :: "string \<Rightarrow> string" where
  "conflict_message domain = ''Conflicting domain (will be blocked): '' @ domain"

fun check_conflicts :: "bool \<Rightarrow> string list \<Rightarrow> string list \<Rightarrow> string \<Rightarrow> (exn + unit) \<times> string" where
  "check_conflicts fatal unblock [] cerr = (Inr (), cerr)"
| "check_conflicts fatal unblock (domain # domains) cerr =
     (if domain \<in> set unblock
      then (if fatal then (Inl (RuntimeError (conflict_message domain)), cerr)
            else check_conflicts fatal unblock domains
                   (cerr @ ''WARNING: '' @ conflict_message domain @ LF))
      else check_conflicts fatal unblock domains cerr)"

definition mgmt_manage_domains :: "config \<Rightarrow> resolver \<Rightarrow> mgmt \<Rightarrow> db \<Rightarrow> (bool outcome \<times> console) \<times> db" where
  "mgmt_manage_domains c R m d =
     (let d = (if mg_unblock_domains m \<noteq> [] then snd (dm_unblock_domains R (mg_unblock_domains m) d) else d)
      in if mg_block_domains m = [] then ((Ok True, [], []), d)
         else (case check_conflicts (is_fatal c) (mg_unblock_domains m) (mg_block_domains m) [] of
                 (Inl e, cerr) \<Rightarrow> ((Throw e, [], cerr), d)
               | (Inr u, cerr) \<Rightarrow>
                   (case dm_block_domains R (mg_block_domains m) 0 d of
                      (Ok b, d) \<Rightarrow> ((Ok True, [], cerr), d)
                    | (Throw e, d) \<Rightarrow> ((Throw e, [], cerr), d)
                    | (Crash, d) \<Rightarrow> ((Crash, [], cerr), d))))"

definition mgmt_export_list :: "jsoncpp \<Rightarrow> mgmt \<Rightarrow> db \<Rightarrow> (bool outcome \<times> console) \<times> db" where
  "mgmt_export_list J m d =
     (case dlm_get_by_name (mg_export_list m) True d of
        (Some dl, d) \<Rightarrow> ((Ok True, domain_list_to_json_string J dl @ LF, []), d)
      | (None, d) \<Rightarrow> ((Ok True, [], []), d))"

definition mgmt_add_list :: "variables_map \<Rightarrow> db \<Rightarrow> (bool outcome \<times> console) \<times> db" where
  "mgmt_add_list vm d =
     (case bindE (get_string vm ''list-name'') (\<lambda>name.
           bindE (get_string vm ''list-url'') (\<lambda>url.
           bindE (get_string vm ''list-description'') (\<lambda>description.
             if name = [] then Inl (RuntimeError ''Cannot add list, name missing'')
             else if url = [] then Inl (RuntimeError ''Cannot add list, url missing'')
             else Inr (name, url, description)))) of
        Inl e \<Rightarrow> ((Throw e, [], []), d)
      | Inr (name, url, description) \<Rightarrow>
          (case dlm_create name url description False d of
             (Ok i, d) \<Rightarrow> ((Ok (i > 0), [], []), d)
           | (Throw e, d) \<Rightarrow> ((Throw e, [], []), d)
           | (Crash, d) \<Rightarrow> ((Crash, [], []), d)))"

definition mgmt_delete_list :: "mgmt \<Rightarrow> db \<Rightarrow> (bool outcome \<times> console) \<times> db" where
  "mgmt_delete_list m d = (let (b, d) = dlm_remove (mg_delete_list m) d in ((Ok b, [], []), d))"

definition mgmt_enable_list :: "mgmt \<Rightarrow> db \<Rightarrow> (bool outcome \<times> console) \<times> db" where
  "mgmt_enable_list m d = (let (b, d) = dlm_set_enabled (mg_enable_list m) True d in ((Ok b, [], []), d))"

definition mgmt_disable_list :: "mgmt \<Rightarrow> db \<Rightarrow> (bool outcome \<times> console) \<times> db" where
  "mgmt_disable_list m d = (let (b, d) = dlm_set_enabled (mg_disable_list m) False d in ((Ok b, [], []), d))"

definition manage ::
  "config \<Rightarrow> jsoncpp \<Rightarrow> resolver \<Rightarrow> variables_map \<Rightarrow> mgmt \<Rightarrow> db \<Rightarrow> (bool outcome \<times> console) \<times> db" where
  "manage c J R vm m d =
     (if mg_add_list m then mgmt_add_list vm d
      else if mg_delete_list m \<noteq> [] then mgmt_delete_list m d
      else if mg_enable_list m \<noteq> [] then mgmt_enable_list m d
      else if mg_disable_list m \<noteq> [] then mgmt_disable_list m d
      else if mg_export_list m \<noteq> [] then mgmt_export_list J m d
      else if mg_block_domains m \<noteq> [] \<or> mg_unblock_domains m \<noteq> [] then mgmt_manage_domains c R m d
      else ((Ok False, [], []), d))"

section \<open>Queries\<close>

text \<open>\<open>show_optional\<close> is the stream output of \<open>boost::optional\<close>.\<close>

definition print_domain_lists :: "(string option \<Rightarrow> string) \<Rightarrow> db \<Rightarrow> string \<times> db" where
  "print_domain_lists show_optional d =
     (let (records, d) = dlm_get_all d
      in (concat (map (\<lambda>r. dl_name r @ '' :: '' @ ''Active: '' @ show_int (dl_active r) @
            '', Custom: '' @ show_int (dl_custom r) @ '' :: '' @ show_optional (dl_description r) @ LF)
            records), d))"

definition print_blocked_domains :: "db \<Rightarrow> string \<times> db" where
  "print_blocked_domains d =
     (let (records, d) = dm_get_blocked d in (concat (map (\<lambda>r. d_name r @ LF) records), d))"

definition print_domain_details ::
  "(string option \<Rightarrow> string) \<Rightarrow> string \<Rightarrow> db \<Rightarrow> (bool \<times> string) \<times> db" where
  "print_domain_details show_optional domain d =
     (case dm_get_by_name domain d of
        (Some r, d) \<Rightarrow>
          (if d_name r \<noteq> [] then ((True, d_name r @ '' :'' @ show_optional (d_list_name r) @ LF), d)
           else ((False, []), d))
      | (None, d) \<Rightarrow> ((False, []), d))"

definition query_run ::
  "(string option \<Rightarrow> string) \<Rightarrow> variables_map \<Rightarrow> db \<Rightarrow> (exn + bool \<times> string) \<times> db" where
  "query_run show_optional vm d =
     (case get_bool vm ''domain-lists'' of
        Inl e \<Rightarrow> (Inl e, d)
      | Inr True \<Rightarrow> (let (out, d) = print_domain_lists show_optional d in (Inr (True, out), d))
      | Inr False \<Rightarrow>
          (case get_bool vm ''domains'' of
             Inl e \<Rightarrow> (Inl e, d)
           | Inr True \<Rightarrow> (let (out, d) = print_blocked_domains d in (Inr (True, out), d))
           | Inr False \<Rightarrow>
               (case get_string vm ''domain'' of
                  Inl e \<Rightarrow> (Inl e, d)
                | Inr domain \<Rightarrow>
                    (if length domain \<noteq> 0
                     then (let (r, d) = print_domain_details show_optional domain d in (Inr r, d))
                     else (Inr (True, []), d)))))"

section \<open>Blocking and unblocking from the command line\<close>

lemma check_conflicts_warns:
  "check_conflicts False us bs cerr =
     (Inr (), cerr @ concat (map (\<lambda>k. ''WARNING: '' @ conflict_message k @ LF)
        (filter (\<lambda>k. k \<in> set us) bs)))"
  by (induction bs arbitrary: cerr) auto

lemma check_conflicts_fatal:
  "check_conflicts True us bs cerr =
     (case find (\<lambda>k. k \<in> set us) bs of
        None \<Rightarrow> Inr () | Some k \<Rightarrow> Inl (RuntimeError (conflict_message k)), cerr)"
  by (induction bs) auto

lemma filter_valid_no_name:
  "filter_valid R ns = [] \<Longrightarrow> k \<in> set ns \<and> valid_name R k \<longleftrightarrow> False"
  "filter_valid R ns = [] \<Longrightarrow> k \<in> set ns \<and> valid_name R k \<and> Q \<longleftrightarrow> False"
  by (auto simp: filter_valid_def filter_empty_conv)

text \<open>The first half of \<open>manage_domains\<close>, whether or not a name is valid.\<close>

lemma unblocked_first:
  assumes "db_wf d" and "db_faults d = []" and "whitelist_row d l"
  obtains d' where "snd (dm_unblock_domains R us d) = d'" "db_wf d'" "domains_only d d'"
    "domain_map d' = (\<lambda>k. if k \<in> set us \<and> valid_name R k then Some (lr_id l) else domain_map d k)"
proof (cases "filter_valid R us = []")
  case True
  then show ?thesis
    by (intro that [of d]) (simp_all add: dm_unblock_domains_def filter_valid_no_name assms(1))
next
  case False
  show ?thesis
    by (rule unblock_run [OF assms(1,2) False whitelist_row_id [OF assms(1,3)]]) (use that in simp)
qed

lemma unblocked_if_any:
  assumes "db_wf d" and "db_faults d = []" and "whitelist_row d l"
  obtains d' where "(if us \<noteq> [] then snd (dm_unblock_domains R us d) else d) = d'" "db_wf d'"
    "domains_only d d'"
    "domain_map d' = (\<lambda>k. if k \<in> set us \<and> valid_name R k then Some (lr_id l) else domain_map d k)"
proof (cases "us = []")
  case True
  with assms(1) show ?thesis by (intro that [of d]) simp_all
next
  case False
  show ?thesis by (rule unblocked_first [OF assms, where us = us and R = R]) (use False that in simp)
qed

lemma whitelist_after_unblock:
  assumes "db_wf d" and "whitelist_row d l" and "domains_only d d'"
    and "domain_map d' = (\<lambda>k. if k \<in> set us \<and> valid_name R k then Some (lr_id l) else domain_map d k)"
  shows "on_whitelist d' k \<longleftrightarrow> k \<in> set us \<and> valid_name R k \<or> on_whitelist d k"
proof -
  have "whitelist_ids d' = whitelist_ids d" using assms(3) by (simp add: frame)
  moreover have "lr_id l \<in> whitelist_ids d"
    using assms(2) by (auto simp: whitelist_ids_def whitelist_row_def)
  ultimately show ?thesis by (auto simp: on_whitelist_def assms(4))
qed

lemma manage_domains_run:
  assumes "\<not> is_fatal c"
    and "(if mg_unblock_domains m \<noteq> [] then snd (dm_unblock_domains R (mg_unblock_domains m) d) else d) = d1"
  shows "mgmt_manage_domains c R m d =
    (if mg_block_domains m = [] then ((Ok True, [], []), d1)
     else (let cerr = snd (check_conflicts False (mg_unblock_domains m) (mg_block_domains m) []) in
           case dm_block_domains R (mg_block_domains m) 0 d1 of
             (Ok b, d) \<Rightarrow> ((Ok True, [], cerr), d)
           | (Throw e, d) \<Rightarrow> ((Throw e, [], cerr), d)
           | (Crash, d) \<Rightarrow> ((Crash, [], cerr), d)))"
  unfolding mgmt_manage_domains_def assms(2) by (simp add: Let_def assms(1) check_conflicts_warns)

text \<open>C12: \<open>manage_domains\<close> without "--fatal", on a database with its whitelist: it always reports
  success, the valid names to unblock are on the whitelist afterwards, also those that are to be
  blocked as well (for these it only warns, and says that they will be blocked), the other
  valid names to block that were not whitelisted are in the list CUSTOM, and no other domain
  changes.\<close>

theorem manage_domains_spec:
  assumes "db_wf d" and "db_faults d = []" and "whitelist_row d l" and "\<not> is_fatal c"
  shows "\<exists>i d' cerr. mgmt_manage_domains c R m d = ((Ok True, [], cerr), d') \<and> db_wf d' \<and>
    (filter_valid R (mg_block_domains m) \<noteq> [] \<longrightarrow> list_id_of ''CUSTOM'' d' = Some i) \<and>
    domain_map d' = (\<lambda>k.
      if k \<in> set (mg_unblock_domains m) \<and> valid_name R k then Some (lr_id l)
      else if k \<in> set (mg_block_domains m) \<and> valid_name R k \<and> \<not> on_whitelist d k then Some i
      else domain_map d k) \<and>
    cerr = concat (map (\<lambda>k. ''WARNING: '' @ conflict_message k @ LF)
      (filter (\<lambda>k. k \<in> set (mg_unblock_domains m)) (mg_block_domains m)))"
proof -
  let ?us = "mg_unblock_domains m" and ?bs = "mg_block_domains m"
  obtain d1 where d1: "(if ?us \<noteq> [] then snd (dm_unblock_domains R ?us d) else d) = d1" "db_wf d1"
    "domains_only d d1"
    "domain_map d1 = (\<lambda>k. if k \<in> set ?us \<and> valid_name R k then Some (lr_id l) else domain_map d k)"
    by (rule unblocked_if_any [OF assms(1-3)])
  note run = manage_domains_run [OF assms(4) d1(1)]
  show ?thesis
  proof (cases "filter_valid R ?bs = []")
    case True
    then have "dm_block_domains R ?bs 0 d1 = (Ok False, d1)" by (simp add: dm_block_domains_def)
    then have "mgmt_manage_domains c R m d = ((Ok True, [], snd (check_conflicts False ?us ?bs [])), d1)"
      unfolding run by simp
    moreover have "domain_map d1 = (\<lambda>k.
      if k \<in> set ?us \<and> valid_name R k then Some (lr_id l)
      else if k \<in> set ?bs \<and> valid_name R k \<and> \<not> on_whitelist d k then Some 0
      else domain_map d k)"
      using filter_valid_no_name [OF True] by (auto simp: d1(4) fun_eq_iff)
    ultimately show ?thesis
      using d1(2) True by (intro exI [of _ 0] exI [of _ d1] exI) (simp add: check_conflicts_warns)
  next
    case False
    have "db_faults d1 = []" using d1(3) assms(2) by (simp add: frame)
    obtain i d2 where d2: "dm_block_domains R ?bs 0 d1 = (Ok True, d2)" "db_wf d2"
      "list_id_of ''CUSTOM'' d2 = Some i"
      "domain_map d2 = (\<lambda>k. if k \<in> set ?bs \<and> valid_name R k \<and> \<not> on_whitelist d1 k
         then Some i else domain_map d1 k)"
      by (rule block_custom_run [OF d1(2) \<open>db_faults d1 = []\<close> False])
    have "?bs \<noteq> []" using False by (auto simp: filter_valid_def)
    with d2(1) have "mgmt_manage_domains c R m d =
        ((Ok True, [], snd (check_conflicts False ?us ?bs [])), d2)"
      unfolding run by simp
    moreover have "domain_map d2 = (\<lambda>k.
      if k \<in> set ?us \<and> valid_name R k then Some (lr_id l)
      else if k \<in> set ?bs \<and> valid_name R k \<and> \<not> on_whitelist d k then Some i
      else domain_map d k)"
      using whitelist_after_unblock [OF assms(1,3) d1(3,4)] by (auto simp: d2(4) d1(4) fun_eq_iff)
    ultimately show ?thesis
      using d2(2,3) by (intro exI [of _ i] exI [of _ d2] exI) (simp add: check_conflicts_warns)
  qed
qed

text \<open>With "--fatal" a conflict throws, but only after the names to unblock have been moved to the
  whitelist: the command fails half done.\<close>

theorem fatal_conflict_half_done:
  assumes "db_wf d" and "db_faults d = []" and "whitelist_row d l" and "is_fatal c"
    and "find (\<lambda>k. k \<in> set (mg_unblock_domains m)) (mg_block_domains m) = Some x"
  shows "\<exists>d'. mgmt_manage_domains c R m d = ((Throw (RuntimeError (conflict_message x)), [], []), d') \<and>
    domain_map d' = (\<lambda>k. if k \<in> set (mg_unblock_domains m) \<and> valid_name R k then Some (lr_id l)
                          else domain_map d k)"
proof -
  let ?us = "mg_unblock_domains m" and ?bs = "mg_block_domains m"
  obtain d1 where d1: "(if ?us \<noteq> [] then snd (dm_unblock_domains R ?us d) else d) = d1"
    "domain_map d1 = (\<lambda>k. if k \<in> set ?us \<and> valid_name R k then Some (lr_id l) else domain_map d k)"
    by (rule unblocked_if_any [OF assms(1-3)])
  have "?bs \<noteq> []" using assms(5) by auto
  with d1(2) show ?thesis
    unfolding mgmt_manage_domains_def d1(1) by (simp add: Let_def assms(4,5) check_conflicts_fatal)
qed

section \<open>The export option\<close>

lemma vm_put_none: "map_of vm k = None \<Longrightarrow> k \<notin> fst ` set parsed \<Longrightarrow> map_of (fold vm_put parsed vm) k = None"
proof (induction parsed arbitrary: vm)
  case (Cons nv parsed)
  then have "map_of (vm_put nv vm) k = None" by (cases nv) (auto simp: map_of_vm_put)
  with Cons show ?case by simp
qed simp

lemma vm_default_none:
  "map_of vm k = None \<Longrightarrow> k \<notin> od_name ` set decls \<Longrightarrow> map_of (fold vm_default decls vm) k = None"
proof (induction decls arbitrary: vm)
  case (Cons od decls)
  then have "map_of (vm_default od vm) k = None" by (simp add: map_of_vm_default)
  with Cons show ?case by simp
qed simp

lemma vm_store_undeclared:
  "map_of vm k = None \<Longrightarrow> k \<notin> od_name ` set decls \<Longrightarrow> map_of (vm_store decls parsed vm) k = None"
  unfolding vm_store_def by (intro vm_default_none vm_put_none) auto

lemma parse_undeclared:
  assumes "options_parse P c0 = Inr (vm, c)"
    and "\<And>sys. k \<notin> od_name ` set (all_options sys c0)"
  shows "map_of vm k = None"
proof -
  have "map_of (vm_store (all_options sys c0) p []) k = None"
    "map_of (vm_store (all_options sys c0) q (vm_store (all_options sys c0) p [])) k = None" for sys p q
    using assms(2) by (intro vm_store_undeclared; simp)+
  with assms(1) show ?thesis
    by (auto simp: options_parse_def rethrow_def Let_def run_iff split: sum.splits option.splits if_splits)
qed

lemma export_list_undeclared: "''export-list'' \<notin> od_name ` set (all_options sys c0)"
  by (simp add: option_tables option_forms)

text \<open>The export of a list can never be asked for: the option is declared as "export-lists" and
  read as "export-list", so after every successful parse the name of the list to export is
  empty, and a command line with only this option is no work at all.\<close>

theorem export_never_requested:
  assumes "options_parse P c0 = Inr (vm, c)" and "new_mgmt vm = Inr m"
  shows "mg_export_list m = [] \<and>
    (has_work m \<longleftrightarrow> mg_add_list m \<or> mg_delete_list m \<noteq> [] \<or> mg_enable_list m \<noteq> [] \<or>
      mg_disable_list m \<noteq> [] \<or> mg_block_domains m \<noteq> [] \<or> mg_unblock_domains m \<noteq> [])"
proof -
  have "map_of vm ''export-list'' = None"
    by (rule parse_undeclared [OF assms(1) export_list_undeclared])
  then have "get_string vm ''export-list'' = Inr []" by (simp add: get_string_def)
  with assms(2) have "mg_export_list m = []" by (auto simp: new_mgmt_def run_iff)
  then show ?thesis by (simp add: has_work_def)
qed

section \<open>Asking for the blocked domains\<close>

text \<open>"--query --domains" prints the blocked domains, one to a line, in ascending order and each
  once, and leaves the database as it is.\<close>

theorem query_domains_prints_blocked:
  assumes "db_wf d" and "db_faults d = []"
    and "get_bool vm ''domain-lists'' = Inr False" and "get_bool vm ''domains'' = Inr True"
  shows "\<exists>names. query_run show_optional vm d = (Inr (True, concat (map (\<lambda>n. n @ LF) names)), d) \<and>
    sorted names \<and> distinct names \<and> set names = {n. blocked d n}"
proof -
  obtain ds where ds: "dm_get_blocked d = (ds, d)" "sorted (map d_name ds)" "distinct (map d_name ds)"
    "d_name ` set ds = {n. blocked d n}"
    by (rule get_blocked_run [OF assms(1,2)])
  then show ?thesis
    using assms(3,4)
    by (intro exI [of _ "map d_name ds"])
      (simp add: query_run_def print_blocked_domains_def comp_def)
qed

end
