(* ===== verification/Dbl_Files.thy ===== *)
theory Dbl_Files
  imports Dbl_Prelude "HOL-Library.Sublist"
begin

text \<open>
  Files: \<open>boost::filesystem\<close> paths, the part of the file system the program looks at and changes,
  the search for executables (\<open>src/dbl/util/fs.cxx\<close>) and the template engine
  (\<open>src/dbl/template\<close>).
\<close>

section \<open>Paths and the file system\<close>

text \<open>\<open>path::operator/=\<close>: a separator is added unless one is there.\<close>

definition path_append :: "string \<Rightarrow> string \<Rightarrow> string" where
  "path_append p q =
     (if q = [] then p
      else if p = [] \<or> last p = CHR ''/'' \<or> hd q = CHR ''/'' then p @ q
      else p @ ''/'' @ q)"

text \<open>
  \<open>fs_files\<close> holds the regular files and their content, \<open>fs_dirs\<close> the directories;
  \<open>fs_writable\<close> says whether a stream can be opened for writing, \<open>fs_exec\<close> whether the owner may
  execute the file.
\<close>

record filesystem =
  fs_files :: "string \<Rightarrow> string option"
  fs_dirs :: "string \<Rightarrow> bool"
  fs_writable :: "string \<Rightarrow> bool"
  fs_exec :: "string \<Rightarrow> bool"

definition fs_exists :: "filesystem \<Rightarrow> string \<Rightarrow> bool" where
  "fs_exists F p \<longleftrightarrow> fs_files F p \<noteq> None \<or> fs_dirs F p"

text \<open>An \<open>ofstream\<close> truncates the file when it opens; without permission all output is lost.\<close>

definition write_file :: "string \<Rightarrow> string \<Rightarrow> filesystem \<Rightarrow> filesystem" where
  "write_file p text F =
     (if fs_writable F p then F\<lparr>fs_files := (fs_files F)(p \<mapsto> text)\<rparr> else F)"

definition unlink_file :: "string \<Rightarrow> filesystem \<Rightarrow> filesystem" where
  "unlink_file p F = F\<lparr>fs_files := (fs_files F)(p := None)\<rparr>"

text \<open>Only the files of a set may differ.\<close>

definition files_only :: "string set \<Rightarrow> filesystem \<Rightarrow> filesystem \<Rightarrow> bool" where
  "files_only S F F' \<longleftrightarrow> fs_dirs F' = fs_dirs F \<and> fs_writable F' = fs_writable F \<and> fs_exec F' = fs_exec F \<and>
     (\<forall>x. x \<notin> S \<longrightarrow> fs_files F' x = fs_files F x)"

lemma files_only_trans: "files_only S F G \<Longrightarrow> files_only T G H \<Longrightarrow> files_only (S \<union> T) F H"
  by (simp add: files_only_def)

lemma files_only_ops:
  "files_only S F F" "p \<in> S \<Longrightarrow> files_only S F (write_file p t F)" "p \<in> S \<Longrightarrow> files_only S F (unlink_file p F)"
  by (auto simp: files_only_def write_file_def unlink_file_def)

section \<open>Executables\<close>

definition executable_dirs :: "string list" where
  "executable_dirs =
     [''/bin'', ''/sbin'', ''/usr/bin'', ''/usr/sbin'', ''/usr/local/bin'', ''/usr/local/sbin'']"

definition find_executable :: "filesystem \<Rightarrow> string \<Rightarrow> string" where
  "find_executable F name =
     (case find (\<lambda>p. fs_exists F p \<and> fs_exec F p) (map (\<lambda>d. d @ ''/'' @ name) executable_dirs) of
        Some p \<Rightarrow> p
      | None \<Rightarrow> [])"

section \<open>Templates\<close>

text \<open>\<open>boost::replace_all\<close>: from left to right, what was inserted is not searched again.\<close>

function replace_all :: "string \<Rightarrow> string \<Rightarrow> string \<Rightarrow> string" where
  "replace_all k v s =
     (if k = [] then s
      else case s of
        [] \<Rightarrow> []
      | c # cs \<Rightarrow> if prefix k s then v @ replace_all k v (drop (length k) s)
                  else c # replace_all k v cs)"
  by pat_completeness auto
termination by (relation "measure (\<lambda>(k, v, s). length s)") auto

declare replace_all.simps [simp del]

definition template_load :: "filesystem \<Rightarrow> string \<Rightarrow> string \<Rightarrow> exn + string" where
  "template_load F root name =
     (let path = path_append root name
      in if \<not> fs_exists F path then Inl (RuntimeError (''Template not found: '' @ path))
         else Inr (case fs_files F path of Some content \<Rightarrow> content | None \<Rightarrow> []))"

text \<open>\<open>render\<close> goes through the values in the order of the hash map, which is the list's order here.\<close>

definition template_render :: "(string \<times> string) list \<Rightarrow> string \<Rightarrow> string" where
  "template_render values content = fold (\<lambda>(k, v). replace_all (CHR ''$'' # k) v) values content"

lemma find_executable_spec:
  "find_executable F name = [] \<and> (\<forall>d \<in> set executable_dirs. \<not> fs_exec F (d @ ''/'' @ name) \<or> \<not> fs_exists F (d @ ''/'' @ name)) \<or>
   (\<exists>d \<in> set executable_dirs. find_executable F name = d @ ''/'' @ name \<and>
      fs_exists F (d @ ''/'' @ name) \<and> fs_exec F (d @ ''/'' @ name))"
proof (cases "find (\<lambda>p. fs_exists F p \<and> fs_exec F p) (map (\<lambda>d. d @ ''/'' @ name) executable_dirs)")
  case None
  then have "find_executable F name = []" by (simp add: find_executable_def)
  moreover have "\<forall>d \<in> set executable_dirs. \<not> fs_exec F (d @ ''/'' @ name) \<or> \<not> fs_exists F (d @ ''/'' @ name)"
    using None by (auto simp: find_None_iff)
  ultimately show ?thesis by simp
next
  case (Some p)
  then have "p \<in> set (map (\<lambda>d. d @ ''/'' @ name) executable_dirs) \<and> fs_exists F p \<and> fs_exec F p"
    by (auto simp: find_Some_iff)
  with Some show ?thesis by (auto simp: find_executable_def)
qed

subsection \<open>What rendering gives\<close>

text \<open>A template is literal text without \<open>$\<close> and placeholders \<open>$NAME\<close>.\<close>

datatype segment = Lit string | Var string

fun segment_text :: "segment \<Rightarrow> string" where
  "segment_text (Lit s) = s"
| "segment_text (Var k) = CHR ''$'' # k"

fun segment_value :: "(string \<Rightarrow> string option) \<Rightarrow> segment \<Rightarrow> string" where
  "segment_value m (Lit s) = s"
| "segment_value m (Var k) = (case m k of Some v \<Rightarrow> v | None \<Rightarrow> CHR ''$'' # k)"

fun plain_segment :: "string set \<Rightarrow> segment \<Rightarrow> bool" where
  "plain_segment K (Lit s) = (CHR ''$'' \<notin> set s)"
| "plain_segment K (Var k) = (k \<in> K)"

definition prefix_free :: "string set \<Rightarrow> bool" where
  "prefix_free K \<longleftrightarrow> (\<forall>k \<in> K. CHR ''$'' \<notin> set k \<and> (\<forall>j \<in> K. prefix k j \<longrightarrow> k = j))"

lemma replace_all_Nil [simp]: "replace_all k v [] = []"
  by (simp add: replace_all.simps)

lemma replace_all_lit:
  "CHR ''$'' \<notin> set s \<Longrightarrow> replace_all (CHR ''$'' # k) v (s @ t) = s @ replace_all (CHR ''$'' # k) v t"
proof (induction s)
  case (Cons c s)
  then have "\<not> prefix (CHR ''$'' # k) (c # s @ t)" by auto
  with Cons show ?case by (subst replace_all.simps) auto
qed simp

lemma replace_all_hit:
  "replace_all (CHR ''$'' # k) v (CHR ''$'' # k @ t) = v @ replace_all (CHR ''$'' # k) v t"
  by (subst replace_all.simps) simp

lemma replace_all_miss:
  assumes "prefix_free K" and "k \<in> K" and "j \<in> K" and "k \<noteq> j"
  shows "replace_all (CHR ''$'' # k) v (CHR ''$'' # j @ t) = CHR ''$'' # j @ replace_all (CHR ''$'' # k) v t"
proof -
  have "\<not> prefix k (j @ t)"
  proof
    assume "prefix k (j @ t)"
    then have "prefix k j \<or> prefix j k" by (rule prefix_same_cases) simp
    with assms show False by (auto simp: prefix_free_def)
  qed
  moreover have "CHR ''$'' \<notin> set j" using assms(1,3) by (auto simp: prefix_free_def)
  ultimately show ?thesis
    by (subst replace_all.simps) (simp add: replace_all_lit)
qed

fun fill :: "string \<Rightarrow> string \<Rightarrow> segment \<Rightarrow> segment" where
  "fill k v (Lit s) = Lit s"
| "fill k v (Var j) = (if j = k then Lit v else Var j)"

lemma replace_all_segments:
  assumes "prefix_free K" and "k \<in> K" and "\<forall>x \<in> set segs. plain_segment K x"
  shows "replace_all (CHR ''$'' # k) v (concat (map segment_text segs)) =
    concat (map segment_text (map (fill k v) segs))"
  using assms(3)
proof (induction segs)
  case (Cons x segs)
  then show ?case
    by (cases x) (auto simp: replace_all_lit replace_all_hit replace_all_miss [OF assms(1,2)])
qed simp

lemma render_segments:
  assumes "prefix_free K" and "fst ` set values \<subseteq> K" and "\<forall>(k, v) \<in> set values. CHR ''$'' \<notin> set v"
    and "\<forall>x \<in> set segs. plain_segment K x" and "distinct (map fst values)"
  shows "template_render values (concat (map segment_text segs)) =
    concat (map (segment_value (map_of values)) segs)"
  using assms(2-5)
proof (induction "values" arbitrary: segs)
  case Nil
  have "segment_text = segment_value (map_of [])"
    by (rule ext) (simp split: segment.split add: segment_text.simps, metis segment_text.elims segment_value.simps map_of.simps(1) option.case(1))
  then show ?case by (simp add: template_render_def)
next
  case (Cons kv vs)
  obtain k v where kv: "kv = (k, v)" by (cases kv)
  let ?segs = "map (fill k v) segs"
  have plain: "\<forall>x \<in> set ?segs. plain_segment K x"
  proof
    fix x assume "x \<in> set ?segs"
    then obtain y where "y \<in> set segs" "x = fill k v y" by auto
    with Cons.prems kv show "plain_segment K x" by (cases y) auto
  qed
  have "template_render (kv # vs) (concat (map segment_text segs)) =
      template_render vs (concat (map segment_text ?segs))"
    using replace_all_segments [OF assms(1), of k segs v] Cons.prems kv
    by (simp add: template_render_def)
  also have "\<dots> = concat (map (segment_value (map_of vs)) ?segs)"
    using Cons.prems plain by (intro Cons.IH) auto
  also have "map (segment_value (map_of vs)) ?segs = map (segment_value (map_of (kv # vs))) segs"
  proof -
    have "segment_value (map_of vs) (fill k v x) = segment_value (map_of (kv # vs)) x" for x
      using Cons.prems(4) kv by (cases x) (auto split: option.split)
    then show ?thesis by simp
  qed
  finally show ?case .
qed

text \<open>C22: Rendering replaces every placeholder by its value and nothing else, whatever the order of
  the hash map, provided no name is a prefix of another and no value brings in a new \<open>$\<close>;
  placeholders without a value stay.\<close>

theorem template_render_spec:
  assumes "prefix_free K" and "fst ` set values \<subseteq> K" and "\<forall>(k, v) \<in> set values. CHR ''$'' \<notin> set v"
    and "\<forall>x \<in> set segs. plain_segment K x" and "distinct (map fst values)"
  shows "template_render values (concat (map segment_text segs)) =
    concat (map (segment_value (map_of values)) segs)"
  using assms by (rule render_segments)

end
