(* ===== verification/Dbl_Proxy.thy ===== *)
theory Dbl_Proxy
  imports Dbl_Files Dbl_Managers Dbl_Config
begin

text \<open>
  The configuration generators of the DNS proxies (\<open>src/dbl/dnsproxy\<close>).  Time is a parameter (the
  text \<open>asctime\<close> gives); the hash map of the template values is kept as a list whose order is the
  parameter \<open>order\<close>.
\<close>

section \<open>The proxy object\<close>

datatype proxy_kind = DNSMasq | Unbound

record dnsproxy =
  px_kind :: proxy_kind
  px_values :: "(string \<times> string) list"
  px_domains :: "string list"
  px_config_file_path :: string

text \<open>\<open>dnsproxy::create\<close>, by the configured name without regard to case.\<close>

definition new_dnsproxy :: "proxy_kind \<Rightarrow> dnsproxy" where
  "new_dnsproxy k = \<lparr>px_kind = k, px_values = [], px_domains = [], px_config_file_path = []\<rparr>"

definition create_dnsproxy :: "config \<Rightarrow> exn + dnsproxy" where
  "create_dnsproxy c =
     (let name = to_lower (dns_proxy c)
      in if name = ''dnsmasq'' then Inr (new_dnsproxy DNSMasq)
         else if name = ''unbound'' then Inr (new_dnsproxy Unbound)
         else Inl (RuntimeError (''No support for: '' @ name)))"

text \<open>\<open>domains_\<close> is a \<open>std::set\<close>: sorted and without repetition.\<close>

definition px_add_domain :: "string \<Rightarrow> dnsproxy \<Rightarrow> dnsproxy" where
  "px_add_domain n p = p\<lparr>px_domains := insort_insert n (px_domains p)\<rparr>"

definition px_remove_domain :: "string \<Rightarrow> dnsproxy \<Rightarrow> dnsproxy" where
  "px_remove_domain n p = p\<lparr>px_domains := remove1 n (px_domains p)\<rparr>"

definition px_count_domains :: "dnsproxy \<Rightarrow> nat" where
  "px_count_domains p = length (px_domains p)"

definition set_value :: "string \<Rightarrow> string \<Rightarrow> dnsproxy \<Rightarrow> dnsproxy" where
  "set_value k v p = p\<lparr>px_values := assoc_set k v (px_values p)\<rparr>"

definition generate_config :: "config \<Rightarrow> dnsproxy \<Rightarrow> dnsproxy" where
  "generate_config c p =
     (let p = set_value ''DIRECTORY''
                (if dns_proxy_workdir c \<noteq> [] then dns_proxy_workdir c else base_dir c) p;
          p = set_value ''USER'' (dns_proxy_user c) p;
          p = set_value ''CHROOT'' (dns_proxy_chroot c) p;
          p = set_value ''LOGFILE'' (dns_proxy_logfile c) p
      in set_value ''PORT'' (show_int (dns_proxy_port c)) p)"

section \<open>The domain entries\<close>

datatype protocol = IPv4 | IPv6

definition unbound_ws :: string where "unbound_ws = ''    ''"

definition unbound_save_domain :: "protocol \<Rightarrow> string \<Rightarrow> string \<Rightarrow> string" where
  "unbound_save_domain proto domain address =
     unbound_ws @ ''local-data: '' @ [CHR 0x22] @ domain @ '' IN '' @
     (if proto = IPv4 then ''A'' else ''AAAA'') @ '' '' @ address @ [CHR 0x22] @ LF"

definition dnsmasq_save_domain :: "string \<Rightarrow> string \<Rightarrow> string" where
  "dnsmasq_save_domain domain address = ''address=/.'' @ domain @ ''/'' @ address @ LF"

text \<open>What the body of the two loops writes for one domain.\<close>

definition unbound_entry :: "config \<Rightarrow> string \<Rightarrow> string" where
  "unbound_entry c domain =
     (if \<not> network_no_ip4 c then unbound_save_domain IPv4 domain (network_ip4address c) else []) @
     (if \<not> network_no_ip6 c then unbound_save_domain IPv6 domain (network_ip6address c) else [])"

definition dnsmasq_entry :: "config \<Rightarrow> string \<Rightarrow> string" where
  "dnsmasq_entry c domain =
     (if \<not> network_no_ip4 c then dnsmasq_save_domain domain (network_ip4address c) else []) @
     (if \<not> network_no_ip6 c then dnsmasq_save_domain domain (network_ip6address c) else [])"

definition unbound_generate_domains_config :: "config \<Rightarrow> dnsproxy \<Rightarrow> db \<Rightarrow> string \<times> db" where
  "unbound_generate_domains_config c p d =
     (let (domains, d) = dm_get 0 d
      in (concat (map (unbound_entry c) (px_domains p)) @
          concat (map (\<lambda>x. unbound_entry c (d_name x)) domains), d))"

definition dnsmasq_generate_domains_config :: "config \<Rightarrow> dnsproxy \<Rightarrow> db \<Rightarrow> string \<times> db" where
  "dnsmasq_generate_domains_config c p d =
     (let (domains, d) = dm_get 0 d
      in (concat (map (dnsmasq_entry c) (px_domains p)) @
          concat (map (\<lambda>x. dnsmasq_entry c (d_name x)) domains), d))"

section \<open>The configuration file\<close>

text \<open>The check of \<open>dns_proxy_config\<close> and the choice of the file, the same in both classes.\<close>

definition check_config_file :: "config \<Rightarrow> filesystem \<Rightarrow> exn + unit" where
  "check_config_file c F =
     (if dns_proxy_config c \<noteq> [] \<and> \<not> fs_exists F (dns_proxy_config c)
      then Inl (RuntimeError (''Configuration file does not exist: '' @ dns_proxy_config c))
      else Inr ())"

definition config_destination :: "config \<Rightarrow> filesystem \<Rightarrow> string \<Rightarrow> exn + string" where
  "config_destination c F file_name =
     (if \<not> no_system_dns_proxy c
      then (if \<not> fs_dirs F (dns_proxy_include_dir c)
            then Inl (RuntimeError (''Invalid system dns proxy include dir: '' @ dns_proxy_include_dir c))
            else Inr (path_append (dns_proxy_include_dir c) ''dnsblocker.conf''))
      else Inr (path_append (dns_proxy_config_dest_dir c) file_name))"

definition unbound_network_config :: "config \<Rightarrow> string" where
  "unbound_network_config c =
     (if network_no_ip4 c then unbound_ws @ ''do-ip4: no'' @ LF
      else unbound_ws @ ''interface: '' @ network_ip4address c @ LF) @
     (if network_no_ip6 c then unbound_ws @ ''do-ip6: no'' @ LF
      else unbound_ws @ ''interface: '' @ network_ip6address c @ LF) @
     (if \<not> dns_proxy_disable_dnssec c
      then unbound_ws @ ''auto-trust-anchor-file: '' @ [CHR 0x22] @ dns_proxy_root_key c @ [CHR 0x22] @ LF
      else []) @ LF"

definition dnsmasq_network_config :: "config \<Rightarrow> string" where
  "dnsmasq_network_config c =
     (if network_no_ip4 c then ''interface: '' @ network_ip4address c @ LF else []) @
     (if network_no_ip6 c then ''interface: '' @ network_ip6address c @ LF else []) @ LF"

type_synonym value_order = "(string \<times> string) list \<Rightarrow> (string \<times> string) list"

text \<open>
  \<open>create_config\<close>.  The stream is opened, and the file truncated, before the template is loaded.
\<close>

definition unbound_create_config ::
  "config \<Rightarrow> value_order \<Rightarrow> string \<Rightarrow> dnsproxy \<Rightarrow> filesystem \<Rightarrow> db
   \<Rightarrow> (exn + unit) \<times> dnsproxy \<times> filesystem \<times> db" where
  "unbound_create_config c order time p F d =
     (case check_config_file c F of
        Inl e \<Rightarrow> (Inl e, p, F, d)
      | Inr u \<Rightarrow>
          if \<not> dns_proxy_generate_config c then (Inr (), p, F, d)
          else (let p = set_value ''GENERATION_TIME'' time p in
                case config_destination c F ''proxy-unbound.conf'' of
                  Inl e \<Rightarrow> (Inl e, p, F, d)
                | Inr path \<Rightarrow>
                    (let p = p\<lparr>px_config_file_path := path\<rparr>; F = write_file path [] F in
                     if no_system_dns_proxy c
                     then (let p = generate_config c p in
                           case template_load F (templates_dir c) ''unbound.conf'' of
                             Inl e \<Rightarrow> (Inl e, p, F, d)
                           | Inr tpl \<Rightarrow>
                               (let (entries, d) = unbound_generate_domains_config c p d
                                in (Inr (), p, write_file path
                                     (template_render (order (px_values p)) tpl @ LF @
                                      unbound_network_config c @ entries) F, d)))
                     else (let (entries, d) = unbound_generate_domains_config c p d
                           in (Inr (), p, write_file path (''server:'' @ LF @ entries) F, d)))))"

definition dnsmasq_create_config ::
  "config \<Rightarrow> value_order \<Rightarrow> string \<Rightarrow> dnsproxy \<Rightarrow> filesystem \<Rightarrow> db
   \<Rightarrow> (exn + unit) \<times> dnsproxy \<times> filesystem \<times> db" where
  "dnsmasq_create_config c order time p F d =
     (case check_config_file c F of
        Inl e \<Rightarrow> (Inl e, p, F, d)
      | Inr u \<Rightarrow>
          if \<not> dns_proxy_generate_config c then (Inr (), p, F, d)
          else (let p = set_value ''GENERATION_TIME'' time p in
                case config_destination c F ''proxy-dnsmasq.conf'' of
                  Inl e \<Rightarrow> (Inl e, p, F, d)
                | Inr path \<Rightarrow>
                    (let p = p\<lparr>px_config_file_path := path\<rparr>; F = write_file path [] F in
                     if no_system_dns_proxy c
                     then (let p = generate_config c p in
                           case template_load F (templates_dir c) ''dnsmasq.conf'' of
                             Inl e \<Rightarrow> (Inl e, p, F, d)
                           | Inr tpl \<Rightarrow>
                               (let (entries, d) = dnsmasq_generate_domains_config c p d
                                in (Inr (), p, write_file path
                                     (template_render (order (px_values p)) tpl @ LF @
                                      dnsmasq_network_config c @ entries) F, d)))
                     else (let (entries, d) = dnsmasq_generate_domains_config c p d
                           in (Inr (), p, write_file path (LF @ entries) F, d)))))"

text \<open>The virtual call.\<close>

definition create_config ::
  "config \<Rightarrow> value_order \<Rightarrow> string \<Rightarrow> dnsproxy \<Rightarrow> filesystem \<Rightarrow> db
   \<Rightarrow> (exn + unit) \<times> dnsproxy \<times> filesystem \<times> db" where
  "create_config c order time p F d =
     (case px_kind p of
        Unbound \<Rightarrow> unbound_create_config c order time p F d
      | DNSMasq \<Rightarrow> dnsmasq_create_config c order time p F d)"

section \<open>The domains of the proxy object\<close>

definition px_wf :: "dnsproxy \<Rightarrow> bool" where
  "px_wf p \<longleftrightarrow> sorted (px_domains p) \<and> distinct (px_domains p)"

lemma px_wf_ops:
  assumes "px_wf p"
  shows "px_wf (px_add_domain n p)" "px_wf (px_remove_domain n p)"
    "set (px_domains (px_add_domain n p)) = insert n (set (px_domains p))"
    "set (px_domains (px_remove_domain n p)) = set (px_domains p) - {n}"
  using assms
  by (auto simp: px_wf_def px_add_domain_def px_remove_domain_def sorted_insort_insert
      distinct_insort_insert set_insort_insert sorted_remove1)

section \<open>What the generated file says\<close>

text \<open>The names of all domains in active lists, whitelists included.\<close>

definition active_names :: "db \<Rightarrow> string list" where
  "active_names d = map d_name (order_by_name (sql_get_domains d))"

lemma active_names_spec:
  assumes "db_wf d"
  shows "sorted (active_names d)" "distinct (active_names d)"
    "set (active_names d) = {k. listed (\<lambda>l. lr_active l = 1) d k}"
  using assms distinct_join [OF assms, of "\<lambda>l. lr_active l = 1"]
    listed_names [OF assms, of "\<lambda>l. lr_active l = 1"]
  by (simp_all add: active_names_def order_by_name_props sql_get_domains_def)

lemma domains_config_ok:
  assumes "db_faults d = []"
  shows "unbound_generate_domains_config c p d =
      (concat (map (unbound_entry c) (px_domains p @ active_names d)), d)"
    "dnsmasq_generate_domains_config c p d =
      (concat (map (dnsmasq_entry c) (px_domains p @ active_names d)), d)"
  using assms
  by (simp_all add: unbound_generate_domains_config_def dnsmasq_generate_domains_config_def
      dm_get_def query_ok active_names_def comp_def)

lemma system_destination:
  "fs_dirs F (dns_proxy_include_dir c) \<Longrightarrow> \<not> no_system_dns_proxy c \<Longrightarrow>
   config_destination c F n = Inr (path_append (dns_proxy_include_dir c) ''dnsblocker.conf'')"
  by (simp add: config_destination_def)

lemma system_config_run:
  assumes "db_faults d = []" and "dns_proxy_config c = []"
    and "dns_proxy_generate_config c" and "\<not> no_system_dns_proxy c"
    and "fs_dirs F (dns_proxy_include_dir c)" and "px_domains p = []"
    and "path = path_append (dns_proxy_include_dir c) ''dnsblocker.conf''" and "fs_writable F path"
  shows "\<exists>p' F'. create_config c order time p F d = (Inr (), p', F', d) \<and>
      px_config_file_path p' = path \<and> files_only {path} F F' \<and>
      fs_files F' path = Some (case px_kind p of
          Unbound \<Rightarrow> ''server:'' @ LF @ concat (map (unbound_entry c) (active_names d))
        | DNSMasq \<Rightarrow> LF @ concat (map (dnsmasq_entry c) (active_names d)))"
  using assms
  by (cases "px_kind p")
    (simp_all add: create_config_def unbound_create_config_def dnsmasq_create_config_def
      check_config_file_def system_destination domains_config_ok write_file_def set_value_def
      files_only_def Let_def)

text \<open>C20: With the system's proxy, the generated include file holds the proxy's header and then, in
  the order of the names, one group of entries for every domain of an active list, whitelists
  included: a whitelisted domain is sent to the local address like a blocked one.\<close>

theorem system_config_entries:
  assumes "db_wf d" and "db_faults d = []" and "dns_proxy_config c = []"
    and "dns_proxy_generate_config c" and "\<not> no_system_dns_proxy c"
    and "fs_dirs F (dns_proxy_include_dir c)" and "px_domains p = []"
    and "path = path_append (dns_proxy_include_dir c) ''dnsblocker.conf''" and "fs_writable F path"
  shows "\<exists>p' F' ns. create_config c order time p F d = (Inr (), p', F', d) \<and>
    px_config_file_path p' = path \<and>
    fs_files F' path = Some (case px_kind p of
        Unbound \<Rightarrow> ''server:'' @ LF @ concat (map (unbound_entry c) ns)
      | DNSMasq \<Rightarrow> LF @ concat (map (dnsmasq_entry c) ns)) \<and>
    sorted ns \<and> distinct ns \<and> set ns = {k. listed (\<lambda>l. lr_active l = 1) d k} \<and>
    (\<forall>k. blocked d k \<or> whitelisted d k \<longrightarrow> k \<in> set ns)"
proof -
  have "blocked d k \<or> whitelisted d k \<Longrightarrow> k \<in> set (active_names d)" for k
    by (auto simp: active_names_spec [OF assms(1)] blocked_def whitelisted_def listed_def blocks_def
        whitelists_def)
  moreover note system_config_run [OF assms(2-9), of order time]
  ultimately show ?thesis using active_names_spec [OF assms(1)] by blast
qed

lemma split_unique:
  assumes "z \<notin> set x" "z \<notin> set y" "x @ z # s = y @ z # t"
  shows "x = y"
proof -
  have "takeWhile (\<lambda>c. c \<noteq> z) (u @ z # v) = u" if "z \<notin> set u" for u v
    using that by (induction u) auto
  with assms show ?thesis by metis
qed

lemma entry_shapes:
  assumes "\<not> network_no_ip4 c \<or> \<not> network_no_ip6 c"
  obtains f g where "\<And>n. unbound_entry c n = unbound_ws @ ''local-data: '' @ [CHR 0x22] @ n @ CHR '' '' # f n"
    "\<And>n. dnsmasq_entry c n = ''address=/.'' @ n @ CHR ''/'' # g n"
proof (cases "network_no_ip4 c")
  case True
  with assms that [of "\<lambda>_. ''IN AAAA '' @ network_ip6address c @ [CHR 0x22] @ LF"
      "\<lambda>_. network_ip6address c @ LF"]
  show ?thesis
    by (simp add: unbound_entry_def dnsmasq_entry_def unbound_save_domain_def dnsmasq_save_domain_def)
next
  case False
  with that [of "\<lambda>n. ''IN A '' @ network_ip4address c @ [CHR 0x22] @ LF @
        (if network_no_ip6 c then [] else unbound_save_domain IPv6 n (network_ip6address c))"
      "\<lambda>n. network_ip4address c @ LF @
        (if network_no_ip6 c then [] else dnsmasq_save_domain n (network_ip6address c))"]
  show ?thesis
    by (simp add: unbound_entry_def dnsmasq_entry_def unbound_save_domain_def [of IPv4]
        dnsmasq_save_domain_def [of _ "network_ip4address c"])
qed


text \<open>When the template of an own proxy instance is missing, \<open>create_config\<close> fails after the
  configuration file has been emptied.\<close>

theorem missing_template_truncates:
  assumes "dns_proxy_config c = []" and "dns_proxy_generate_config c" and "no_system_dns_proxy c"
    and "path = path_append (dns_proxy_config_dest_dir c)
       (case px_kind p of Unbound \<Rightarrow> ''proxy-unbound.conf'' | DNSMasq \<Rightarrow> ''proxy-dnsmasq.conf'')"
    and "fs_writable F path" and "t = path_append (templates_dir c)
       (case px_kind p of Unbound \<Rightarrow> ''unbound.conf'' | DNSMasq \<Rightarrow> ''dnsmasq.conf'')"
    and "\<not> fs_exists F t" and "t \<noteq> path"
  shows "\<exists>p' F'. create_config c order time p F d =
      (Inl (RuntimeError (''Template not found: '' @ t)), p', F', d) \<and> fs_files F' path = Some []"
  using assms
  by (cases "px_kind p")
    (simp_all add: create_config_def unbound_create_config_def dnsmasq_create_config_def
      check_config_file_def config_destination_def write_file_def template_load_def fs_exists_def Let_def)

end
