(* ===== verification/Dbl_Network.thy ===== *)
theory Dbl_Network
  imports Dbl_Proxy
begin

text \<open>
  The network configurator (\<open>src/dbl/service/configurator\<close>).  The socket and \<open>ioctl\<close> calls are the
  parameter \<open>netenv\<close>; the requests the code makes to the kernel are recorded as a trace.
\<close>

section \<open>State and environment\<close>

text \<open>
  \<open>ne_ifconf\<close> is what SIOCGIFCONF fills in, interface and address of each entry (\<open>None\<close>: it fails);
  the other fields tell whether the three calls of \<open>configure_interface\<close> succeed.
\<close>

record netenv =
  ne_socket :: bool
  ne_ifconf :: "(string \<times> string) list option"
  ne_set_address :: "string \<Rightarrow> string \<Rightarrow> bool"
  ne_get_flags :: "string \<Rightarrow> bool"
  ne_set_flags :: "string \<Rightarrow> bool"

datatype netcall =
    Set_address string string
  | Get_flags string
  | Set_up_running string

record configurator =
  cf_available_interfaces :: "string \<Rightarrow> string set option"
  cf_interface :: string
  cf_ip4address :: string
  cf_ip6address :: string

definition new_configurator :: configurator where
  "new_configurator = \<lparr>cf_available_interfaces = Map.empty, cf_interface = [], cf_ip4address = [],
     cf_ip6address = []\<rparr>"

section \<open>Operations\<close>

definition get_default_interface :: string where
  "get_default_interface = ''lo''"

text \<open>\<open>available_interfaces_[name].insert(address)\<close>.\<close>

definition add_interface :: "string \<times> string \<Rightarrow> (string \<Rightarrow> string set option) \<Rightarrow> string \<Rightarrow> string set option"
  where "add_interface x m =
     m(fst x \<mapsto> insert (snd x) (case m (fst x) of Some s \<Rightarrow> s | None \<Rightarrow> {}))"

definition run_network_discovery :: "netenv \<Rightarrow> configurator \<Rightarrow> exn + configurator" where
  "run_network_discovery N f =
     (if \<not> ne_socket N then Inl (RuntimeError ''run_network_discovery(): socket() failed'')
      else case ne_ifconf N of
        None \<Rightarrow> Inl (RuntimeError ''run_network_discovery(): ioctl(SIOCGIFCONF) failed'')
      | Some items \<Rightarrow>
          Inr (f\<lparr>cf_available_interfaces := fold add_interface items (cf_available_interfaces f)\<rparr>))"

text \<open>The interface name is cut to \<open>IFNAMSIZ\<close> characters; \<open>failed\<close> is set on success, too.\<close>

definition IFNAMSIZ :: nat where "IFNAMSIZ = 16"

definition configure_interface :: "netenv \<Rightarrow> configurator \<Rightarrow> (exn + unit) \<times> netcall list" where
  "configure_interface N f =
     (let name = take IFNAMSIZ (cf_interface f);
          calls = [Set_address name (cf_ip4address f)];
          (failed, calls) =
            (if \<not> ne_set_address N name (cf_ip4address f) then (True, calls)
             else (\<not> ne_get_flags N name, calls @ [Get_flags name]));
          (failed, calls) =
            (if \<not> failed
             then (let calls = calls @ [Set_up_running name];
                       logged = \<not> ne_set_flags N name
                   in (True, calls))
             else (failed, calls))
      in (if failed then Inl (RuntimeError ''Interface configuration failed'') else Inr (), calls))"

definition get_proxy_executable_name :: "config \<Rightarrow> exn + string" where
  "get_proxy_executable_name c =
     (if dns_proxy c = ''dnsmasq'' then Inr ''dnsmasq''
      else if dns_proxy c = ''unbound'' then Inr ''unbound''
      else Inl (RuntimeError ''Invalid dns proxy''))"

definition find_proxy_executable :: "config \<Rightarrow> filesystem \<Rightarrow> exn + string" where
  "find_proxy_executable c F =
     bindE (if dns_proxy_executable c = []
            then bindE (get_proxy_executable_name c) (\<lambda>n. Inr (find_executable F n))
            else Inr (dns_proxy_executable c)) (\<lambda>executable.
     if executable = [] then Inl (RuntimeError ''Unable to locate dns proxy software'')
     else Inr executable)"

definition configure_dns_proxy :: "config \<Rightarrow> dnsproxy \<Rightarrow> dnsproxy" where
  "configure_dns_proxy c p = set_value ''PIDFILE'' (dns_proxy_pidfile c) p"

text \<open>The interface that \<open>configure\<close> chooses.\<close>

definition chosen_interface :: "config \<Rightarrow> exn + string" where
  "chosen_interface c =
     (if network_ip4address c = ''127.0.0.1'' \<or> network_ip6address c = ''::1''
      then Inr get_default_interface
      else if network_interface c = []
      then Inl (RuntimeError (''Create a dedicated interface to use with address: '' @ network_ip4address c))
      else Inr (network_interface c))"

definition configure ::
  "config \<Rightarrow> netenv \<Rightarrow> configurator \<Rightarrow> dnsproxy
   \<Rightarrow> (exn + unit) \<times> configurator \<times> dnsproxy \<times> netcall list" where
  "configure c N f p =
     (let f = f\<lparr>cf_ip4address := network_ip4address c, cf_ip6address := network_ip6address c,
                cf_interface := get_default_interface\<rparr>
      in case chosen_interface c of
           Inl e \<Rightarrow> (Inl e, f\<lparr>cf_interface := network_interface c\<rparr>, p, [])
         | Inr i \<Rightarrow>
             (let f = f\<lparr>cf_interface := i\<rparr> in
              case run_network_discovery N f of
                Inl e \<Rightarrow> (Inl e, f, p, [])
              | Inr f \<Rightarrow>
                  (case cf_available_interfaces f i of
                     None \<Rightarrow> (Inl (RuntimeError (''Invalid interface: '' @ i)), f, p, [])
                   | Some addresses \<Rightarrow>
                       if cf_ip4address f \<notin> addresses
                       then (case configure_interface N f of
                               (Inl e, calls) \<Rightarrow> (Inl e, f, p, calls)
                             | (Inr u, calls) \<Rightarrow> (Inr (), f, configure_dns_proxy c p, calls))
                       else (Inr (), f, configure_dns_proxy c p, []))))"

section \<open>Properties\<close>

lemma configure_interface_fails:
  "fst (configure_interface N f) = Inl (RuntimeError ''Interface configuration failed'')"
  by (simp add: configure_interface_def Let_def)

text \<open>\<open>configure_interface\<close> reports failure whatever the kernel says: even when the address is set
  and the interface is brought up, it throws.\<close>

theorem configure_interface_always_throws:
  "fst (configure_interface N f) = Inl (RuntimeError ''Interface configuration failed'') \<and>
   (ne_set_address N (take IFNAMSIZ (cf_interface f)) (cf_ip4address f) \<and>
      ne_get_flags N (take IFNAMSIZ (cf_interface f)) \<longrightarrow>
    snd (configure_interface N f) =
      [Set_address (take IFNAMSIZ (cf_interface f)) (cf_ip4address f),
       Get_flags (take IFNAMSIZ (cf_interface f)), Set_up_running (take IFNAMSIZ (cf_interface f))])"
  by (simp add: configure_interface_fails) (simp add: configure_interface_def Let_def)

lemma discovered:
  "fold add_interface items m i =
     (if m i = None \<and> i \<notin> fst ` set items then None
      else Some ((case m i of Some s \<Rightarrow> s | None \<Rightarrow> {}) \<union> {a. (i, a) \<in> set items}))"
proof (induction items arbitrary: m)
  case Nil
  show ?case by (simp split: option.split)
next
  case (Cons x items)
  obtain j a where x: "x = (j, a)" by (cases x)
  show ?case
    unfolding fold_Cons comp_apply Cons.IH
    by (auto simp: x add_interface_def split: option.splits)
qed


text \<open>The executable of an own proxy instance is the configured \<open>dns_proxy_executable\<close> whenever
  that is not empty; since the default is "unbound" and no option changes it, choosing dnsmasq
  still starts unbound.\<close>

theorem default_executable_is_unbound:
  "find_proxy_executable (unix_config\<lparr>dns_proxy := ''dnsmasq''\<rparr>) F = Inr ''unbound'' \<and>
   get_proxy_executable_name (unix_config\<lparr>dns_proxy := ''dnsmasq''\<rparr>) = Inr ''dnsmasq''"
  by (simp add: find_proxy_executable_def get_proxy_executable_name_def unix_config_def Let_def)

text \<open>The factory ignores case where the configurator does not: for a proxy name such as
  "Unbound" the proxy object is created, and asking for its executable's name throws.\<close>

theorem proxy_name_case:
  assumes "to_lower (dns_proxy c) \<in> {''unbound'', ''dnsmasq''}" and "to_lower (dns_proxy c) \<noteq> dns_proxy c"
  shows "(\<exists>p. create_dnsproxy c = Inr p) \<and>
    get_proxy_executable_name c = Inl (RuntimeError ''Invalid dns proxy'')"
proof -
  have "to_lower ''unbound'' = ''unbound''" "to_lower ''dnsmasq'' = ''dnsmasq''" by code_simp+
  with assms show ?thesis by (auto simp: create_dnsproxy_def get_proxy_executable_name_def Let_def)
qed

end
