(* ===== verification/Dbl_Process.thy ===== *)
theory Dbl_Process
  imports Dbl_Network
begin

text \<open>
  The master process (\<open>src/dbl/service/unix.cxx\<close>) and \<open>sys::run_command\<close>: starting and stopping the
  DNS proxy, the pid file, and the life of the worker as the master sees it.  Commands run in a
  world \<open>'w\<close> that is the parameter \<open>os\<close>; what the code asks of the system is recorded as a trace.
\<close>

section \<open>Commands\<close>

text \<open>
  \<open>os_popen\<close> gives the chunks that \<open>fgets\<close> reads and the status of \<open>pclose\<close>, or \<open>None\<close> when
  \<open>popen\<close> fails; \<open>os_alive\<close> is \<open>kill(pid, 0) == 0\<close>.
\<close>

datatype wait_status = Wait_failed | Killed_by int | Exited int

record 'w os =
  os_system :: "string \<Rightarrow> 'w \<Rightarrow> int \<times> 'w"
  os_popen :: "string \<Rightarrow> 'w \<Rightarrow> (string list \<times> int) option \<times> 'w"
  os_alive :: "int \<Rightarrow> bool"
  os_wait_worker :: "'w \<Rightarrow> (int list \<times> wait_status) \<times> 'w"

datatype action =
    System string
  | Popen string
  | Sleep_ms nat
  | Post_semaphore
  | Kill int int
  | Wait_worker
  | Unlink string

record 'w process =
  ps_world :: 'w
  ps_files :: filesystem
  ps_trace :: "action list"
  ps_signaled_exit :: bool
  ps_system_proxy_was_running :: bool

definition act :: "action \<Rightarrow> 'w process \<Rightarrow> 'w process" where
  "act a s = s\<lparr>ps_trace := ps_trace s @ [a]\<rparr>"

definition run_system :: "'w os \<Rightarrow> string \<Rightarrow> 'w process \<Rightarrow> int \<times> 'w process" where
  "run_system os cmd s =
     (let (r, w) = os_system os cmd (ps_world s) in (r, act (System cmd) (s\<lparr>ps_world := w\<rparr>)))"

text \<open>\<open>sys::run_command\<close>; the buffer of each \<open>fgets\<close> is appended as a C string.\<close>

definition run_command :: "'w os \<Rightarrow> string \<Rightarrow> string \<Rightarrow> 'w process \<Rightarrow> (int \<times> string) \<times> 'w process" where
  "run_command os cmd result s =
     (let (r, w) = os_popen os cmd (ps_world s); s = act (Popen cmd) (s\<lparr>ps_world := w\<rparr>)
      in case r of
           None \<Rightarrow> ((-1, result), s)
         | Some (chunks, status) \<Rightarrow>
             ((status, concat (map (takeWhile (\<lambda>c. c \<noteq> CHR 0x00)) chunks)), s))"

text \<open>\<open>std::atoi\<close>: white space, a sign, and as many digits as there are.\<close>

definition is_digit :: "char \<Rightarrow> bool" where
  "is_digit c = (let n = of_char c :: nat in 48 \<le> n \<and> n \<le> 57)"

definition digits_value :: "string \<Rightarrow> int" where
  "digits_value s = foldl (\<lambda>n c. n * 10 + (of_char c - 48)) 0 s"

definition atoi :: "string \<Rightarrow> int" where
  "atoi s =
     (case dropWhile is_space s of
        [] \<Rightarrow> 0
      | c # cs \<Rightarrow>
          if c = CHR ''-'' then - digits_value (takeWhile is_digit cs)
          else if c = CHR ''+'' then digits_value (takeWhile is_digit cs)
          else digits_value (takeWhile is_digit (c # cs)))"

definition get_pid_of :: "'w os \<Rightarrow> string \<Rightarrow> string \<Rightarrow> 'w process \<Rightarrow> int \<times> 'w process" where
  "get_pid_of os pidof_bin program s =
     (let ((status, cmd_output), s) = run_command os (pidof_bin @ '' '' @ program) [] s
      in (if status = 0 then atoi (trim_copy cmd_output) else -1, s))"

definition rc_commands :: "string \<Rightarrow> string \<Rightarrow> string list" where
  "rc_commands proxy action =
     [''/usr/sbin/service '' @ proxy @ '' '' @ action,
      ''/etc/init.d/'' @ proxy @ '' '' @ action,
      ''/etc/rc.d/'' @ proxy @ '' '' @ action,
      ''/usr/local/etc/rc.d/'' @ proxy @ '' '' @ action,
      ''/usr/sbin/systemctl '' @ action @ '' '' @ proxy]"

fun try_commands :: "'w os \<Rightarrow> string list \<Rightarrow> 'w process \<Rightarrow> bool \<times> 'w process" where
  "try_commands os [] s = (False, s)"
| "try_commands os (cmd # cmds) s =
     (let (r, s) = run_system os cmd s in if r = 0 then (True, s) else try_commands os cmds s)"

definition run_rc :: "config \<Rightarrow> 'w os \<Rightarrow> string \<Rightarrow> 'w process \<Rightarrow> bool \<times> 'w process" where
  "run_rc c os action s = try_commands os (rc_commands (dns_proxy c) action) s"

section \<open>The DNS proxy\<close>

text \<open>The wait loop, on \<open>wait_counter\<close>.\<close>

fun wait_for_pid :: "'w os \<Rightarrow> string \<Rightarrow> string \<Rightarrow> nat \<Rightarrow> int \<Rightarrow> 'w process \<Rightarrow> int \<times> 'w process" where
  "wait_for_pid os pidof_bin program 0 new_pid s = (new_pid, s)"
| "wait_for_pid os pidof_bin program (Suc wait_counter) new_pid s =
     (if new_pid < 1
      then (let (new_pid, s) = get_pid_of os pidof_bin program s
            in wait_for_pid os pidof_bin program wait_counter new_pid (act (Sleep_ms 100) s))
      else (new_pid, s))"

definition start_dns_proxy ::
  "config \<Rightarrow> 'w os \<Rightarrow> string \<Rightarrow> dnsproxy \<Rightarrow> 'w process \<Rightarrow> (exn + unit) \<times> 'w process" where
  "start_dns_proxy c os pidof_bin p s =
     (if \<not> no_system_dns_proxy c
      then (case get_proxy_executable_name c of
              Inl e \<Rightarrow> (Inl e, s)
            | Inr proxy_bin \<Rightarrow>
                (let (current_pid, s) = get_pid_of os pidof_bin proxy_bin s;
                     s = s\<lparr>ps_system_proxy_was_running := (current_pid > 0)\<rparr>;
                     (success, s) = run_rc c os ''restart'' s
                 in if \<not> success
                    then (Inl (RuntimeError ''Unable to start system dns proxy service''), s)
                    else (let (new_pid, s) = get_pid_of os pidof_bin proxy_bin s;
                              wait_time_ms = 100;
                              (new_pid, s) = wait_for_pid os pidof_bin proxy_bin (3000 div wait_time_ms) new_pid s
                          in if new_pid = current_pid \<or> new_pid < 0
                             then (Inl (RuntimeError (''Unable to start service: '' @ dns_proxy c)), s)
                             else (Inr (), s))))
      else (case find_proxy_executable c (ps_files s) of
              Inl e \<Rightarrow> (Inl e, s)
            | Inr cmd \<Rightarrow>
                (let cmd = cmd @ '' -v '' @ '' -c '' @ px_config_file_path p;
                     (r, s) = run_system os cmd s
                 in if r \<noteq> 0
                    then (Inl (RuntimeError (''Unable to start dns proxy. Command: '' @ cmd)), s)
                    else (Inr (), s))))"

definition stop_dns_proxy :: "config \<Rightarrow> 'w os \<Rightarrow> dnsproxy \<Rightarrow> 'w process \<Rightarrow> 'w process" where
  "stop_dns_proxy c os p s =
     (let s = (if dns_proxy_generate_config c
               then act (Unlink (px_config_file_path p))
                      (s\<lparr>ps_files := unlink_file (px_config_file_path p) (ps_files s)\<rparr>)
               else s)
      in if ps_system_proxy_was_running s then snd (run_rc c os ''restart'' s)
         else snd (run_rc c os ''stop'' s))"

section \<open>The pid file\<close>

definition parent_path :: "string \<Rightarrow> string" where
  "parent_path p =
     (case dropWhile (\<lambda>c. c \<noteq> CHR ''/'') (rev p) of
        [] \<Rightarrow> []
      | [c] \<Rightarrow> ''/''
      | c # cs \<Rightarrow> (case dropWhile (\<lambda>c. c = CHR ''/'') cs of [] \<Rightarrow> ''/'' | cs \<Rightarrow> rev cs))"

definition save_pidfile :: "config \<Rightarrow> int \<Rightarrow> filesystem \<Rightarrow> exn + filesystem" where
  "save_pidfile c pid F =
     (let path = service_pidfile c; dir = parent_path path in
      bindE (if fs_dirs F dir then Inr F
             else if fs_writable F dir then Inr (F\<lparr>fs_dirs := (fs_dirs F)(dir := True)\<rparr>)
             else Inl (FilesystemError ''boost::filesystem::create_directories'' dir)) (\<lambda>F.
      let F = (if fs_exists F path then unlink_file path F else F) in
      if \<not> fs_writable F path then Inl (RuntimeError ''Unable to write pid file.'')
      else Inr (write_file path (show_int pid) F)))"

definition remove_pidfile :: "config \<Rightarrow> filesystem \<Rightarrow> filesystem" where
  "remove_pidfile c F = unlink_file (service_pidfile c) F"

text \<open>
  \<open>ifh >> pid\<close>: nothing is stored when the file holds only white space (\<open>garbage\<close> is the value of
  the uninitialised variable), 0 when there is no number.
\<close>

definition read_pid :: "int \<Rightarrow> string \<Rightarrow> int" where
  "read_pid garbage content =
     (if dropWhile is_space content = [] then garbage else atoi content)"

definition is_already_running :: "config \<Rightarrow> 'w os \<Rightarrow> int \<Rightarrow> filesystem \<Rightarrow> bool" where
  "is_already_running c os garbage F =
     (if fs_exists F (service_pidfile c)
      then os_alive os (read_pid garbage (case fs_files F (service_pidfile c) of Some s \<Rightarrow> s | None \<Rightarrow> []))
      else False)"

section \<open>The master\<close>

definition SIGHUP :: int where "SIGHUP = 1"
definition SIGINT :: int where "SIGINT = 2"
definition SIGTERM :: int where "SIGTERM = 15"

text \<open>\<open>Unix::stop\<close>, with the member \<open>worker_pid_\<close>.\<close>

definition unix_stop :: "int \<Rightarrow> 'w process \<Rightarrow> 'w process" where
  "unix_stop worker_pid s = act (Kill worker_pid SIGTERM) s"

text \<open>The signal handler that \<open>setup_master_signals\<close> installs.\<close>

definition master_signal :: "int \<Rightarrow> int \<Rightarrow> 'w process \<Rightarrow> 'w process" where
  "master_signal worker_pid sig s =
     (if sig = SIGTERM \<or> sig = SIGINT then unix_stop worker_pid (s\<lparr>ps_signaled_exit := True\<rparr>)
      else if sig = SIGHUP then unix_stop worker_pid s
      else s)"

text \<open>
  The handlers are installed without \<open>SA_RESTART\<close>: \<open>waitpid\<close> returns -1 as soon as one of them has
  run, whatever the worker does.  \<open>ended\<close>: how the worker ends, if it does.
\<close>

definition master_handles :: "int \<Rightarrow> bool" where
  "master_handles sig = (sig = SIGTERM \<or> sig = SIGINT \<or> sig = SIGHUP)"

definition waitpid :: "int list \<Rightarrow> wait_status option \<Rightarrow> wait_status option" where
  "waitpid sigs ended = (if list_ex master_handles sigs then Some Wait_failed else ended)"

text \<open>
  \<open>process_master\<close>.  \<open>os_wait_worker\<close> gives the signals that reach the master during \<open>waitpid\<close> and
  what \<open>waitpid\<close> returns.
\<close>

definition process_master ::
  "config \<Rightarrow> 'w os \<Rightarrow> string \<Rightarrow> int \<Rightarrow> int \<Rightarrow> dnsproxy \<Rightarrow> 'w process \<Rightarrow> (exn + unit) \<times> 'w process" where
  "process_master c os pidof_bin pid worker_pid p s =
     (case save_pidfile c pid (ps_files s) of
        Inl e \<Rightarrow> (Inl e, s)
      | Inr F \<Rightarrow>
          (let s = s\<lparr>ps_files := F\<rparr>;
               (r, s) = start_dns_proxy c os pidof_bin p s;
               s = (case r of
                      Inr u \<Rightarrow> act Post_semaphore s
                    | Inl e \<Rightarrow> unix_stop worker_pid (s\<lparr>ps_signaled_exit := True\<rparr>));
               ((sigs, status), w) = os_wait_worker os (ps_world s);
               s = act Wait_worker (s\<lparr>ps_world := w\<rparr>);
               s = fold (master_signal worker_pid) sigs s;
               s = (case status of
                      Killed_by sig \<Rightarrow>
                        if sig \<noteq> SIGTERM \<and> sig \<noteq> SIGINT then s\<lparr>ps_signaled_exit := True\<rparr> else s
                    | _ \<Rightarrow> s);
               s = stop_dns_proxy c os p s;
               s = s\<lparr>ps_files := remove_pidfile c (ps_files s)\<rparr>
           in (Inr (), act (Unlink (service_pidfile c)) s)))"

text \<open>\<open>process_foreground\<close> around the run of the worker; an exception of the start is not caught.\<close>

definition process_foreground ::
  "config \<Rightarrow> 'w os \<Rightarrow> string \<Rightarrow> dnsproxy \<Rightarrow> ('w process \<Rightarrow> 'w process) \<Rightarrow> 'w process
   \<Rightarrow> (exn + unit) \<times> 'w process" where
  "process_foreground c os pidof_bin p worker s =
     (let (r, s) = start_dns_proxy c os pidof_bin p s
      in case r of Inl e \<Rightarrow> (Inl e, s) | Inr u \<Rightarrow> (Inr (), stop_dns_proxy c os p (worker s)))"

section \<open>Properties of the commands\<close>

lemma get_pid_of_trace:
  "ps_trace (snd (get_pid_of os b n s)) = ps_trace s @ [Popen (b @ '' '' @ n)]"
  "ps_files (snd (get_pid_of os b n s)) = ps_files s"
  "ps_signaled_exit (snd (get_pid_of os b n s)) = ps_signaled_exit s"
  by (auto simp: get_pid_of_def run_command_def act_def Let_def split: prod.split option.split)

text \<open>Without \<open>pidof\<close> on the system, asking for the pid of the proxy runs the proxy's own name as a
  shell command.\<close>

theorem missing_pidof_runs_program:
  "find_executable F ''pidof'' = [] \<Longrightarrow>
   ps_trace (snd (get_pid_of os (find_executable F ''pidof'') ''unbound'' s)) = ps_trace s @ [Popen '' unbound'']"
  by (simp add: get_pid_of_trace)

lemma try_commands_trace:
  "\<exists>k \<le> length cmds. ps_trace (snd (try_commands os cmds s)) = ps_trace s @ map System (take k cmds) \<and>
     ps_files (snd (try_commands os cmds s)) = ps_files s \<and>
     ps_signaled_exit (snd (try_commands os cmds s)) = ps_signaled_exit s \<and>
     (\<not> fst (try_commands os cmds s) \<longrightarrow> k = length cmds)"
proof (induction cmds arbitrary: s)
  case (Cons cmd cmds)
  obtain r w where r: "os_system os cmd (ps_world s) = (r, w)" by force
  let ?s = "act (System cmd) (s\<lparr>ps_world := w\<rparr>)"
  obtain k where k: "k \<le> length cmds"
    "ps_trace (snd (try_commands os cmds ?s)) = ps_trace ?s @ map System (take k cmds)"
    "ps_files (snd (try_commands os cmds ?s)) = ps_files ?s"
    "ps_signaled_exit (snd (try_commands os cmds ?s)) = ps_signaled_exit ?s"
    "\<not> fst (try_commands os cmds ?s) \<longrightarrow> k = length cmds"
    using Cons.IH [of ?s] by blast
  show ?case
  proof (cases "r = 0")
    case True
    with r show ?thesis by (intro exI [of _ 1]) (simp add: run_system_def act_def)
  next
    case False
    with r k show ?thesis by (intro exI [of _ "Suc k"]) (simp add: run_system_def act_def)
  qed
qed simp

lemma run_rc_trace:
  obtains k where "k \<le> 5" "ps_trace (snd (run_rc c os a s)) = ps_trace s @ map System (take k (rc_commands (dns_proxy c) a))"
    "ps_files (snd (run_rc c os a s)) = ps_files s"
    "ps_signaled_exit (snd (run_rc c os a s)) = ps_signaled_exit s"
  using try_commands_trace [of "rc_commands (dns_proxy c) a" os s]
  by (auto simp: run_rc_def rc_commands_def [of _ a] numeral_eq_Suc)

lemma wait_for_pid_done: "\<not> new_pid < 1 \<Longrightarrow> wait_for_pid os b x n new_pid s = (new_pid, s)"
  by (cases n) simp_all

lemma wait_for_pid_trace:
  "\<exists>k \<le> n. ps_trace (snd (wait_for_pid os b x n p s)) =
       ps_trace s @ concat (replicate k [Popen (b @ '' '' @ x), Sleep_ms 100]) \<and>
     ps_files (snd (wait_for_pid os b x n p s)) = ps_files s \<and>
     ps_signaled_exit (snd (wait_for_pid os b x n p s)) = ps_signaled_exit s \<and>
     (fst (wait_for_pid os b x n p s) < 1 \<longrightarrow> k = n)"
proof (induction n arbitrary: p s)
  case (Suc n)
  obtain q t where g: "get_pid_of os b x s = (q, t)" by force
  then have t: "ps_trace t = ps_trace s @ [Popen (b @ '' '' @ x)]" "ps_files t = ps_files s"
    "ps_signaled_exit t = ps_signaled_exit s"
    using get_pid_of_trace [of os b x s] by simp_all
  obtain k where k: "k \<le> n"
    "ps_trace (snd (wait_for_pid os b x n q (act (Sleep_ms 100) t))) =
       ps_trace (act (Sleep_ms 100) t) @ concat (replicate k [Popen (b @ '' '' @ x), Sleep_ms 100])"
    "ps_files (snd (wait_for_pid os b x n q (act (Sleep_ms 100) t))) = ps_files (act (Sleep_ms 100) t)"
    "ps_signaled_exit (snd (wait_for_pid os b x n q (act (Sleep_ms 100) t))) =
       ps_signaled_exit (act (Sleep_ms 100) t)"
    "fst (wait_for_pid os b x n q (act (Sleep_ms 100) t)) < 1 \<longrightarrow> k = n"
    using Suc.IH [of q "act (Sleep_ms 100) t"] by blast
  show ?case
  proof (cases "p < 1")
    case True
    with g k t show ?thesis by (intro exI [of _ "Suc k"]) (simp add: act_def)
  next
    case False
    then show ?thesis by (intro exI [of _ 0]) simp
  qed
qed simp

text \<open>The number of actions of a kind in a trace.\<close>

definition sleeps :: "action list \<Rightarrow> nat" where
  "sleeps t = length (filter (\<lambda>a. case a of Sleep_ms n \<Rightarrow> True | _ \<Rightarrow> False) t)"

definition popens :: "action list \<Rightarrow> nat" where
  "popens t = length (filter (\<lambda>a. case a of Popen n \<Rightarrow> True | _ \<Rightarrow> False) t)"

definition systems :: "action list \<Rightarrow> nat" where
  "systems t = length (filter (\<lambda>a. case a of System n \<Rightarrow> True | _ \<Rightarrow> False) t)"

lemma trace_counts [simp]:
  "systems (t @ u) = systems t + systems u" "systems (map System cs) = length cs" "systems [] = 0"
  "systems (Popen x # t) = systems t" "systems (System x # t) = Suc (systems t)"
  "systems (concat (replicate k [Popen x, Sleep_ms n])) = 0"
  "sleeps (t @ u) = sleeps t + sleeps u" "popens (t @ u) = popens t + popens u"
  "sleeps (map System cs) = 0" "popens (map System cs) = 0" "sleeps [] = 0" "popens [] = 0"
  "sleeps (Popen x # t) = sleeps t" "popens (Popen x # t) = Suc (popens t)"
  "sleeps (System x # t) = sleeps t" "popens (System x # t) = popens t"
  "sleeps (concat (replicate k [Popen x, Sleep_ms n])) = k"
  "popens (concat (replicate k [Popen x, Sleep_ms n])) = k"
proof -
  show "sleeps (concat (replicate k [Popen x, Sleep_ms n])) = k"
    "popens (concat (replicate k [Popen x, Sleep_ms n])) = k"
    "systems (concat (replicate k [Popen x, Sleep_ms n])) = 0"
    by (induction k) (simp_all add: sleeps_def popens_def systems_def)
qed (simp_all add: sleeps_def popens_def systems_def filter_map comp_def)

text \<open>What the start may add to the trace and what it leaves alone.\<close>

definition only_start :: "action list \<Rightarrow> bool" where
  "only_start t \<longleftrightarrow> (\<forall>a \<in> set t. case a of System n \<Rightarrow> True | Popen n \<Rightarrow> True | Sleep_ms n \<Rightarrow> n = 100 | _ \<Rightarrow> False)"

lemma only_start_simps [simp]:
  "only_start (t @ u) \<longleftrightarrow> only_start t \<and> only_start u" "only_start []" "only_start (map System cs)"
  "only_start (Popen x # t) = only_start t" "only_start (System x # t) = only_start t"
  "only_start (concat (replicate k [Popen x, Sleep_ms 100]))"
  by (auto simp: only_start_def)

definition start_effect :: "'w process \<Rightarrow> 'w process \<Rightarrow> bool" where
  "start_effect s s' \<longleftrightarrow> ps_files s' = ps_files s \<and> ps_signaled_exit s' = ps_signaled_exit s \<and>
     (\<exists>t. ps_trace s' = ps_trace s @ t \<and> sleeps t \<le> 30 \<and> popens t \<le> 32 \<and> systems t \<le> 5 \<and> only_start t \<and>
       Post_semaphore \<notin> set t \<and> (\<forall>q sig. Kill q sig \<notin> set t))"

lemma start_effect_system:
  fixes s :: "'w process"
  assumes "\<not> no_system_dns_proxy c"
  shows "start_effect s (snd (start_dns_proxy c os b p s))"
proof (cases "get_proxy_executable_name c")
  case (Inl e)
  with assms show ?thesis
    by (auto simp: start_dns_proxy_def start_effect_def intro: exI [of _ "[]"])
next
  case (Inr x)
  obtain cp s1 where g1: "get_pid_of os b x s = (cp, s1)" by force
  let ?s1 = "s1\<lparr>ps_system_proxy_was_running := (cp > 0)\<rparr>"
  have t1: "ps_trace s1 = ps_trace s @ [Popen (b @ '' '' @ x)]" "ps_files s1 = ps_files s"
    "ps_signaled_exit s1 = ps_signaled_exit s"
    using get_pid_of_trace [of os b x s] g1 by simp_all
  obtain ok s2 where rc: "run_rc c os ''restart'' ?s1 = (ok, s2)" by force
  obtain k where k: "k \<le> 5" and t2: "ps_trace s2 = ps_trace s1 @ map System (take k (rc_commands (dns_proxy c) ''restart''))"
    "ps_files s2 = ps_files s1" "ps_signaled_exit s2 = ps_signaled_exit s1"
    using run_rc_trace [of c os "''restart''" ?s1] rc by auto
  obtain np s3 where g3: "get_pid_of os b x s2 = (np, s3)" by force
  have t3: "ps_trace s3 = ps_trace s2 @ [Popen (b @ '' '' @ x)]" "ps_files s3 = ps_files s2"
    "ps_signaled_exit s3 = ps_signaled_exit s2"
    using get_pid_of_trace [of os b x s2] g3 by simp_all
  obtain q s4 where w: "wait_for_pid os b x 30 np s3 = (q, s4)" by force
  obtain m where m: "m \<le> 30"
    "ps_trace s4 = ps_trace s3 @ concat (replicate m [Popen (b @ '' '' @ x), Sleep_ms 100])"
    "ps_files s4 = ps_files s3" "ps_signaled_exit s4 = ps_signaled_exit s3"
    using wait_for_pid_trace [of 30 os b x np s3] w by auto
  have "snd (start_dns_proxy c os b p s) = (if ok then s4 else s2)"
    using assms Inr g1 rc g3 w by (simp add: start_dns_proxy_def Let_def)
  moreover have "start_effect s s2"
    unfolding start_effect_def using k t1 t2
    by (intro conjI exI [of _ "[Popen (b @ '' '' @ x)] @ map System (take k (rc_commands (dns_proxy c) ''restart''))"])
      auto
  moreover have "start_effect s s4"
    unfolding start_effect_def using k t1 t2 t3 m
    by (intro conjI exI [of _ "[Popen (b @ '' '' @ x)] @ map System (take k (rc_commands (dns_proxy c) ''restart'')) @
        [Popen (b @ '' '' @ x)] @ concat (replicate m [Popen (b @ '' '' @ x), Sleep_ms 100])"]) auto
  ultimately show ?thesis by simp
qed

lemma start_effect_own:
  assumes "no_system_dns_proxy c"
  shows "start_effect s (snd (start_dns_proxy c os b p s))"
proof (cases "find_proxy_executable c (ps_files s)")
  case (Inl e)
  with assms show ?thesis
    by (auto simp: start_dns_proxy_def start_effect_def intro: exI [of _ "[]"])
next
  case (Inr x)
  with assms show ?thesis
    by (auto simp: start_dns_proxy_def start_effect_def run_system_def act_def Let_def
        split: prod.split intro: exI [of _ "[System z]" for z])
qed

lemma start_effect: "start_effect s (snd (start_dns_proxy c os b p s))"
  by (cases "no_system_dns_proxy c") (simp_all add: start_effect_system start_effect_own)

text \<open>Starting the proxy always returns: it polls the pid at most 32 times and sleeps at most 30
  times 100 ms, and it changes no file and not the exit flag.\<close>

theorem start_dns_proxy_bounded:
  "\<exists>t. ps_trace (snd (start_dns_proxy c os b p s)) = ps_trace s @ t \<and> sleeps t \<le> 30 \<and> popens t \<le> 32 \<and>
     ps_files (snd (start_dns_proxy c os b p s)) = ps_files s \<and>
     ps_signaled_exit (snd (start_dns_proxy c os b p s)) = ps_signaled_exit s"
  using start_effect [of s c os b p] by (auto simp: start_effect_def)

section \<open>The pid file\<close>

lemma digits_value_append: "digits_value (s @ [c]) = digits_value s * 10 + (of_char c - 48)"
  by (simp add: digits_value_def)

lemma digit_char: "m < 10 \<Longrightarrow> is_digit (char_of (48 + m)) \<and> (of_char (char_of (48 + m) :: char) :: int) = 48 + int m"
  for m :: nat
proof -
  assume m: "m < 10"
  have nat: "(of_char (char_of (48 + m) :: char) :: nat) = 48 + m" using m by (simp add: of_char_of)
  have "(of_char (char_of (48 + m) :: char) :: int) = int (of_char (char_of (48 + m) :: char))"
    by (simp only: of_nat_of_char)
  with nat show ?thesis using m by (simp add: is_digit_def)
qed

lemma show_nat_value: "digits_value (show_nat n) = int n \<and> (\<forall>c \<in> set (show_nat n). is_digit c)"
proof (induction n rule: show_nat.induct)
  case (1 n)
  show ?case
  proof (cases "n < 10")
    case True
    then show ?thesis
      using digit_char [of n] by (subst (1 2) show_nat.simps) (simp add: digits_value_def)
  next
    case False
    with 1 digit_char [of "n mod 10"] show ?thesis
      by (subst (1 2) show_nat.simps) (auto simp: digits_value_append zmod_int zdiv_int)
  qed
qed

lemma digit_not_special: "is_digit c \<Longrightarrow> \<not> is_space c \<and> c \<noteq> CHR ''-'' \<and> c \<noteq> CHR ''+''"
  by (auto simp: is_digit_def is_space_def of_char_def Let_def)

lemma atoi_show_nat: "atoi (show_nat n) = int n" "dropWhile is_space (show_nat n) \<noteq> []"
proof -
  have digits: "\<forall>c \<in> set (show_nat n). is_digit c" using show_nat_value by blast
  obtain c cs where cs: "show_nat n = c # cs" by (cases "show_nat n") auto
  with digits have c: "\<not> is_space c \<and> c \<noteq> CHR ''-'' \<and> c \<noteq> CHR ''+''"
    using digit_not_special by auto
  then have "atoi (c # cs) = digits_value (takeWhile is_digit (c # cs))"
    by (simp add: atoi_def del: takeWhile.simps)
  moreover have "takeWhile is_digit (c # cs) = c # cs"
    using digits unfolding cs by (simp only: takeWhile_eq_all_conv)
  moreover have "digits_value (c # cs) = int n"
    using show_nat_value [of n] unfolding cs by blast
  ultimately show "atoi (show_nat n) = int n" by (simp only: cs)
  show "dropWhile is_space (show_nat n) \<noteq> []" using cs c by simp
qed

lemma pidfile_read:
  assumes "save_pidfile c pid F = Inr F'" and "0 \<le> pid" and "\<not> fs_dirs F (service_pidfile c)"
    and "parent_path (service_pidfile c) \<noteq> service_pidfile c"
  shows "is_already_running c os garbage F' = os_alive os pid"
    and "fs_files F' (service_pidfile c) = Some (show_int pid)" and "\<not> fs_dirs F' (service_pidfile c)"
proof -
  show content: "fs_files F' (service_pidfile c) = Some (show_int pid)" "\<not> fs_dirs F' (service_pidfile c)"
    using assms by (auto simp: save_pidfile_def write_file_def unlink_file_def Let_def run_iff split: if_splits)
  have "read_pid garbage (show_int pid) = pid"
    using assms(2) atoi_show_nat [of "nat pid"] by (auto simp: read_pid_def show_int_def)
  with content show "is_already_running c os garbage F' = os_alive os pid"
    by (simp add: is_already_running_def fs_exists_def)
qed

text \<open>C36: The pid file is read back as it was written: after \<open>save_pidfile\<close> succeeded,
  \<open>is_already_running\<close> holds exactly as long as the process with that pid is alive, and after
  \<open>remove_pidfile\<close> it does not hold.\<close>

theorem pidfile_roundtrip:
  assumes "save_pidfile c pid F = Inr F'" and "0 \<le> pid" and "\<not> fs_dirs F (service_pidfile c)"
    and "parent_path (service_pidfile c) \<noteq> service_pidfile c"
  shows "is_already_running c os garbage F' = os_alive os pid \<and>
    \<not> is_already_running c os garbage (remove_pidfile c F')"
  using pidfile_read [OF assms]
  by (simp add: is_already_running_def fs_exists_def remove_pidfile_def unlink_file_def)

section \<open>The life of the master\<close>

text \<open>The state in which the stop runs the init script, and the action it runs.\<close>

definition before_rc :: "config \<Rightarrow> dnsproxy \<Rightarrow> 'w process \<Rightarrow> 'w process" where
  "before_rc c p s =
     (if dns_proxy_generate_config c
      then act (Unlink (px_config_file_path p))
             (s\<lparr>ps_files := unlink_file (px_config_file_path p) (ps_files s)\<rparr>)
      else s)"

lemma stop_dns_proxy_run:
  "stop_dns_proxy c os p s =
     snd (run_rc c os (if ps_system_proxy_was_running s then ''restart'' else ''stop'') (before_rc c p s))"
  by (simp add: stop_dns_proxy_def before_rc_def act_def)

lemma before_rc_fields:
  "ps_trace (before_rc c p s) =
     ps_trace s @ (if dns_proxy_generate_config c then [Unlink (px_config_file_path p)] else [])"
  "ps_signaled_exit (before_rc c p s) = ps_signaled_exit s"
  by (simp_all add: before_rc_def act_def)

lemma stop_dns_proxy_trace:
  obtains k where "k \<le> 5" "ps_trace (stop_dns_proxy c os p s) = ps_trace s @
     (if dns_proxy_generate_config c then [Unlink (px_config_file_path p)] else []) @
     map System (take k (rc_commands (dns_proxy c)
       (if ps_system_proxy_was_running s then ''restart'' else ''stop'')))"
    "ps_signaled_exit (stop_dns_proxy c os p s) = ps_signaled_exit s"
proof -
  let ?a = "if ps_system_proxy_was_running s then ''restart'' else ''stop''"
  obtain k where "k \<le> 5"
    "ps_trace (snd (run_rc c os ?a (before_rc c p s))) =
       ps_trace (before_rc c p s) @ map System (take k (rc_commands (dns_proxy c) ?a))"
    "ps_files (snd (run_rc c os ?a (before_rc c p s))) = ps_files (before_rc c p s)"
    "ps_signaled_exit (snd (run_rc c os ?a (before_rc c p s))) = ps_signaled_exit (before_rc c p s)"
    by (rule run_rc_trace)
  with that show ?thesis
    by (simp only: stop_dns_proxy_run before_rc_fields append_assoc)
qed

text \<open>An own proxy instance is started with a command of its own, but stopping runs the init script
  of the system's proxy service: no command of the stop mentions the instance.\<close>

theorem own_instance_not_stopped:
  assumes "no_system_dns_proxy c" and "\<not> ps_system_proxy_was_running s"
    and "find_proxy_executable c (ps_files s) = Inr x"
  shows "\<exists>k \<le> 5. ps_trace (stop_dns_proxy c os p (snd (start_dns_proxy c os b p s))) =
    ps_trace s @ [System (x @ '' -v '' @ '' -c '' @ px_config_file_path p)] @
    (if dns_proxy_generate_config c then [Unlink (px_config_file_path p)] else []) @
    map System (take k (rc_commands (dns_proxy c) ''stop''))"
proof -
  let ?s = "snd (start_dns_proxy c os b p s)"
  have "ps_trace ?s = ps_trace s @ [System (x @ '' -v '' @ '' -c '' @ px_config_file_path p)]"
    "\<not> ps_system_proxy_was_running ?s"
    using assms by (auto simp: start_dns_proxy_def run_system_def act_def Let_def split: prod.split)
  moreover obtain k where "k \<le> 5" "ps_trace (stop_dns_proxy c os p ?s) = ps_trace ?s @
     (if dns_proxy_generate_config c then [Unlink (px_config_file_path p)] else []) @
     map System (take k (rc_commands (dns_proxy c)
       (if ps_system_proxy_was_running ?s then ''restart'' else ''stop'')))"
    by (rule stop_dns_proxy_trace)
  ultimately show ?thesis by (intro exI [of _ k]) simp
qed

lemma stop_signaled: "ps_signaled_exit (stop_dns_proxy c os p s) = ps_signaled_exit s"
  by (rule stop_dns_proxy_trace) blast

lemma stop_dns_proxy_files:
  "ps_files (stop_dns_proxy c os p s) =
    (if dns_proxy_generate_config c then unlink_file (px_config_file_path p) (ps_files s) else ps_files s)"
proof -
  have "ps_files (snd (run_rc c os a t)) = ps_files t" for a t
    by (rule run_rc_trace [of c os a t])
  then show ?thesis by (simp add: stop_dns_proxy_def act_def Let_def)
qed

lemma master_signal_files: "ps_files (fold (master_signal wp) sigs s) = ps_files s"
  by (induction sigs arbitrary: s) (simp_all add: master_signal_def unix_stop_def act_def)

lemma master_signals_run:
  "(ps_signaled_exit (fold (master_signal wp) sigs s) \<longleftrightarrow>
      ps_signaled_exit s \<or> SIGTERM \<in> set sigs \<or> SIGINT \<in> set sigs) \<and>
   ps_trace (fold (master_signal wp) sigs s) =
     ps_trace s @ replicate (length (filter master_handles sigs)) (Kill wp SIGTERM)"
proof (induction sigs arbitrary: s)
  case (Cons sig sigs)
  have "ps_trace (master_signal wp sig s) = ps_trace s @ (if master_handles sig then [Kill wp SIGTERM] else [])"
    "ps_signaled_exit (master_signal wp sig s) \<longleftrightarrow> ps_signaled_exit s \<or> sig = SIGTERM \<or> sig = SIGINT"
    by (auto simp: master_signal_def unix_stop_def act_def master_handles_def)
  with Cons.IH [of "master_signal wp sig s"] show ?case by auto
qed simp

text \<open>The run of a master whose pid file is written, whatever becomes of the proxy and the worker.\<close>

lemma process_master_run:
  assumes "save_pidfile c pid (ps_files s) = Inr F"
    and "start_dns_proxy c os b p (s\<lparr>ps_files := F\<rparr>) = (r, s1)"
    and "os_wait_worker os (ps_world s1) = ((sigs, status), w)"
  obtains s' t where "process_master c os b pid wp p s = (Inr (), s')"
    and "ps_files s' = remove_pidfile c
      (if dns_proxy_generate_config c then unlink_file (px_config_file_path p) F else F)"
    and "ps_signaled_exit s' \<longleftrightarrow> ps_signaled_exit s \<or> r \<noteq> Inr () \<or> SIGTERM \<in> set sigs \<or> SIGINT \<in> set sigs \<or>
      (\<exists>sig. status = Killed_by sig \<and> sig \<noteq> SIGTERM \<and> sig \<noteq> SIGINT)"
    and "ps_trace s' = ps_trace s1 @ (if r = Inr () then Post_semaphore else Kill wp SIGTERM) # t"
    and "Post_semaphore \<notin> set t" and "\<And>q sig. Kill q sig \<in> set t \<Longrightarrow> q = wp \<and> sig = SIGTERM"
    and "list_ex master_handles sigs \<Longrightarrow> Kill wp SIGTERM \<in> set t"
proof -
  let ?word = "if r = Inr () then Post_semaphore else Kill wp SIGTERM"
  define s2 where "s2 = (case r of Inr u \<Rightarrow> act Post_semaphore s1
    | Inl e \<Rightarrow> unix_stop wp (s1\<lparr>ps_signaled_exit := True\<rparr>))"
  have s2: "ps_trace s2 = ps_trace s1 @ [?word]" "ps_world s2 = ps_world s1"
    "ps_signaled_exit s2 \<longleftrightarrow> ps_signaled_exit s1 \<or> r \<noteq> Inr ()"
    by (auto simp: s2_def act_def unix_stop_def split: sum.split)
  have wait: "os_wait_worker os (ps_world s2) = ((sigs, status), w)"
    using assms(3) s2(2) by simp
  define s3 where "s3 = fold (master_signal wp) sigs (act Wait_worker (s2\<lparr>ps_world := w\<rparr>))"
  have s3: "ps_trace s3 = ps_trace s1 @ ?word # Wait_worker # replicate (length (filter master_handles sigs)) (Kill wp SIGTERM)"
    "ps_signaled_exit s3 \<longleftrightarrow> ps_signaled_exit s1 \<or> r \<noteq> Inr () \<or> SIGTERM \<in> set sigs \<or> SIGINT \<in> set sigs"
    using master_signals_run [of wp sigs "act Wait_worker (s2\<lparr>ps_world := w\<rparr>)"]
    by (auto simp: s3_def s2 act_def)
  define s4 where "s4 = (case status of
      Killed_by sig \<Rightarrow> if sig \<noteq> SIGTERM \<and> sig \<noteq> SIGINT then s3\<lparr>ps_signaled_exit := True\<rparr> else s3
    | _ \<Rightarrow> s3)"
  have s4: "ps_trace s4 = ps_trace s3" "ps_signaled_exit s4 \<longleftrightarrow> ps_signaled_exit s3 \<or>
      (\<exists>sig. status = Killed_by sig \<and> sig \<noteq> SIGTERM \<and> sig \<noteq> SIGINT)"
    by (auto simp: s4_def split: wait_status.split)
  let ?s5 = "stop_dns_proxy c os p s4"
  obtain l where s5: "ps_trace ?s5 = ps_trace s4 @
      (if dns_proxy_generate_config c then [Unlink (px_config_file_path p)] else []) @
      map System (take l (rc_commands (dns_proxy c)
        (if ps_system_proxy_was_running s4 then ''restart'' else ''stop'')))"
    by (rule stop_dns_proxy_trace)
  let ?s' = "act (Unlink (service_pidfile c)) (?s5\<lparr>ps_files := remove_pidfile c (ps_files ?s5)\<rparr>)"
  have "process_master c os b pid wp p s = (Inr (), ?s')"
    using wait unfolding s4_def s3_def s2_def by (simp add: process_master_def assms(1,2) Let_def)
  moreover have "ps_files ?s' = remove_pidfile c
      (if dns_proxy_generate_config c then unlink_file (px_config_file_path p) F else F)"
  proof -
    have "ps_files s1 = F"
      using start_effect [of "s\<lparr>ps_files := F\<rparr>" c os b p] assms(2) by (simp add: start_effect_def)
    then have "ps_files s2 = F" by (simp add: s2_def act_def unix_stop_def split: sum.split)
    then have "ps_files s3 = F" by (simp add: s3_def master_signal_files act_def)
    then have "ps_files s4 = F" by (simp add: s4_def split: wait_status.split)
    then show ?thesis by (simp add: act_def stop_dns_proxy_files)
  qed
  moreover have "ps_signaled_exit s1 = ps_signaled_exit s"
    using start_effect [of "s\<lparr>ps_files := F\<rparr>" c os b p] assms(2) by (simp add: start_effect_def)
  ultimately show ?thesis
    using that [of ?s'] s3 s4 s5 by (auto simp: act_def stop_signaled list_ex_iff filter_empty_conv split: if_splits)
qed

text \<open>C37: When the master's run ends, the pid file is gone; the semaphore that lets the worker begin
  was posted exactly when the proxy had started, and a start that failed has disabled the
  restart.\<close>

theorem master_cleans_up:
  assumes "process_master c os b pid wp p s = (Inr (), s')"
    and "save_pidfile c pid (ps_files s) = Inr F"
    and "start_dns_proxy c os b p (s\<lparr>ps_files := F\<rparr>) = (r, s1)"
    and "Post_semaphore \<notin> set (ps_trace s)"
  shows "fs_files (ps_files s') (service_pidfile c) = None \<and>
    (Post_semaphore \<in> set (ps_trace s') \<longleftrightarrow> r = Inr ()) \<and> (r \<noteq> Inr () \<longrightarrow> ps_signaled_exit s')"
proof -
  obtain sigs status w where wait: "os_wait_worker os (ps_world s1) = ((sigs, status), w)"
    by (metis prod.exhaust)
  have "Post_semaphore \<notin> set (ps_trace s1)"
    using start_effect [of "s\<lparr>ps_files := F\<rparr>" c os b p] assms(3,4) by (auto simp: start_effect_def)
  moreover obtain t where "ps_files s' = remove_pidfile c
      (if dns_proxy_generate_config c then unlink_file (px_config_file_path p) F else F)"
    "r \<noteq> Inr () \<Longrightarrow> ps_signaled_exit s'"
    "ps_trace s' = ps_trace s1 @ (if r = Inr () then Post_semaphore else Kill wp SIGTERM) # t"
    "Post_semaphore \<notin> set t"
    by (rule process_master_run [OF assms(2,3) wait, of wp]) (use assms(1) in auto)
  ultimately show ?thesis by (auto simp: remove_pidfile_def unlink_file_def)
qed

text \<open>The master signals nothing but its worker, and that with SIGTERM.\<close>

theorem master_signals_only_worker:
  assumes "Kill q sig \<in> set (ps_trace (snd (process_master c os b pid wp p s)))"
  shows "Kill q sig \<in> set (ps_trace s) \<or> q = wp \<and> sig = SIGTERM"
proof (cases "save_pidfile c pid (ps_files s)")
  case (Inl e)
  with assms show ?thesis by (simp add: process_master_def)
next
  case (Inr F)
  obtain r s1 where start: "start_dns_proxy c os b p (s\<lparr>ps_files := F\<rparr>) = (r, s1)"
    by (metis prod.exhaust)
  obtain sigs status w where wait: "os_wait_worker os (ps_world s1) = ((sigs, status), w)"
    by (metis prod.exhaust)
  obtain s' t where "process_master c os b pid wp p s = (Inr (), s')"
    "ps_trace s' = ps_trace s1 @ (if r = Inr () then Post_semaphore else Kill wp SIGTERM) # t"
    "\<And>q sig. Kill q sig \<in> set t \<Longrightarrow> q = wp \<and> sig = SIGTERM"
    by (rule process_master_run [OF Inr start wait, of wp]) blast
  moreover have "Kill q sig \<in> set (ps_trace s1) \<Longrightarrow> Kill q sig \<in> set (ps_trace s)"
    using start_effect [of "s\<lparr>ps_files := F\<rparr>" c os b p] start by (auto simp: start_effect_def)
  ultimately show ?thesis using assms by (auto split: if_splits)
qed

end
