(* ===== verification/Dbl_Http.thy ===== *)
theory Dbl_Http
  imports Dbl_Types
begin

text \<open>
  HTTP: the header parser (\<open>src/dbl/util/http.cxx\<close>), the response object and the client request
  (\<open>src/dbl/net/http\<close>).  libcurl is the parameter \<open>curl\<close>: whether it accepts an option, and what
  a transfer with the accepted options delivers, over a network state \<open>'n\<close>.  The date functions
  of the C library are the parameter \<open>http_date\<close>.
\<close>

section \<open>Headers\<close>

type_synonym headers = "string \<Rightarrow> string option"

definition header_of_line :: "string \<Rightarrow> (string \<times> string) option" where
  "header_of_line line =
     (case find_char (CHR '':'') line of
        None \<Rightarrow> None
      | Some idx \<Rightarrow> Some (trim_copy (take idx line), trim_copy (drop (idx + 1) line)))"

text \<open>\<open>headers.insert\<close> keeps the value of a name that is there already.\<close>

definition insert_header :: "string \<times> string \<Rightarrow> headers \<Rightarrow> headers" where
  "insert_header kv h = (case h (fst kv) of None \<Rightarrow> h(fst kv \<mapsto> snd kv) | Some w \<Rightarrow> h)"

definition parse_headers :: "string \<Rightarrow> headers \<Rightarrow> headers" where
  "parse_headers raw h =
     fold (\<lambda>line h. case header_of_line line of None \<Rightarrow> h | Some kv \<Rightarrow> insert_header kv h)
       (split_at_char (CHR 0x0D) raw) h"

section \<open>Response\<close>

record response =
  re_raw_headers :: string
  re_body :: string
  re_status_code :: int
  re_headers :: headers

definition new_response :: response where
  "new_response = \<lparr>re_raw_headers = [], re_body = [], re_status_code = 0, re_headers = Map.empty\<rparr>"

definition get_header :: "response \<Rightarrow> string \<Rightarrow> string" where
  "get_header r name = (case re_headers r name of Some v \<Rightarrow> v | None \<Rightarrow> [])"

definition is_code :: "response \<Rightarrow> int \<Rightarrow> bool" where
  "is_code r code \<longleftrightarrow> re_status_code r = code"

text \<open>
  \<open>hd_parse\<close> is \<open>strptime\<close> with the code's format followed by \<open>mktime\<close> (\<open>None\<close>: no match);
  \<open>hd_format\<close> is \<open>localtime\<close> followed by \<open>strftime\<close>.
\<close>

record http_date =
  hd_parse :: "string \<Rightarrow> int option"
  hd_format :: "int \<Rightarrow> string"

definition get_last_modified :: "http_date \<Rightarrow> response \<Rightarrow> int" where
  "get_last_modified T r =
     (let lm = get_header r ''Last-Modified''
      in if lm = [] then 0
         else (case hd_parse T (c_str lm) of None \<Rightarrow> 0 | Some epoch \<Rightarrow> epoch))"

definition response_parse_headers :: "response \<Rightarrow> response" where
  "response_parse_headers r = r\<lparr>re_headers := parse_headers (re_raw_headers r) (re_headers r)\<rparr>"

section \<open>Request\<close>

datatype curl_option =
    Opt_url string
  | Opt_followlocation
  | Opt_ssl_verifypeer bool
  | Opt_ssl_verifyhost bool
  | Opt_headerfunction
  | Opt_headerdata
  | Opt_nobody
  | Opt_writefunction
  | Opt_writedata

text \<open>What a transfer does: its code (0 is \<open>CURLE_OK\<close>), the chunks it hands to the two writers,
  and the response code.\<close>

record transfer =
  tr_code :: int
  tr_header_chunks :: "string list"
  tr_body_chunks :: "string list"
  tr_response_code :: int

record 'n curl =
  cu_setopt :: "curl_option \<Rightarrow> bool"
  cu_perform :: "curl_option list \<Rightarrow> 'n \<Rightarrow> transfer \<times> 'n"
  cu_strerror :: "int \<Rightarrow> string"

record request =
  rq_url :: string
  rq_ssl_verify_peer :: bool
  rq_ssl_verify_host :: bool
  rq_headers :: headers
  rq_error :: string
  rq_options :: "curl_option list"
  rq_curl_headers :: "string list"

definition new_request :: "string \<Rightarrow> request" where
  "new_request url = \<lparr>rq_url = url, rq_ssl_verify_peer = True, rq_ssl_verify_host = True,
     rq_headers = Map.empty, rq_error = [], rq_options = [],
     rq_curl_headers = []\<rparr>"

text \<open>The callback: the number of bytes taken, and the sink afterwards; \<open>None\<close> is a null sink.\<close>

fun writer :: "string \<Rightarrow> string option \<Rightarrow> nat \<times> string option" where
  "writer data None = (0, None)"
| "writer data (Some sink) = (length data, Some (sink @ data))"

definition setopt :: "'n curl \<Rightarrow> curl_option \<Rightarrow> request \<Rightarrow> bool \<times> request" where
  "setopt C opt rq =
     (if cu_setopt C opt then (True, rq\<lparr>rq_options := rq_options rq @ [opt]\<rparr>) else (False, rq))"

definition prepare_url :: "'n curl \<Rightarrow> request \<Rightarrow> bool \<times> request" where
  "prepare_url C rq = setopt C (Opt_url (c_str (rq_url rq))) rq"

definition prepare_follow_location :: "'n curl \<Rightarrow> request \<Rightarrow> bool \<times> request" where
  "prepare_follow_location C rq = setopt C Opt_followlocation rq"

definition prepare_ssl_verify :: "'n curl \<Rightarrow> request \<Rightarrow> bool \<times> request" where
  "prepare_ssl_verify C rq =
     (case setopt C (Opt_ssl_verifypeer (rq_ssl_verify_peer rq)) rq of
        (False, rq) \<Rightarrow> (False, rq)
      | (True, rq) \<Rightarrow>
          if \<not> rq_ssl_verify_host rq then setopt C (Opt_ssl_verifyhost False) rq else (True, rq))"

text \<open>Nothing calls \<open>prepare_headers\<close>; \<open>order\<close> gives the keys as the container iterates over them.\<close>

definition prepare_headers :: "(headers \<Rightarrow> string list) \<Rightarrow> request \<Rightarrow> bool \<times> request" where
  "prepare_headers order rq =
     (let h = (rq_headers rq)(''X-Client-Software'' \<mapsto> ''DNSBlocker/Updater'')
      in (True, rq\<lparr>rq_headers := h,
           rq_curl_headers := rq_curl_headers rq @ map (\<lambda>k. k @ '':'' @ the (h k)) (order h)\<rparr>))"

definition prepare_header_writer :: "'n curl \<Rightarrow> request \<Rightarrow> bool \<times> request" where
  "prepare_header_writer C rq =
     (case setopt C Opt_headerfunction rq of
        (False, rq) \<Rightarrow> (False, rq)
      | (True, rq) \<Rightarrow> setopt C Opt_headerdata rq)"

definition prepare_no_body :: "'n curl \<Rightarrow> request \<Rightarrow> bool \<times> request" where
  "prepare_no_body C rq = setopt C Opt_nobody rq"

definition prepare_body_writer :: "'n curl \<Rightarrow> request \<Rightarrow> bool \<times> request" where
  "prepare_body_writer C rq =
     (case setopt C Opt_writefunction rq of
        (False, rq) \<Rightarrow> (False, rq)
      | (True, rq) \<Rightarrow> setopt C Opt_writedata rq)"

text \<open>\<open>prepare\<close> logs the failures of its steps and goes on; it always returns true.\<close>

definition prepare :: "'n curl \<Rightarrow> request \<Rightarrow> bool \<times> request" where
  "prepare C rq =
     (let (ok, rq) = prepare_url C rq;
          (ok, rq) = prepare_follow_location C rq;
          (ok, rq) = prepare_ssl_verify C rq;
          (ok, rq) = prepare_header_writer C rq;
          (ok, rq) = prepare_body_writer C rq
      in (True, rq))"

definition run_writer :: "string list \<Rightarrow> string \<Rightarrow> string" where
  "run_writer chunks sink =
     (case fold (\<lambda>c s. snd (writer c s)) chunks (Some sink) of Some s \<Rightarrow> s | None \<Rightarrow> [])"

definition execute ::
  "'n curl \<Rightarrow> request \<Rightarrow> response \<Rightarrow> 'n \<Rightarrow> (bool \<times> response \<times> request) \<times> 'n" where
  "execute C rq r net =
     (let (t, net) = cu_perform C (rq_options rq) net;
          ok = (tr_code t = 0);
          r = r\<lparr>re_raw_headers := run_writer (tr_header_chunks t) (re_raw_headers r),
                re_body := run_writer (tr_body_chunks t) (re_body r)\<rparr>;
          rq = (if \<not> ok then rq\<lparr>rq_error := cu_strerror C (tr_code t)\<rparr> else rq);
          r = (if ok then r\<lparr>re_status_code := tr_response_code t\<rparr> else r)
      in ((ok, response_parse_headers r, rq), net))"

text \<open>The null pointer of a failed request is \<open>None\<close>.\<close>

definition fetch :: "'n curl \<Rightarrow> request \<Rightarrow> 'n \<Rightarrow> (response option \<times> request) \<times> 'n" where
  "fetch C rq net =
     (let (u, rq) = prepare C rq;
          ((ok, r, rq), net) = execute C rq new_response net
      in ((if ok then Some r else None, rq), net))"

definition request_head :: "'n curl \<Rightarrow> request \<Rightarrow> 'n \<Rightarrow> (response option \<times> request) \<times> 'n" where
  "request_head C rq net =
     (let (u, rq) = prepare C rq;
          (v, rq) = prepare_no_body C rq;
          ((ok, r, rq), net) = execute C rq new_response net
      in ((if ok then Some r else None, rq), net))"

definition set_header :: "string \<Rightarrow> string \<Rightarrow> request \<Rightarrow> request" where
  "set_header k v rq = rq\<lparr>rq_headers := (rq_headers rq)(k \<mapsto> v)\<rparr>"

definition set_if_modified_since :: "http_date \<Rightarrow> int \<Rightarrow> request \<Rightarrow> request" where
  "set_if_modified_since T tstamp rq = set_header ''If-Modified-Since'' (hd_format T tstamp) rq"

section \<open>Properties of the header parser\<close>

text \<open>A header line as a sender writes it, and what it may hold.\<close>

definition header_line :: "string \<times> string \<Rightarrow> string" where
  "header_line kv = fst kv @ '': '' @ snd kv @ CRLF"

definition trimmed :: "string \<Rightarrow> bool" where
  "trimmed s \<longleftrightarrow> s = [] \<or> (\<not> is_space (hd s) \<and> \<not> is_space (last s))"

definition good_header :: "string \<times> string \<Rightarrow> bool" where
  "good_header kv \<longleftrightarrow> trimmed (fst kv) \<and> trimmed (snd kv) \<and> CHR '':'' \<notin> set (fst kv) \<and>
     CHR 0x0D \<notin> set (fst kv) \<and> CHR 0x0D \<notin> set (snd kv)"

lemma space_chars [simp]: "is_space (CHR 0x0A)" "is_space (CHR '' '')" "is_space (CHR 0x0D)"
  by code_simp+

lemma trim_trimmed: "trimmed s \<Longrightarrow> trim_copy s = s"
  unfolding trimmed_def by (rule trim_copy_id)

lemma header_of_good_line:
  assumes "good_header (k, v)" and "pre = [] \<or> pre = [CHR 0x0A]"
  shows "header_of_line (pre @ k @ '': '' @ v) = Some (k, v)"
proof -
  have "CHR '':'' \<notin> set (pre @ k)"
    using assms by (auto simp: good_header_def)
  then have "find_char (CHR '':'') ((pre @ k) @ CHR '':'' # ('' '' @ v)) = Some (length (pre @ k))"
    by (rule find_char_append)
  moreover have "trim_copy (pre @ k) = k" and "trim_copy ('' '' @ v) = v"
    using assms trim_trimmed [of k] trim_trimmed [of v]
    by (auto simp: good_header_def trim_copy_Cons_space)
  ultimately show ?thesis by (simp add: header_of_line_def)
qed

definition parse_lines :: "string list \<Rightarrow> headers \<Rightarrow> headers" where
  "parse_lines = fold (\<lambda>line h. case header_of_line line of None \<Rightarrow> h | Some kv \<Rightarrow> insert_header kv h)"

lemma parse_headers_lines: "parse_headers raw h = parse_lines (split_at_char (CHR 0x0D) raw) h"
  by (simp add: parse_headers_def parse_lines_def)

lemma split_header_block:
  assumes "\<forall>kv \<in> set kvs. good_header kv" and "pre = [] \<or> pre = [CHR 0x0A]"
  shows "parse_lines (split_at_char (CHR 0x0D) (pre @ concat (map header_line kvs) @ rest)) h =
    parse_lines (split_at_char (CHR 0x0D) ((if kvs = [] then pre else [CHR 0x0A]) @ rest))
      (fold insert_header kvs h)"
  using assms
proof (induction kvs arbitrary: h pre)
  case (Cons kv kvs)
  obtain k v where kv: "kv = (k, v)" by (cases kv)
  from Cons.prems kv have good: "good_header (k, v)" by simp
  let ?line = "pre @ k @ '': '' @ v"
  let ?tail = "[CHR 0x0A] @ concat (map header_line kvs) @ rest"
  have "CHR 0x0D \<notin> set ?line" using good Cons.prems(2) by (auto simp: good_header_def)
  then have split: "split_at_char (CHR 0x0D) (?line @ CHR 0x0D # ?tail) =
      ?line # split_at_char (CHR 0x0D) ?tail"
    by (rule split_at_char_append)
  have whole: "pre @ concat (map header_line (kv # kvs)) @ rest = ?line @ CHR 0x0D # ?tail"
    by (simp add: kv header_line_def CRLF_eq)
  have "parse_lines (?line # ls) h = parse_lines ls (insert_header kv h)" for ls
    using header_of_good_line [OF good Cons.prems(2)] kv by (simp add: parse_lines_def)
  with Cons.IH [of "[CHR 0x0A]" "insert_header kv h"] Cons.prems(1) show ?case
    by (simp only: whole split) simp
qed simp

lemma insert_header_apply:
  "insert_header kv h k =
     (case h k of Some v \<Rightarrow> Some v | None \<Rightarrow> if k = fst kv then Some (snd kv) else None)"
  by (simp add: insert_header_def split: option.splits)

lemma insert_header_fold:
  "fold insert_header kvs h = (\<lambda>k. case h k of Some v \<Rightarrow> Some v | None \<Rightarrow> map_of kvs k)"
proof (induction kvs arbitrary: h)
  case (Cons kv kvs)
  show ?case
    unfolding fold_Cons comp_apply Cons.IH
    by (simp add: insert_header_apply fun_eq_iff split: option.splits)
qed (auto simp: fun_eq_iff split: option.splits)

lemma parse_lines_skip: "CHR '':'' \<notin> set s \<Longrightarrow> parse_lines (s # ls) h = parse_lines ls h"
  by (simp add: parse_lines_def header_of_line_def find_char_None [THEN iffD2])

lemma parse_lines_no_colon:
  assumes "CHR '':'' \<notin> set s"
  shows "parse_lines (split_at_char c s) h = h"
proof -
  have "parse_lines ls h = h" if "\<forall>l \<in> set ls. CHR '':'' \<notin> set l" for ls
    using that by (induction ls) (simp add: parse_lines_def, simp add: parse_lines_skip)
  with assms split_at_char_subset [of _ c s] show ?thesis by blast
qed

lemma parse_headers_block:
  assumes "\<forall>kv \<in> set kvs. good_header kv"
    and "CHR '':'' \<notin> set start" and "CHR 0x0D \<notin> set start" and "CHR '':'' \<notin> set tail"
  shows "parse_headers (start @ CRLF @ concat (map header_line kvs) @ tail) h =
    (\<lambda>k. case h k of Some v \<Rightarrow> Some v | None \<Rightarrow> map_of kvs k)"
proof -
  let ?tail = "[CHR 0x0A] @ concat (map header_line kvs) @ tail"
  have "split_at_char (CHR 0x0D) (start @ CHR 0x0D # ?tail) =
      start # split_at_char (CHR 0x0D) ?tail"
    using assms(3) by (rule split_at_char_append)
  moreover have "start @ CRLF @ concat (map header_line kvs) @ tail = start @ CHR 0x0D # ?tail"
    by (simp add: CRLF_eq)
  ultimately have "parse_headers (start @ CRLF @ concat (map header_line kvs) @ tail) h =
      parse_lines (split_at_char (CHR 0x0D) ?tail) h"
    by (simp only: parse_headers_lines parse_lines_skip [OF assms(2)])
  also have "\<dots> = parse_lines (split_at_char (CHR 0x0D) ([CHR 0x0A] @ tail)) (fold insert_header kvs h)"
    using split_header_block [OF assms(1), of "[CHR 0x0A]" tail h] by simp
  also have "\<dots> = fold insert_header kvs h"
    by (rule parse_lines_no_colon) (use assms(4) in simp)
  finally show ?thesis by (simp only: insert_header_fold)
qed

text \<open>C24: A message that starts with a line without a colon and goes on with header lines
  "name: value" (and ends without a colon) is parsed into exactly these headers; of two headers with the same name the
  first counts, and a name that was known before keeps its value.\<close>

theorem parse_headers_message:
  assumes "\<forall>kv \<in> set kvs. good_header kv"
    and "CHR '':'' \<notin> set start" and "CHR 0x0D \<notin> set start" and "CHR '':'' \<notin> set tail"
  shows "parse_headers (start @ CRLF @ concat (map header_line kvs) @ tail) h =
    (\<lambda>k. case h k of Some v \<Rightarrow> Some v | None \<Rightarrow> map_of kvs k)"
  using assms by (rule parse_headers_block)

theorem parse_headers_message_witness:
  "parse_headers (''GET / HTTP/1.1'' @ CRLF @
     concat (map header_line [(''Host'', ''ads.example.org''), (''Accept'', ''*/*'')]) @ CRLF) Map.empty ''Host''
   = Some ''ads.example.org''"
  using parse_headers_message [of "[(''Host'', ''ads.example.org''), (''Accept'', ''*/*'')]"
      "''GET / HTTP/1.1''" CRLF Map.empty]
  by (simp add: CRLF_eq good_header_def trimmed_def is_space_def of_char_def)

section \<open>Properties of the request\<close>

lemma run_writer_concat: "run_writer chunks sink = sink @ concat chunks"
proof -
  have "fold (\<lambda>c s. snd (writer c s)) chunks (Some sink) = Some (sink @ concat chunks)"
    by (induction chunks arbitrary: sink) simp_all
  then show ?thesis by (simp add: run_writer_def)
qed

text \<open>The options a request gives to the handle, when all are accepted.\<close>

definition fetch_options :: "request \<Rightarrow> curl_option list" where
  "fetch_options rq =
     [Opt_url (c_str (rq_url rq)), Opt_followlocation, Opt_ssl_verifypeer (rq_ssl_verify_peer rq)] @
     (if rq_ssl_verify_host rq then [] else [Opt_ssl_verifyhost False]) @
     [Opt_headerfunction, Opt_headerdata, Opt_writefunction, Opt_writedata]"

lemma prepare_run:
  assumes "\<forall>opt. cu_setopt C opt"
  shows "prepare C rq = (True, rq\<lparr>rq_options := rq_options rq @ fetch_options rq\<rparr>)"
  using assms
  by (simp add: prepare_def prepare_url_def prepare_follow_location_def prepare_ssl_verify_def
      prepare_header_writer_def prepare_body_writer_def setopt_def fetch_options_def)

text \<open>A request performs one transfer with url, redirects, peer verification and both writers
  set; when it succeeds the response holds the status code, the concatenated body chunks and the
  headers parsed from the concatenated header chunks, and when it fails there is no response and
  the request keeps curl's message.\<close>

theorem fetch_spec:
  assumes "\<forall>opt. cu_setopt C opt"
    and "cu_perform C (rq_options rq @ fetch_options rq) net = (t, net')"
  shows "\<exists>rq'. fetch C rq net =
    ((if tr_code t = 0
      then Some \<lparr>re_raw_headers = concat (tr_header_chunks t), re_body = concat (tr_body_chunks t),
                 re_status_code = tr_response_code t,
                 re_headers = parse_headers (concat (tr_header_chunks t)) Map.empty\<rparr>
      else None, rq'), net') \<and>
    rq_error rq' = (if tr_code t = 0 then rq_error rq else cu_strerror C (tr_code t))"
  by (simp add: fetch_def prepare_run [OF assms(1)] execute_def assms(2) run_writer_concat
      new_response_def response_parse_headers_def)

text \<open>No step of \<open>prepare\<close> reads the headers, nor the list made of them for libcurl.\<close>

definition with_headers :: "headers \<Rightarrow> string list \<Rightarrow> request \<Rightarrow> request" where
  "with_headers h l rq = rq\<lparr>rq_headers := h, rq_curl_headers := l\<rparr>"

lemma with_headers_sel [simp]:
  "rq_options (with_headers h l rq) = rq_options rq" "rq_error (with_headers h l rq) = rq_error rq"
  "rq_url (with_headers h l rq) = rq_url rq" "rq_ssl_verify_peer (with_headers h l rq) = rq_ssl_verify_peer rq"
  "rq_ssl_verify_host (with_headers h l rq) = rq_ssl_verify_host rq"
  "rq_error_update f (with_headers h l rq) = with_headers h l (rq_error_update f rq)"
  by (simp_all add: with_headers_def)

lemma setopt_headers: "setopt C opt (with_headers h l rq) = apsnd (with_headers h l) (setopt C opt rq)"
  by (simp add: setopt_def with_headers_def)

lemma prepare_steps_headers:
  "prepare_url C (with_headers h l rq) = apsnd (with_headers h l) (prepare_url C rq)"
  "prepare_follow_location C (with_headers h l rq) = apsnd (with_headers h l) (prepare_follow_location C rq)"
  "prepare_ssl_verify C (with_headers h l rq) = apsnd (with_headers h l) (prepare_ssl_verify C rq)"
  "prepare_header_writer C (with_headers h l rq) = apsnd (with_headers h l) (prepare_header_writer C rq)"
  "prepare_body_writer C (with_headers h l rq) = apsnd (with_headers h l) (prepare_body_writer C rq)"
  by (simp_all add: prepare_url_def prepare_follow_location_def prepare_ssl_verify_def
      prepare_header_writer_def prepare_body_writer_def setopt_headers case_prod_beta Let_def split: bool.split)

lemma prepare_headers_unread: "prepare C (with_headers h l rq) = apsnd (with_headers h l) (prepare C rq)"
  by (simp add: prepare_def prepare_steps_headers case_prod_beta)

lemma fetch_ignores_headers:
  "fetch C (with_headers h l rq) net = apfst (apsnd (with_headers h l)) (fetch C rq net)"
  by (simp add: fetch_def execute_def prepare_headers_unread case_prod_beta Let_def)

text \<open>The header that \<open>set_if_modified_since\<close> sets never reaches the server: a fetch gives the
  same response, error and network state with it and without it.\<close>

theorem if_modified_since_not_sent:
  "let (a, net_a) = fetch C (set_if_modified_since T s rq) net; (b, net_b) = fetch C rq net
   in fst a = fst b \<and> rq_error (snd a) = rq_error (snd b) \<and> net_a = net_b"
proof -
  have "set_if_modified_since T s rq =
      with_headers ((rq_headers rq)(''If-Modified-Since'' \<mapsto> hd_format T s)) (rq_curl_headers rq) rq"
    by (simp add: set_if_modified_since_def set_header_def with_headers_def)
  then show ?thesis by (simp add: fetch_ignores_headers case_prod_beta Let_def)
qed

text \<open>To call \<open>prepare_headers\<close> would not help: it makes the list of the headers, but no option of
  libcurl is ever set to it.\<close>

theorem prepare_headers_sends_nothing:
  "let (a, net_a) = fetch C (snd (prepare_headers order (set_if_modified_since T s rq))) net;
       (b, net_b) = fetch C rq net
   in fst a = fst b \<and> rq_error (snd a) = rq_error (snd b) \<and> net_a = net_b"
proof -
  have "\<exists>h l. snd (prepare_headers order (set_if_modified_since T s rq)) = with_headers h l rq"
    by (auto simp: prepare_headers_def set_if_modified_since_def set_header_def with_headers_def Let_def)
  then show ?thesis by (auto simp: fetch_ignores_headers case_prod_beta Let_def)
qed

end
