(* ===== verification/Dbl_Updater.thy ===== *)
theory Dbl_Updater
  imports Dbl_Managers Dbl_Http Dbl_Config
begin

text \<open>
  The list updater (\<open>src/dbl/updater\<close>): for every wanted list it asks the list's url, and imports
  the answer when it is newer than the list.  The result of a step is the flag \<open>is_updated_\<close> (or an
  exception, or the crash that \<open>import\<close> can end in), the database and the network state.
\<close>

section \<open>The update loop\<close>

definition UPDATE_URL :: string where "UPDATE_URL = ''http://noise-nation.net/lists''"

definition do_update :: "config \<Rightarrow> domain_list \<Rightarrow> bool" where
  "do_update c lst \<longleftrightarrow> list_ids c = [] \<or> dl_name lst \<in> set (list_ids c)"

definition update_url :: "domain_list \<Rightarrow> string" where
  "update_url lst =
     (if dl_url lst \<noteq> [] then dl_url lst else UPDATE_URL @ ''/'' @ dl_name lst @ ''.json'')"

text \<open>The catch clause for \<open>std::runtime_error\<close> of the loop body.\<close>

definition caught :: "exn \<Rightarrow> bool \<Rightarrow> bool outcome" where
  "caught e updated = (if is_runtime_error e then Ok updated else Throw e)"

definition import_answer ::
  "jsoncpp \<Rightarrow> resolver \<Rightarrow> domain_list \<Rightarrow> response \<Rightarrow> bool \<Rightarrow> db \<Rightarrow> bool outcome \<times> db" where
  "import_answer J R lst r updated d =
     (case domain_list_from_json J R (re_body r) lst of
        Inl e \<Rightarrow> (caught e updated, d)
      | Inr lst \<Rightarrow>
          (case dlm_import lst False d of
             (Ok b, d) \<Rightarrow> (Ok True, d)
           | (Throw e, d) \<Rightarrow> (caught e updated, d)
           | (Crash, d) \<Rightarrow> (Crash, d)))"

definition update_one ::
  "'n curl \<Rightarrow> http_date \<Rightarrow> jsoncpp \<Rightarrow> resolver \<Rightarrow> domain_list \<Rightarrow> bool \<Rightarrow> db \<times> 'n
   \<Rightarrow> bool outcome \<times> db \<times> 'n" where
  "update_one C T J R lst updated s =
     (let (d, net) = s;
          rq = set_if_modified_since T (dl_mtime lst) (new_request (update_url lst));
          ((response, rq), net) = fetch C rq net;
          last_modified = (case response of Some r \<Rightarrow> get_last_modified T r | None \<Rightarrow> 0)
      in if last_modified = 0 \<or> dl_mtime lst < last_modified
         then (let ((response, rq), net) = fetch C rq net
               in (case response of
                     None \<Rightarrow> (Ok updated, d, net)
                   | Some r \<Rightarrow> (let (res, d) = import_answer J R lst r updated d in (res, d, net))))
         else (Ok updated, d, net))"

fun update_loop ::
  "config \<Rightarrow> 'n curl \<Rightarrow> http_date \<Rightarrow> jsoncpp \<Rightarrow> resolver \<Rightarrow> domain_list list \<Rightarrow> bool \<Rightarrow> db \<times> 'n
   \<Rightarrow> bool outcome \<times> db \<times> 'n" where
  "update_loop c C T J R [] updated s = (Ok updated, s)"
| "update_loop c C T J R (lst # lsts) updated s =
     (if do_update c lst
      then (case update_one C T J R lst updated s of
              (Ok updated, s) \<Rightarrow> update_loop c C T J R lsts updated s
            | (Throw e, s) \<Rightarrow> (Throw e, s)
            | (Crash, s) \<Rightarrow> (Crash, s))
      else update_loop c C T J R lsts updated s)"

text \<open>\<open>Updater::run\<close>, which resets the flag and calls \<open>update_lists\<close>.\<close>

definition updater_run ::
  "config \<Rightarrow> 'n curl \<Rightarrow> http_date \<Rightarrow> jsoncpp \<Rightarrow> resolver \<Rightarrow> db \<times> 'n \<Rightarrow> bool outcome \<times> db \<times> 'n" where
  "updater_run c C T J R s =
     (if disable_list_update c then (Ok False, s)
      else (let (d, net) = s; (lsts, d) = dlm_get_all d
            in update_loop c C T J R lsts False (d, net)))"

section \<open>Every run is a sequence of manager operations\<close>

abbreviation db_steps :: "resolver \<Rightarrow> db \<Rightarrow> db \<Rightarrow> bool" where
  "db_steps R \<equiv> (db_step R)\<^sup>*\<^sup>*"

lemma db_steps_reachable: "db_steps R d d' \<Longrightarrow> db_reachable R d \<Longrightarrow> db_reachable R d'"
  by (induction rule: rtranclp_induct) (auto intro: reach_step)

lemma import_answer_steps: "db_steps R d (snd (import_answer J R lst r updated d))"
proof -
  have "db_steps R d (snd (dlm_import l False d))" for l
    using step_import [of R d l False] by blast
  then show ?thesis
    by (auto simp: import_answer_def case_prod_beta split: sum.split outcome.split)
qed

lemma update_one_steps: "db_steps R (fst s) (fst (snd (update_one C T J R lst updated s)))"
  using import_answer_steps [of R "fst s" J lst]
  by (simp add: update_one_def case_prod_beta Let_def split: option.split)

lemma update_loop_steps: "db_steps R (fst s) (fst (snd (update_loop c C T J R lsts updated s)))"
proof (induction lsts arbitrary: updated s)
  case (Cons lst lsts)
  obtain res s' where one: "update_one C T J R lst updated s = (res, s')" by (rule prod.exhaust)
  with update_one_steps [of R s C T J lst updated] have "db_steps R (fst s) (fst s')" by simp
  moreover have "db_steps R (fst s') (fst (snd (update_loop c C T J R lsts u s')))" for u
    by (rule Cons.IH)
  ultimately show ?case
    using one Cons.IH [of s updated] by (auto split: outcome.split intro: rtranclp_trans)
qed simp

text \<open>Whatever the servers answer and whatever sessions fail, a run of the updater is a
  sequence of operations of the managers, so the database stays reachable (and satisfies the
  schema).\<close>

theorem updater_run_reachable:
  assumes "db_reachable R d"
  shows "db_reachable R (fst (snd (updater_run c C T J R (d, net))))"
proof -
  have "db_step R d (snd (dlm_get_all d))" by (rule step_get_lists)
  moreover have "db_steps R (snd (dlm_get_all d))
      (fst (snd (update_loop c C T J R lsts False (snd (dlm_get_all d), net))))" for lsts
    using update_loop_steps [of R "(snd (dlm_get_all d), net)"] by simp
  ultimately have "db_steps R d (fst (snd (updater_run c C T J R (d, net))))"
    by (auto simp: updater_run_def case_prod_beta intro: converse_rtranclp_into_rtranclp)
  with assms show ?thesis by (rule db_steps_reachable [rotated])
qed

section \<open>Against a server that answers by url\<close>

text \<open>
  The client library accepts every option and what it delivers depends on the url last set; the
  network state does not matter.
\<close>

fun last_url :: "curl_option list \<Rightarrow> string" where
  "last_url [] = []"
| "last_url (Opt_url u # opts) = (if \<exists>v. Opt_url v \<in> set opts then last_url opts else u)"
| "last_url (opt # opts) = last_url opts"

definition static_server :: "'n curl \<Rightarrow> (string \<Rightarrow> transfer) \<Rightarrow> bool" where
  "static_server C srv \<longleftrightarrow> (\<forall>opt. cu_setopt C opt) \<and>
     (\<forall>opts net. cu_perform C opts net = (srv (last_url opts), net))"

text \<open>The response a transfer gives, and whether the updater takes it for an update of the list.\<close>

definition served :: "transfer \<Rightarrow> response" where
  "served t = \<lparr>re_raw_headers = concat (tr_header_chunks t), re_body = concat (tr_body_chunks t),
     re_status_code = tr_response_code t,
     re_headers = parse_headers (concat (tr_header_chunks t)) Map.empty\<rparr>"

definition answer :: "(string \<Rightarrow> transfer) \<Rightarrow> domain_list \<Rightarrow> transfer" where
  "answer srv lst = srv (c_str (update_url lst))"

definition due :: "http_date \<Rightarrow> (string \<Rightarrow> transfer) \<Rightarrow> domain_list \<Rightarrow> bool" where
  "due T srv lst \<longleftrightarrow> tr_code (answer srv lst) = 0 \<and>
     (let lm = get_last_modified T (served (answer srv lst)) in lm = 0 \<or> dl_mtime lst < lm)"

lemma last_url_fetch: "last_url (opts @ fetch_options rq) = c_str (rq_url rq)"
proof -
  have "last_url (fetch_options rq) = c_str (rq_url rq)"
    by (auto simp: fetch_options_def)
  moreover have "Opt_url (c_str (rq_url rq)) \<in> set (fetch_options rq)"
    by (simp add: fetch_options_def)
  moreover have "last_url (opts @ os) = last_url os" if "Opt_url u \<in> set os" for u os
  proof (induction opts)
    case (Cons opt opts)
    with that show ?case by (cases opt) auto
  qed simp
  ultimately show ?thesis by metis
qed

lemma fetch_static:
  assumes "static_server C srv"
  shows "fetch C rq net =
    ((if tr_code (srv (c_str (rq_url rq))) = 0 then Some (served (srv (c_str (rq_url rq)))) else None,
      snd (fst (fetch C rq net))), net)"
    "rq_url (snd (fst (fetch C rq net))) = rq_url rq"
proof -
  from assms have acc: "\<forall>opt. cu_setopt C opt" and
    perf: "cu_perform C (rq_options rq @ fetch_options rq) net = (srv (c_str (rq_url rq)), net)"
    by (simp_all add: static_server_def last_url_fetch)
  show "fetch C rq net =
    ((if tr_code (srv (c_str (rq_url rq))) = 0 then Some (served (srv (c_str (rq_url rq)))) else None,
      snd (fst (fetch C rq net))), net)"
    "rq_url (snd (fst (fetch C rq net))) = rq_url rq"
    by (simp_all add: fetch_def prepare_run [OF acc] execute_def perf run_writer_concat
        new_response_def response_parse_headers_def served_def Let_def)
qed

lemma update_one_static:
  assumes "static_server C srv"
  shows "update_one C T J R lst updated (d, net) =
    (if due T srv lst
     then (let (res, d) = import_answer J R lst (served (answer srv lst)) updated d in (res, d, net))
     else (Ok updated, d, net))"
proof -
  let ?rq = "set_if_modified_since T (dl_mtime lst) (new_request (update_url lst))"
  let ?t = "answer srv lst"
  let ?res = "if tr_code ?t = 0 then Some (served ?t) else None"
  have url: "rq_url ?rq = update_url lst"
    by (simp add: set_if_modified_since_def set_header_def new_request_def)
  obtain rq1 where f1: "fetch C ?rq net = ((?res, rq1), net)" "rq_url rq1 = update_url lst"
    using fetch_static [OF assms, of ?rq net] unfolding url answer_def by metis
  obtain rq2 where f2: "fetch C rq1 net = ((?res, rq2), net)"
    using fetch_static [OF assms, of rq1 net] unfolding f1(2) answer_def by metis
  show ?thesis
    by (simp add: update_one_def f1(1) f2 due_def Let_def)
qed

lemma update_loop_static_not_due:
  assumes "static_server C srv" and "\<forall>l \<in> set lsts. do_update c l \<longrightarrow> \<not> due T srv l"
  shows "update_loop c C T J R lsts updated s = (Ok updated, s)"
  using assms(2)
  by (induction lsts) (cases s; auto simp: update_one_static [OF assms(1)])+

text \<open>When no wanted list is due (the server fails, or its Last-Modified date is not after the
  list's \<open>mtime\<close>), a run changes nothing and reports that nothing was updated.\<close>

theorem updater_nothing_due:
  assumes "static_server C srv" and "db_faults d = []"
    and "\<forall>l \<in> set (sql_get_domain_lists d). do_update c l \<longrightarrow> \<not> due T srv l"
  shows "updater_run c C T J R (d, net) = (Ok False, d, net)"
  using assms(2) update_loop_static_not_due [OF assms(1,3)]
  by (simp add: updater_run_def dlm_get_all_def query_ok)

section \<open>Answers that are lists\<close>

lemma named_domains_names: "d_name ` set (named_domains R ns) = {n \<in> set ns. valid_name R n}"
  by (auto simp: named_domains_def image_image)

text \<open>C18: When a list is due and the server's body is the JSON text of a published list, the updater
  reads the text back and moves exactly the published domains that its validator accepts into the
  list of the published name; all other domains stay where they are.\<close>

theorem update_imports_published:
  assumes "static_server C srv" and "jsoncpp_ok J" and "jsoncpp_roundtrip J"
    and "db_wf d" and "db_faults d = []" and "dl_domains lst = []" and "due T srv lst"
    and "plain_json (domain_list_json pub)"
    and "concat (tr_body_chunks (answer srv lst)) = domain_list_to_json_string J pub"
  shows "\<exists>d' i. update_one C T J R lst updated (d, net) = (Ok True, d', net) \<and> db_wf d' \<and>
    list_id_of (custom_name (dl_name pub)) d' = Some i \<and>
    domain_map d' = (\<lambda>k. if k \<in> d_name ` set (dl_domains pub) \<and> valid_name R k then Some i
                          else domain_map d k)"
proof -
  let ?l = "lst\<lparr>dl_name := dl_name pub, dl_url := dl_url pub,
    dl_description := (case dl_description pub of None \<Rightarrow> dl_description lst | Some s \<Rightarrow> Some s),
    dl_domains := named_domains R (map d_name (dl_domains pub))\<rparr>"
  have "domain_list_from_json J R (re_body (served (answer srv lst))) lst = Inr ?l"
    using assms(3,8,9) domain_list_read [OF assms(2), of R pub lst] assms(6)
    by (simp add: domain_list_from_json_def served_def domain_list_to_json_string_def
        jsoncpp_roundtrip_def)
  moreover obtain i u de ci d2 where
    run: "dlm_import ?l False d = (Ok True, sql_touch_list i d2)" "db_wf d2"
    "list_id_of (custom_name (dl_name ?l)) d2 = Some i"
    "domains_only (sql_insert_or_ignore_list (custom_name (dl_name ?l)) u de ci d) d2"
    "domain_map d2 = (\<lambda>k. if k \<in> d_name ` set (dl_domains ?l) then Some i else domain_map d k)"
    by (rule dlm_import_ok [OF assms(4,5), of ?l False])
  ultimately have "update_one C T J R lst updated (d, net) = (Ok True, sql_touch_list i d2, net)"
    using assms(7) by (simp add: update_one_static [OF assms(1)] import_answer_def)
  moreover have "domain_map (sql_touch_list i d2) =
      (\<lambda>k. if k \<in> d_name ` set (dl_domains pub) \<and> valid_name R k then Some i else domain_map d k)"
    using run(5) by (simp add: named_domains_names)
  ultimately show ?thesis
    using run(3) wf_touch_list [OF run(2), of i]
    by (intro exI [of _ "sql_touch_list i d2"] exI [of _ i]) (simp add: list_id_of_touch)
qed

section \<open>Answers that are no lists\<close>

lemma import_rows_Nil: "import_rows i [] d = Inr ((), sql_touch_list i d)"
  by (simp add: import_rows_def)

lemma db_faults_touch: "db_faults (sql_touch_list i d) = db_faults d"
  by (simp add: sql_touch_list_def)

lemma import_nothing:
  assumes "db_wf d" and "db_faults d = []" and "dl_domains l = []"
  obtains d' where "dlm_import l c d = (Ok True, d')" "db_wf d'" "db_faults d' = []"
    "domain_map d' = domain_map d"
proof -
  let ?d1 = "sql_insert_or_ignore_list (custom_name (dl_name l)) (dl_url l)
    (case dl_description l of None \<Rightarrow> [] | Some s \<Rightarrow> s) (if c then 1 else 0) d"
  obtain i where "dlm_create (dl_name l) (dl_url l)
      (case dl_description l of None \<Rightarrow> [] | Some s \<Rightarrow> s) c d = (Ok i, ?d1)"
    using dlm_create_ok [OF assms(2)] by metis
  with assms(2,3) have run: "dlm_import l c d = (Ok True, sql_touch_list i ?d1)"
    by (simp add: dlm_import_def transact_ok import_rows_Nil)
  show ?thesis
  proof (rule that [OF run])
    show "db_wf (sql_touch_list i ?d1)" using assms(1) by (intro wf_intros)
  qed (use assms(2) in \<open>simp_all add: db_faults_touch\<close>)
qed

lemma import_answer_unparsable:
  assumes "db_wf d" and "db_faults d = []" and "dl_domains l = []"
    and "jc_parse J (re_body r) = Inl errs"
  obtains d' where "import_answer J R l r updated d = (Ok True, d')" "db_wf d'" "db_faults d' = []"
    "domain_map d' = domain_map d"
proof -
  obtain d' where "dlm_import l False d = (Ok True, d')" "db_wf d'" "db_faults d' = []"
    "domain_map d' = domain_map d"
    by (rule import_nothing [OF assms(1-3)])
  with that assms(4) show ?thesis
    by (simp add: import_answer_def domain_list_from_json_def)
qed

lemma update_loop_unparsable:
  assumes "static_server C srv" and "\<forall>url. \<exists>errs. jc_parse J (concat (tr_body_chunks (srv url))) = Inl errs"
    and "db_wf d" and "db_faults d = []" and "\<forall>l \<in> set lsts. dl_domains l = []"
  shows "\<exists>d'. update_loop c C T J R lsts updated (d, net) =
      (Ok (updated \<or> (\<exists>l \<in> set lsts. do_update c l \<and> due T srv l)), d', net) \<and>
    db_wf d' \<and> domain_map d' = domain_map d"
  using assms(3-5)
proof (induction lsts arbitrary: updated d)
  case (Cons l lsts)
  show ?case
  proof (cases "do_update c l \<and> due T srv l")
    case True
    obtain errs where "jc_parse J (re_body (served (answer srv l))) = Inl errs"
      using assms(2) by (auto simp: served_def answer_def)
    then obtain d1 where d1: "import_answer J R l (served (answer srv l)) updated d = (Ok True, d1)"
      "db_wf d1" "db_faults d1 = []" "domain_map d1 = domain_map d"
      using Cons.prems by (auto elim: import_answer_unparsable)
    from Cons.IH [OF d1(2,3), of True] Cons.prems(3) d1(1,4) True show ?thesis
      by (auto simp: update_one_static [OF assms(1)])
  next
    case False
    with Cons show ?thesis by (auto simp: update_one_static [OF assms(1)])
  qed
qed simp

lemma updater_run_unparsable:
  assumes "static_server C srv" and "\<forall>url. \<exists>errs. jc_parse J (concat (tr_body_chunks (srv url))) = Inl errs"
    and "db_wf d" and "db_faults d = []" and "\<not> disable_list_update c"
  shows "\<exists>d'. updater_run c C T J R (d, net) =
      (Ok (\<exists>l \<in> set (sql_get_domain_lists d). do_update c l \<and> due T srv l), d', net) \<and>
    db_wf d' \<and> domain_map d' = domain_map d"
proof -
  have "\<forall>l \<in> set (sql_get_domain_lists d). dl_domains l = []"
    by (auto simp: sql_get_domain_lists_def list_from_row_def)
  from update_loop_unparsable [OF assms(1-4) this, of c T R False net] assms(4,5) show ?thesis
    by (simp add: updater_run_def dlm_get_all_def query_ok)
qed


end
