(* ===== verification/Dbl_Worker.thy ===== *)
theory Dbl_Worker
  imports Dbl_Updater
begin

text \<open>
  The worker process (\<open>src/dbl/service/worker\<close>): its servers, the update loop around the condition
  variable, and \<open>drop_privileges\<close> over the credentials of a POSIX process.  The interleaving of the
  loop with \<open>Service::signal_stop\<close> is a step relation.
\<close>

section \<open>Credentials\<close>

record creds =
  cr_ruid :: int
  cr_euid :: int
  cr_suid :: int
  cr_rgid :: int
  cr_egid :: int
  cr_sgid :: int
  cr_groups :: "int list"

datatype id_call = Setgroups_none | Setgid int | Setegid int | Setuid int | Seteuid int

text \<open>The calls as POSIX (and Linux) documents them: success, and the credentials afterwards.\<close>

fun posix_call :: "id_call \<Rightarrow> creds \<Rightarrow> bool \<times> creds" where
  "posix_call Setgroups_none c =
     (if cr_euid c = 0 then (True, c\<lparr>cr_groups := []\<rparr>) else (False, c))"
| "posix_call (Setgid g) c =
     (if cr_euid c = 0 then (True, c\<lparr>cr_rgid := g, cr_egid := g, cr_sgid := g\<rparr>)
      else if g = cr_rgid c \<or> g = cr_sgid c then (True, c\<lparr>cr_egid := g\<rparr>) else (False, c))"
| "posix_call (Setegid g) c =
     (if cr_euid c = 0 \<or> g = cr_rgid c \<or> g = cr_egid c \<or> g = cr_sgid c
      then (True, c\<lparr>cr_egid := g\<rparr>) else (False, c))"
| "posix_call (Setuid u) c =
     (if cr_euid c = 0 then (True, c\<lparr>cr_ruid := u, cr_euid := u, cr_suid := u\<rparr>)
      else if u = cr_ruid c \<or> u = cr_suid c then (True, c\<lparr>cr_euid := u\<rparr>) else (False, c))"
| "posix_call (Seteuid u) c =
     (if cr_euid c = 0 \<or> u = cr_ruid c \<or> u = cr_euid c \<or> u = cr_suid c
      then (True, c\<lparr>cr_euid := u\<rparr>) else (False, c))"

text \<open>A call can also fail for want of resources: \<open>fails\<close> is the parameter.\<close>

definition id_call :: "(id_call \<Rightarrow> bool) \<Rightarrow> id_call \<Rightarrow> creds \<Rightarrow> bool \<times> creds" where
  "id_call fails x c = (if fails x then (False, c) else posix_call x c)"

text \<open>\<open>getpwnam\<close> gives the user and group id of a name.\<close>

definition drop_privileges ::
  "config \<Rightarrow> (string \<Rightarrow> (int \<times> int) option) \<Rightarrow> (id_call \<Rightarrow> bool) \<Rightarrow> creds \<Rightarrow> (exn + unit) \<times> creds" where
  "drop_privileges cfg getpwnam fails c =
     (case getpwnam (service_user cfg) of
        None \<Rightarrow> (Inl (RuntimeError (''Invalid user: '' @ service_user cfg)), c)
      | Some (user_id, group_id) \<Rightarrow>
          if user_id = 0 \<or> group_id = 0
          then (Inl (RuntimeError (''Not an unprivileged user: '' @ service_user cfg)), c)
          else
            (let (ok, c) = id_call fails Setgroups_none c;
                 (ok, c) = id_call fails (Setgid group_id) c
             in if \<not> ok then (Inl (RuntimeError ''Cannot drop privileges (setgid() failed)''), c)
             else let (ok, c) = id_call fails (Setegid group_id) c
             in if \<not> ok then (Inl (RuntimeError ''Cannot drop privileges (setegid() failed)''), c)
             else let (ok, c) = id_call fails (Setuid user_id) c
             in if \<not> ok then (Inl (RuntimeError ''Cannot drop privileges (setuid() failed)''), c)
             else let (ok, c) = id_call fails (Seteuid user_id) c
             in if \<not> ok then (Inl (RuntimeError ''Cannot drop privileges (seteuid() failed)''), c)
             else let (ok, c) = id_call fails (Setuid 0) c
             in if ok then (Inl (RuntimeError ''Dropping privileges failed''), c)
             else let (ok, c) = id_call fails (Setgid 0) c
             in if ok then (Inl (RuntimeError ''Dropping privileges failed''), c)
             else (Inr (), c)))"

section \<open>Servers\<close>

text \<open>\<open>bind_error port\<close> is what constructing a server on the port throws, if anything.\<close>

datatype servers = Servers_running bool bool | Process_exit int

definition run_servers :: "config \<Rightarrow> (int \<Rightarrow> exn option) \<Rightarrow> servers" where
  "run_servers c bind_error =
     (if service_port c > 0 \<and> bind_error (service_port c) \<noteq> None then Process_exit 0
      else if http_responder_enable c \<and> bind_error (http_responder_port c) \<noteq> None then Process_exit 0
      else Servers_running (service_port c > 0) (http_responder_enable c))"

section \<open>The update loop\<close>

definition run_updater ::
  "config \<Rightarrow> 'n curl \<Rightarrow> http_date \<Rightarrow> jsoncpp \<Rightarrow> resolver \<Rightarrow> db \<times> 'n \<Rightarrow> bool outcome \<times> db \<times> 'n" where
  "run_updater c C T J R s = (if \<not> no_update c then updater_run c C T J R s else (Ok False, s))"

definition update_intval :: "config \<Rightarrow> int" where
  "update_intval c = (let min_intval = 3600 in
     if update_interval c > min_intval then update_interval c else min_intval)"

text \<open>
  One turn of the loop: the stop flag as the test reads it, and how the wait ends when it is reached.
\<close>

datatype wake = Timed_out | Notified

datatype loop_end = Still_running | Stop_requested | Update_ready | Escaped exn | Died

fun worker_loop ::
  "(('s \<Rightarrow> bool outcome \<times> 's)) \<Rightarrow> (bool \<times> wake) list \<Rightarrow> 's \<Rightarrow> loop_end \<times> 's" where
  "worker_loop upd [] s = (Still_running, s)"
| "worker_loop upd ((stop, w) # turns) s =
     (if stop then (Stop_requested, s)
      else case w of
        Notified \<Rightarrow> worker_loop upd turns s
      | Timed_out \<Rightarrow>
          (case upd s of
             (Ok True, s) \<Rightarrow> (Update_ready, s)
           | (Ok False, s) \<Rightarrow> worker_loop upd turns s
           | (Throw e, s) \<Rightarrow> (Escaped e, s)
           | (Crash, s) \<Rightarrow> (Died, s)))"

definition worker_run ::
  "config \<Rightarrow> 'n curl \<Rightarrow> http_date \<Rightarrow> jsoncpp \<Rightarrow> resolver \<Rightarrow> (bool \<times> wake) list \<Rightarrow> db \<times> 'n
   \<Rightarrow> loop_end \<times> db \<times> 'n" where
  "worker_run c C T J R turns s =
     (case run_updater c C T J R s of
        (Ok updated, s) \<Rightarrow>
          if updated then (Update_ready, s) else worker_loop (run_updater c C T J R) turns s
      | (Throw e, s) \<Rightarrow> (Escaped e, s)
      | (Crash, s) \<Rightarrow> (Died, s))"

text \<open>\<open>worker::Unix::run\<close>: servers first, then the privileges, then the loop.\<close>

datatype worker_end = Exit_in_servers int | Uncaught exn | Loop_end loop_end

definition unix_worker_run ::
  "config \<Rightarrow> (int \<Rightarrow> exn option) \<Rightarrow> (string \<Rightarrow> (int \<times> int) option) \<Rightarrow> (id_call \<Rightarrow> bool) \<Rightarrow>
   (db \<times> 'n \<Rightarrow> loop_end \<times> db \<times> 'n) \<Rightarrow> creds \<Rightarrow> db \<times> 'n \<Rightarrow> worker_end \<times> creds \<times> db \<times> 'n" where
  "unix_worker_run c bind_error getpwnam fails loop cr s =
     (case run_servers c bind_error of
        Process_exit code \<Rightarrow> (Exit_in_servers code, cr, s)
      | Servers_running a b \<Rightarrow>
          (let (r, cr) = (if is_foreground c then (Inr (), cr) else drop_privileges c getpwnam fails cr)
           in case r of
                Inl e \<Rightarrow> (Uncaught e, cr, s)
              | Inr u \<Rightarrow> (let (e, s) = loop s in (Loop_end e, cr, s))))"

section \<open>Properties of the credentials\<close>

text \<open>The unprivileged state that \<open>drop_privileges\<close> aims at.\<close>

definition dropped :: "int \<Rightarrow> int \<Rightarrow> creds \<Rightarrow> bool" where
  "dropped u g c \<longleftrightarrow> cr_ruid c = u \<and> cr_euid c = u \<and> cr_suid c = u \<and>
     cr_rgid c = g \<and> cr_egid c = g \<and> cr_sgid c = g"

lemma drop_privileges_root:
  assumes "cr_euid c = 0" and "getpwnam (service_user cfg) = Some (u, g)" and "u \<noteq> 0" and "g \<noteq> 0"
    and "\<forall>x. x \<noteq> Setgroups_none \<longrightarrow> \<not> fails x"
  shows "\<exists>c'. drop_privileges cfg getpwnam fails c = (Inr (), c') \<and> dropped u g c' \<and>
    cr_groups c' = (if fails Setgroups_none then cr_groups c else [])"
  using assms by (simp add: drop_privileges_def id_call_def dropped_def)

text \<open>A worker started as root ends with the real, effective and saved ids of the service user
  and with no supplementary groups, and it runs; when \<open>setgroups\<close> fails it runs with root's
  supplementary groups, since that failure is only logged.\<close>

theorem drop_privileges_succeeds:
  assumes "cr_euid c = 0" and "getpwnam (service_user cfg) = Some (u, g)" and "u \<noteq> 0" and "g \<noteq> 0"
    and "\<forall>x. x \<noteq> Setgroups_none \<longrightarrow> \<not> fails x"
  shows "\<exists>c'. drop_privileges cfg getpwnam fails c = (Inr (), c') \<and> dropped u g c' \<and>
    cr_groups c' = (if fails Setgroups_none then cr_groups c else [])"
  using assms by (rule drop_privileges_root)

lemma drop_privileges_chain:
  assumes "drop_privileges cfg getpwnam fails c = (Inr (), c')"
  obtains u g c1 c2 c3 c4 c5 c6 b where "getpwnam (service_user cfg) = Some (u, g)" "u \<noteq> 0" "g \<noteq> 0"
    "id_call fails Setgroups_none c = (b, c1)" "id_call fails (Setgid g) c1 = (True, c2)"
    "id_call fails (Setegid g) c2 = (True, c3)" "id_call fails (Setuid u) c3 = (True, c4)"
    "id_call fails (Seteuid u) c4 = (True, c5)" "id_call fails (Setuid 0) c5 = (False, c6)"
    "id_call fails (Setgid 0) c6 = (False, c')"
  using assms
  by (auto simp: drop_privileges_def Let_def split: option.splits prod.splits if_splits)

lemma id_call_sets:
  "id_call fails (Setegid g) c = (True, c') \<Longrightarrow> cr_egid c' = g"
  "id_call fails (Seteuid u) c = (True, c') \<Longrightarrow> cr_euid c' = u \<and> cr_egid c' = cr_egid c"
  "id_call fails (Setuid u) c = (True, c') \<Longrightarrow> cr_egid c' = cr_egid c"
  by (auto simp: id_call_def split: if_splits)

lemma id_call_refused:
  "id_call fails x c = (False, c') \<Longrightarrow> \<not> fails x \<Longrightarrow> c' = c \<and> posix_call x c = (False, c)"
  by (cases x) (auto simp: id_call_def split: if_splits)

text \<open>C23: Whatever the process started as and whichever calls fail, \<open>drop_privileges\<close> returns normally
  only in a state whose effective ids are the service user's and from which the process cannot
  become root again, if \<open>setuid(0)\<close> and \<open>setgid(0)\<close> are refused only for lack of permission.\<close>

theorem drop_privileges_safe:
  assumes "drop_privileges cfg getpwnam fails c = (Inr (), c')"
    and "\<not> fails (Setuid 0)" and "\<not> fails (Setgid 0)"
  shows "\<exists>u g. getpwnam (service_user cfg) = Some (u, g) \<and> u \<noteq> 0 \<and> g \<noteq> 0 \<and>
    cr_euid c' = u \<and> cr_egid c' = g \<and> 0 \<notin> {cr_ruid c', cr_euid c', cr_suid c'} \<and>
    0 \<notin> {cr_rgid c', cr_egid c', cr_sgid c'} \<and>
    posix_call (Setuid 0) c' = (False, c') \<and> posix_call (Seteuid 0) c' = (False, c')"
proof -
  obtain u g c1 c2 c3 c4 c5 c6 b where chain: "getpwnam (service_user cfg) = Some (u, g)" "u \<noteq> 0" "g \<noteq> 0"
    "id_call fails Setgroups_none c = (b, c1)" "id_call fails (Setgid g) c1 = (True, c2)"
    "id_call fails (Setegid g) c2 = (True, c3)" "id_call fails (Setuid u) c3 = (True, c4)"
    "id_call fails (Seteuid u) c4 = (True, c5)" "id_call fails (Setuid 0) c5 = (False, c6)"
    "id_call fails (Setgid 0) c6 = (False, c')"
    by (rule drop_privileges_chain [OF assms(1)])
  have same: "c6 = c5" "c' = c5" and no_uid: "posix_call (Setuid 0) c' = (False, c')"
    and no_gid: "posix_call (Setgid 0) c' = (False, c')"
    using id_call_refused [OF chain(9) assms(2)] id_call_refused [OF chain(10) assms(3)] by simp_all
  have ids: "cr_euid c' = u" "cr_egid c' = g"
    using same(2) id_call_sets(1) [OF chain(6)] id_call_sets(2) [OF chain(8)]
      id_call_sets(3) [OF chain(7)] by simp_all
  have "cr_ruid c' \<noteq> 0 \<and> cr_suid c' \<noteq> 0"
    using no_uid by (simp split: if_splits)
  moreover have "cr_rgid c' \<noteq> 0 \<and> cr_sgid c' \<noteq> 0"
    using no_gid ids chain(2) by (simp split: if_splits)
  moreover from calculation have "posix_call (Seteuid 0) c' = (False, c')"
    using ids chain(2) by simp
  ultimately show ?thesis
    using ids chain(1-3) no_uid
    by (intro exI [of _ u] exI [of _ g]) (simp del: posix_call.simps)
qed

section \<open>Properties of the servers and the loop\<close>

text \<open>When a port is taken, the worker process exits with status 0, without dropping privileges
  and without an update: the master cannot tell it from a normal end.\<close>

theorem port_taken_exits_normally:
  assumes "service_port c > 0 \<and> bind_error (service_port c) \<noteq> None \<or>
    http_responder_enable c \<and> bind_error (http_responder_port c) \<noteq> None"
  shows "unix_worker_run c bind_error getpwnam fails loop cr s = (Exit_in_servers 0, cr, s)"
  using assms by (auto simp: unix_worker_run_def run_servers_def)


text \<open>With updates on and a server that answers with anything but JSON for a list that is due, the
  worker never waits: it ends with "update ready" at once, and the service reloads.\<close>

theorem garbage_ends_worker:
  assumes "static_server C srv" and "\<forall>url. \<exists>errs. jc_parse J (concat (tr_body_chunks (srv url))) = Inl errs"
    and "db_wf d" and "db_faults d = []" and "\<not> disable_list_update c" and "\<not> no_update c"
    and "l \<in> set (sql_get_domain_lists d)" and "do_update c l" and "due T srv l"
  shows "\<exists>d'. worker_run c C T J R turns (d, net) = (Update_ready, d', net) \<and> domain_map d' = domain_map d"
proof -
  have due: "(\<exists>l \<in> set (sql_get_domain_lists d). do_update c l \<and> due T srv l) = True"
    using assms(7-9) by blast
  obtain d' where "updater_run c C T J R (d, net) = (Ok True, d', net)" "domain_map d' = domain_map d"
    using updater_run_unparsable [OF assms(1-5), of T R net] unfolding due by blast
  with assms(6) show ?thesis by (simp add: worker_run_def run_updater_def)
qed

section \<open>The race between the loop and signal_stop\<close>

text \<open>
  The worker tests the flag and then waits; \<open>signal_stop\<close> sets the flag and then notifies, without
  the mutex.  A notification wakes the worker only while it waits.
\<close>

datatype worker_pc = At_test | Before_wait | Waiting_cv | Finished

datatype signaller_pc = Sg_start | Sg_flag_set | Sg_notified

type_synonym race = "worker_pc \<times> signaller_pc \<times> bool"

inductive race_step :: "race \<Rightarrow> race \<Rightarrow> bool" where
  test_go: "race_step (At_test, sg, False) (Before_wait, sg, False)"
| test_stop: "race_step (At_test, sg, True) (Finished, sg, True)"
| begin_wait: "race_step (Before_wait, sg, flag) (Waiting_cv, sg, flag)"
| timeout_no_update: "race_step (Waiting_cv, sg, flag) (At_test, sg, flag)"
| timeout_update: "race_step (Waiting_cv, sg, flag) (Finished, sg, flag)"
| set_flag: "race_step (pc, Sg_start, flag) (pc, Sg_flag_set, True)"
| notify_waiting: "race_step (Waiting_cv, Sg_flag_set, flag) (At_test, Sg_notified, flag)"
| notify_lost: "pc \<noteq> Waiting_cv \<Longrightarrow> race_step (pc, Sg_flag_set, flag) (pc, Sg_notified, flag)"

inductive_cases race_from_wait: "race_step (Waiting_cv, Sg_notified, flag) r"

inductive_simps race_step_simps: "race_step (pc, sg, flag) r"

definition race_start :: race where "race_start = (At_test, Sg_start, False)"

definition race_inv :: "race \<Rightarrow> bool" where
  "race_inv r = (case r of (pc, sg, flag) \<Rightarrow>
flag = (sg \<noteq> Sg_start))"

lemma race_inv_steps: "race_step\<^sup>*\<^sup>* race_start r \<Longrightarrow> race_inv r"
proof (induction rule: rtranclp_induct)
  case base
  show ?case by (simp add: race_start_def race_inv_def)
next
  case (step r r')
  then show ?case by (auto simp: race_inv_def elim!: race_step.cases)
qed

text \<open>A stop request can be lost: the notification can come after the test of the flag and before
  the wait, and then the worker waits with the flag set and nothing but the timeout of at least
  an hour can wake it.\<close>

theorem stop_can_be_lost:
  "race_step\<^sup>*\<^sup>* race_start (Waiting_cv, Sg_notified, True) \<and>
   Collect (race_step (Waiting_cv, Sg_notified, True)) \<subseteq>
     {(At_test, Sg_notified, True), (Finished, Sg_notified, True)}"
proof
  have "race_step (At_test, Sg_start, False) (Before_wait, Sg_start, False)" by (rule test_go)
  also have "race_step\<^sup>*\<^sup>* (Before_wait, Sg_start, False) (Before_wait, Sg_flag_set, True)"
    by (intro r_into_rtranclp set_flag)
  also have "race_step (Before_wait, Sg_flag_set, True) (Before_wait, Sg_notified, True)"
    by (rule notify_lost) simp
  also have "race_step (Before_wait, Sg_notified, True) (Waiting_cv, Sg_notified, True)"
    by (rule begin_wait)
  finally show "race_step\<^sup>*\<^sup>* race_start (Waiting_cv, Sg_notified, True)"
    by (simp add: race_start_def)
qed (auto elim: race_from_wait)

text \<open>
  \<open>Service::signal_stop\<close> as the signal handlers run it, with no step of the worker in between; while
  there is no worker object the flag stays as it is.
\<close>

definition signal_stop :: "race option \<Rightarrow> race option" where
  "signal_stop worker =
     (case worker of
        None \<Rightarrow> None
      | Some (pc, sg, flag) \<Rightarrow> Some (if pc = Waiting_cv then At_test else pc, Sg_notified, True))"

lemma signal_stop_steps:
  assumes "signal_stop (Some (pc, Sg_start, flag)) = Some r"
  shows "race_step\<^sup>*\<^sup>* (pc, Sg_start, flag) r"
proof -
  have "race_step (pc, Sg_start, flag) (pc, Sg_flag_set, True)" by (rule set_flag)
  moreover have "race_step (pc, Sg_flag_set, True) r"
    using assms by (auto simp: signal_stop_def intro: notify_waiting notify_lost)
  ultimately show ?thesis by (meson rtranclp.simps)
qed

text \<open>A request that meets the worker in its wait, or before it is about to wait, ends the loop at the
  next test.\<close>

theorem signal_stop_in_time:
  assumes "pc = Waiting_cv \<or> pc = At_test"
  shows "\<exists>r. signal_stop (Some (pc, Sg_start, False)) = Some r \<and>
    {r'. race_step r r' \<and> fst (snd r') = Sg_notified} = {(Finished, Sg_notified, True)}"
  using assms by (auto simp: signal_stop_def race_step_simps)

text \<open>A stop request is never ignored for longer than one wait: in every reachable state with the
  flag set, a worker at its test has no step of its own but to finish.\<close>

theorem stop_is_seen_at_test:
  assumes "race_step\<^sup>*\<^sup>* race_start (At_test, sg, flag)" and "sg \<noteq> Sg_start"
    and "race_step (At_test, sg, flag) (pc, sg, flag')"
  shows "pc = Finished"
proof -
  have "flag" using race_inv_steps [OF assms(1)] assms(2) by (simp add: race_inv_def)
  with assms(2,3) show ?thesis by (auto simp: race_step_simps)
qed

end
