(* ===== verification/Dbl_Main.thy ===== *)
theory Dbl_Main
  imports Dbl_Cli Dbl_Process Dbl_Worker
begin

text \<open>
  The program itself: \<open>main\<close> (\<open>src/dbl/main.cxx\<close>), the service object it drives
  (\<open>src/dbl/service/service.cxx\<close>, \<open>Unix::run\<close> and \<open>Unix::process_worker\<close> of \<open>unix.cxx\<close>) and the
  reload loop.  One pass of the loop is \<open>main_turn\<close>; the loop itself has fuel, since a daemon need
  not end.  The diagnostics on the standard error and in the log are not modelled.
\<close>

section \<open>The service\<close>

text \<open>\<open>Service::configure\<close>: a new configurator, then the proxy's configuration file.\<close>

definition service_configure ::
  "config \<Rightarrow> netenv \<Rightarrow> value_order \<Rightarrow> string \<Rightarrow> dnsproxy \<Rightarrow> filesystem \<Rightarrow> db
   \<Rightarrow> (exn + unit) \<times> dnsproxy \<times> filesystem \<times> db" where
  "service_configure c N order time p F d =
     (case configure c N new_configurator p of
        (Inl e, f, p, calls) \<Rightarrow> (Inl e, p, F, d)
      | (Inr u, f, p, calls) \<Rightarrow> create_config c order time p F d)"

text \<open>The constructors of \<open>Service\<close> and \<open>Unix\<close>: the proxy, and where \<open>pidof\<close> is, if anywhere.\<close>

definition new_service :: "config \<Rightarrow> filesystem \<Rightarrow> exn + dnsproxy \<times> string" where
  "new_service c F = bindE (create_dnsproxy c) (\<lambda>p. Inr (p, find_executable F ''pidof''))"

text \<open>
  How the worker process ends, as \<open>waitpid\<close> sees it.  \<open>posted\<close>: the semaphore came within ten
  seconds.  An exception that leaves \<open>run_worker\<close> ends the process by \<open>std::terminate\<close>, a null
  pointer by SIGSEGV; \<open>None\<close> is a worker that still runs.
\<close>

definition SIGABRT :: int where "SIGABRT = 6"
definition SIGSEGV :: int where "SIGSEGV = 11"

fun worker_status :: "worker_end \<Rightarrow> wait_status option" where
  "worker_status (Exit_in_servers code) = Some (Exited code)"
| "worker_status (Uncaught e) = Some (Killed_by SIGABRT)"
| "worker_status (Loop_end Still_running) = None"
| "worker_status (Loop_end Stop_requested) = Some (Exited 0)"
| "worker_status (Loop_end Update_ready) = Some (Exited 0)"
| "worker_status (Loop_end (Escaped e)) = Some (Killed_by SIGABRT)"
| "worker_status (Loop_end Died) = Some (Killed_by SIGSEGV)"

definition process_worker :: "bool \<Rightarrow> worker_end \<Rightarrow> wait_status option" where
  "process_worker posted run = (if posted then worker_status run else Some (Exited 1))"

text \<open>
  \<open>Unix::run\<close>.  \<open>forked\<close>: the pid of the worker if \<open>fork\<close> succeeds; \<open>pid\<close> is the pid of the master; \<open>worker\<close> is the life of
  the worker inside the process, in the foreground.
\<close>

definition unix_run ::
  "config \<Rightarrow> 'w os \<Rightarrow> string \<Rightarrow> int option \<Rightarrow> int \<Rightarrow> ('w process \<Rightarrow> 'w process) \<Rightarrow> dnsproxy \<Rightarrow> 'w process
   \<Rightarrow> (exn + unit) \<times> 'w process" where
  "unix_run c os pidof_bin forked pid worker p s =
     (if is_foreground c then process_foreground c os pidof_bin p worker s
      else (case forked of
              None \<Rightarrow> (Inl (RuntimeError ''Daemonizing failed''), s)
            | Some worker_pid \<Rightarrow> process_master c os pidof_bin pid worker_pid p s))"

section \<open>The environment and the state of main\<close>

text \<open>
  \<open>me_worker\<close> and \<open>me_worker_db\<close>: what the worker does to the process (in the foreground) and to
  the database file before it ends.  \<open>me_garbage\<close> is the value of the uninitialised pid variable,
  \<open>me_garbage_pid\<close> that of the member \<open>worker_pid_\<close> before the fork.
\<close>

record 'w main_env =
  me_config :: config
  me_vm :: variables_map
  me_json :: jsoncpp
  me_resolver :: resolver
  me_show_optional :: "string option \<Rightarrow> string"
  me_os :: "'w os"
  me_net :: netenv
  me_order :: value_order
  me_time :: string
  me_now :: int
  me_uname :: "(string \<times> string \<times> string \<times> string) option"
  me_forked :: "int option"
  me_pid :: int
  me_garbage :: int
  me_garbage_pid :: int
  me_worker :: "'w process \<Rightarrow> 'w process"
  me_worker_db :: "db \<Rightarrow> db"

record 'w main_state =
  mn_process :: "'w process"
  mn_db :: db
  mn_out :: string
  mn_status :: status

definition set_files :: "filesystem \<Rightarrow> 'w main_state \<Rightarrow> 'w main_state" where
  "set_files F st = st\<lparr>mn_process := (mn_process st)\<lparr>ps_files := F\<rparr>\<rparr>"

section \<open>One pass of the loop\<close>

text \<open>The directory of the database, and \<open>DB::init\<close>.\<close>

definition ensure_db_dir :: "config \<Rightarrow> filesystem \<Rightarrow> exn + filesystem" where
  "ensure_db_dir c F =
     (if fs_exists F (service_db c) then Inr F
      else (let dir = parent_path (service_db c) in
            if fs_dirs F dir then Inr F
            else if fs_writable F dir then Inr (F\<lparr>fs_dirs := (fs_dirs F)(dir := True)\<rparr>)
            else Inl (FilesystemError ''boost::filesystem::create_directories'' dir)))"

definition open_database :: "'w main_env \<Rightarrow> 'w main_state \<Rightarrow> (exn + unit) \<times> 'w main_state" where
  "open_database E st =
     (case ensure_db_dir (me_config E) (ps_files (mn_process st)) of
        Inl e \<Rightarrow> (Inl e, st)
      | Inr F \<Rightarrow> (let (r, d) = db_init (mn_db st) in (r, (set_files F st)\<lparr>mn_db := d\<rparr>)))"

text \<open>The query, or the management when there is any to do.\<close>

datatype tool_end = No_tool | Tool_result bool | Tool_throws exn | Tool_crash

definition run_tools :: "'w main_env \<Rightarrow> 'w main_state \<Rightarrow> tool_end \<times> 'w main_state" where
  "run_tools E st =
     (case get_bool (me_vm E) ''query'' of
        Inl e \<Rightarrow> (Tool_throws e, st)
      | Inr True \<Rightarrow>
          (case query_run (me_show_optional E) (me_vm E) (mn_db st) of
             (Inl e, d) \<Rightarrow> (Tool_throws e, st\<lparr>mn_db := d\<rparr>)
           | (Inr (b, out), d) \<Rightarrow> (Tool_result b, st\<lparr>mn_db := d, mn_out := mn_out st @ out\<rparr>))
      | Inr False \<Rightarrow>
          (case new_mgmt (me_vm E) of
             Inl e \<Rightarrow> (Tool_throws e, st)
           | Inr m \<Rightarrow>
               (if has_work m
                then (case manage (me_config E) (me_json E) (me_resolver E) (me_vm E) m (mn_db st) of
                        ((r, out, err), d) \<Rightarrow>
                          ((case r of Ok b \<Rightarrow> Tool_result b | Throw e \<Rightarrow> Tool_throws e | Crash \<Rightarrow> Tool_crash),
                           st\<lparr>mn_db := d, mn_out := mn_out st @ out\<rparr>))
                else (No_tool, st))))"

text \<open>
  The service object, the test for another instance, and the configuration.  The flag of
  \<open>Start_fails\<close> says that \<open>service_ptr\<close> is set.
\<close>

datatype start_end = Already_running | Start_fails exn bool | Started dnsproxy string

definition start_service :: "'w main_env \<Rightarrow> 'w main_state \<Rightarrow> start_end \<times> 'w main_state" where
  "start_service E st =
     (let c = me_config E; F = ps_files (mn_process st)
      in case new_service c F of
           Inl e \<Rightarrow> (Start_fails e False, st)
         | Inr (p, pidof_bin) \<Rightarrow>
             (if is_already_running c (me_os E) (me_garbage E) F then (Already_running, st)
              else (case service_configure c (me_net E) (me_order E) (me_time E) p F (mn_db st) of
                         (r, p, F, d) \<Rightarrow>
                           ((case r of Inl e \<Rightarrow> Start_fails e True | Inr u \<Rightarrow> Started p pidof_bin),
                            (set_files F st)\<lparr>mn_db := d\<rparr>))))"

text \<open>The status, and the run of the service; an exception of \<open>run\<close> is not caught.\<close>

datatype turn_end = Returned int | Terminated exn | Null_dereference | Turn_over

definition run_service :: "'w main_env \<Rightarrow> dnsproxy \<Rightarrow> string \<Rightarrow> 'w main_state \<Rightarrow> turn_end \<times> 'w main_state" where
  "run_service E p pidof_bin st =
     (let (lists, d) = dlm_count (mn_db st);
          (domains, d) = dm_count_blocked d;
          status = (status_init (me_now E) (me_uname E) (new_status (me_garbage E)))
                     \<lparr>st_lists := int lists, st_blocked := int domains\<rparr>;
          (r, s) = unix_run (me_config E) (me_os E) pidof_bin (me_forked E) (me_pid E) (me_worker E) p
                     (mn_process st);
          st = st\<lparr>mn_process := s, mn_db := me_worker_db E d, mn_status := status\<rparr>
      in case r of Inl e \<Rightarrow> (Terminated e, st) | Inr u \<Rightarrow> (Turn_over, st))"

text \<open>
  A pass.  A filesystem error only ends the program; any other exception also stops the service
  when there is one, whose member \<open>worker_pid_\<close> has not been set yet.
\<close>

definition EXIT_SUCCESS :: int where "EXIT_SUCCESS = 0"
definition EXIT_FAILURE :: int where "EXIT_FAILURE = 1"

fun is_filesystem_error :: "exn \<Rightarrow> bool" where
  "is_filesystem_error (FilesystemError m p) = True"
| "is_filesystem_error e = False"

definition abort_start :: "'w main_env \<Rightarrow> exn \<Rightarrow> bool \<Rightarrow> 'w main_state \<Rightarrow> 'w main_state" where
  "abort_start E e service_set st =
     (if \<not> is_filesystem_error e \<and> service_set
      then st\<lparr>mn_process := unix_stop (me_garbage_pid E) (mn_process st)\<rparr> else st)"

definition main_turn :: "'w main_env \<Rightarrow> 'w main_state \<Rightarrow> turn_end \<times> 'w main_state" where
  "main_turn E st =
     (case open_database E st of
        (Inl e, st) \<Rightarrow> (Returned EXIT_FAILURE, abort_start E e False st)
      | (Inr u, st) \<Rightarrow>
          (case run_tools E st of
             (Tool_result ok, st) \<Rightarrow> (Returned (if ok then EXIT_SUCCESS else EXIT_FAILURE), st)
           | (Tool_throws e, st) \<Rightarrow> (Returned EXIT_FAILURE, abort_start E e False st)
           | (Tool_crash, st) \<Rightarrow> (Null_dereference, st)
           | (No_tool, st) \<Rightarrow>
               (case start_service E st of
                  (Already_running, st) \<Rightarrow> (Returned EXIT_FAILURE, st)
                | (Start_fails e service_set, st) \<Rightarrow>
                    (Returned EXIT_FAILURE, abort_start E e service_set st)
                | (Started p pidof_bin, st) \<Rightarrow>
                    (if is_test (me_config E) then (Turn_over, st)
                     else run_service E p pidof_bin st))))"

section \<open>The loop and the program\<close>

text \<open>\<open>None\<close>: the fuel is used up, the program still runs.\<close>

fun main_loop :: "nat \<Rightarrow> 'w main_env \<Rightarrow> 'w main_state \<Rightarrow> turn_end option \<times> 'w main_state" where
  "main_loop 0 E st = (None, st)"
| "main_loop (Suc fuel) E st =
     (if ps_signaled_exit (mn_process st) then (Some (Returned EXIT_SUCCESS), st)
      else (case setup_logging (me_vm E) of
              Inl e \<Rightarrow> (Some (Terminated e), st)
            | Inr settings \<Rightarrow>
                (case main_turn E st of
                   (Turn_over, st) \<Rightarrow> main_loop fuel E st
                 | (Returned code, st) \<Rightarrow> (Some (Returned code), st)
                 | (Terminated e, st) \<Rightarrow> (Some (Terminated e), st)
                 | (Null_dereference, st) \<Rightarrow> (Some Null_dereference, st))))"

definition main_program ::
  "nat \<Rightarrow> parse_env \<Rightarrow> 'w main_env \<Rightarrow> 'w main_state \<Rightarrow> turn_end option \<times> 'w main_state" where
  "main_program fuel P E st =
     (case bindE (options_parse P unix_config) (\<lambda>(vm, c).
           bindE (get_bool vm ''debug'') (\<lambda>debug.
           bindE (validate_options vm) (\<lambda>u. Inr (vm, c)))) of
        Inl e \<Rightarrow> (Some (Returned EXIT_FAILURE), st)
      | Inr (vm, c) \<Rightarrow>
          (if has_help vm then (Some (Returned 0), st)
           else main_loop fuel (E\<lparr>me_vm := vm, me_config := c\<rparr>) st))"

section \<open>The database through the whole program\<close>

lemma step_once: "db_step R d d' \<Longrightarrow> db_steps R d d'"
  by (rule r_into_rtranclp)

lemma manage_domains_steps: "db_steps R d (snd (mgmt_manage_domains c R m d))"
proof -
  have u: "db_steps R d (if us \<noteq> [] then snd (dm_unblock_domains R us d) else d)" for us
    using step_unblock [of R d us] by auto
  have b: "db_steps R d1 (snd (dm_block_domains R bs 0 d1))" for bs d1
    by (rule step_once, rule step_block)
  show ?thesis
    unfolding mgmt_manage_domains_def Let_def
    using u [of "mg_unblock_domains m"]
      b [of "if mg_unblock_domains m \<noteq> [] then snd (dm_unblock_domains R (mg_unblock_domains m) d) else d"
        "mg_block_domains m"]
    by (auto split: sum.split prod.split outcome.split simp del: if_not_P if_P)
qed

lemma add_list_steps: "db_steps R d (snd (mgmt_add_list vm d))"
proof -
  have "db_steps R d (snd (dlm_create n u de False d))" for n u de
    by (rule step_once, rule step_create)
  then show ?thesis
    by (auto simp: mgmt_add_list_def case_prod_beta split: sum.split outcome.split)
qed

lemma export_list_steps: "db_steps R d (snd (mgmt_export_list J m d))"
  using step_once [OF step_get_list, of R d "mg_export_list m" True]
  by (simp add: mgmt_export_list_def case_prod_beta split: option.split)

lemma manage_steps: "db_steps R d (snd (manage c J R vm m d))"
proof -
  have "db_steps R d (snd (dlm_remove n d))" "db_steps R d (snd (dlm_set_enabled n e d))" for n e
    by (rule step_once, rule step_remove) (rule step_once, rule step_set_enabled)
  then show ?thesis
    by (simp add: manage_def add_list_steps export_list_steps manage_domains_steps
        mgmt_delete_list_def mgmt_enable_list_def mgmt_disable_list_def case_prod_beta)
qed

lemma query_steps: "db_steps R d (snd (query_run show_optional vm d))"
proof -
  have "db_steps R d (snd (dlm_get_all d))" "db_steps R d (snd (dm_get_blocked d))"
    "db_steps R d (snd (dm_get_by_name n d))" for n
    by (rule step_once, rule step_get_lists) (rule step_once, rule step_get_blocked,
        rule step_once, rule step_get_by_name)
  then show ?thesis
    by (simp add: query_run_def print_domain_lists_def print_blocked_domains_def
        print_domain_details_def case_prod_beta split: sum.split bool.split option.split)
qed

lemma create_config_steps: "db_steps R d (snd (snd (snd (create_config c order time p F d))))"
proof -
  have "db_steps R d (snd (dm_get 0 d))" by (rule step_once, rule step_get)
  then show ?thesis
    by (simp add: create_config_def unbound_create_config_def dnsmasq_create_config_def
        unbound_generate_domains_config_def dnsmasq_generate_domains_config_def Let_def case_prod_beta
        split: sum.split proxy_kind.split)
qed

lemma service_configure_steps:
  "db_steps R d (snd (snd (snd (service_configure c N order time p F d))))"
  using create_config_steps by (simp add: service_configure_def case_prod_beta split: sum.split)

lemma set_files_fields [simp]:
  "mn_db (set_files F st) = mn_db st" "mn_out (set_files F st) = mn_out st"
  "ps_files (mn_process (set_files F st)) = F"
  "ps_trace (mn_process (set_files F st)) = ps_trace (mn_process st)"
  "ps_signaled_exit (mn_process (set_files F st)) = ps_signaled_exit (mn_process st)"
  by (simp_all add: set_files_def)

lemma abort_start_fields [simp]:
  "mn_db (abort_start E e b st) = mn_db st" "mn_out (abort_start E e b st) = mn_out st"
  "ps_files (mn_process (abort_start E e b st)) = ps_files (mn_process st)"
  "ps_signaled_exit (mn_process (abort_start E e b st)) = ps_signaled_exit (mn_process st)"
  by (simp_all add: abort_start_def unix_stop_def act_def)

lemma open_database_steps: "db_steps R (mn_db st) (mn_db (snd (open_database E st)))"
  using step_once [OF step_init, of R "mn_db st"]
  by (simp add: open_database_def case_prod_beta Let_def split: sum.split)

lemma run_tools_steps: "db_steps (me_resolver E) (mn_db st) (mn_db (snd (run_tools E st)))"
  using query_steps [of "me_resolver E" "mn_db st" "me_show_optional E" "me_vm E"]
    manage_steps [of "me_resolver E" "mn_db st" "me_config E" "me_json E" "me_vm E"]
  by (simp add: run_tools_def case_prod_beta split: sum.split bool.split)

lemma start_service_steps: "db_steps R (mn_db st) (mn_db (snd (start_service E st)))"
  using service_configure_steps
  by (simp add: start_service_def case_prod_beta Let_def split: sum.split)

lemma run_service_steps:
  assumes "\<And>d. db_steps R d (me_worker_db E d)"
  shows "db_steps R (mn_db st) (mn_db (snd (run_service E p b st)))"
proof -
  let ?d1 = "snd (dlm_count (mn_db st))" and ?d2 = "snd (dm_count_blocked (snd (dlm_count (mn_db st))))"
  have "db_steps R (mn_db st) ?d1" by (rule step_once, rule step_count)
  also have "db_steps R ?d1 ?d2" by (rule step_once, rule step_count_blocked)
  also note assms [of ?d2]
  finally show ?thesis
    by (simp add: run_service_def case_prod_beta Let_def split: sum.split)
qed

lemma main_turn_steps:
  assumes "\<And>d. db_steps (me_resolver E) d (me_worker_db E d)"
  shows "db_steps (me_resolver E) (mn_db st) (mn_db (snd (main_turn E st)))"
proof -
  obtain r1 st1 where o: "open_database E st = (r1, st1)" by (rule prod.exhaust)
  obtain r2 st2 where t: "run_tools E st1 = (r2, st2)" by (rule prod.exhaust)
  obtain r3 st3 where a: "start_service E st2 = (r3, st3)" by (rule prod.exhaust)
  have s1: "db_steps (me_resolver E) (mn_db st) (mn_db st1)"
    using open_database_steps [of _ st E] o by simp
  have s2: "db_steps (me_resolver E) (mn_db st) (mn_db st2)"
    using s1 run_tools_steps [of E st1] t by simp
  have s3: "db_steps (me_resolver E) (mn_db st) (mn_db st3)"
    using s2 start_service_steps [of _ st2 E] a by (auto intro: rtranclp_trans)
  have "db_steps (me_resolver E) (mn_db st) (mn_db (snd (run_service E p b st3)))" for p b
    using s3 run_service_steps [OF assms] by (rule rtranclp_trans)
  with s1 s2 s3 o t a show ?thesis
    by (simp add: main_turn_def split: sum.split tool_end.split start_end.split)
qed

lemma main_loop_reachable:
  assumes "\<And>d. db_steps (me_resolver E) d (me_worker_db E d)" and "db_reachable (me_resolver E) (mn_db st)"
  shows "db_reachable (me_resolver E) (mn_db (snd (main_loop fuel E st)))"
  using assms(2)
proof (induction fuel arbitrary: st)
  case (Suc fuel)
  have "db_reachable (me_resolver E) (mn_db (snd (main_turn E st)))"
    by (rule db_steps_reachable [OF main_turn_steps [OF assms(1)] Suc.prems])
  with Suc show ?case
    by (cases "main_turn E st") (auto split: sum.split turn_end.split)
qed simp

text \<open>C17: Whatever the options, the environment and the number of reloads, the database that the program
  leaves behind is reachable by the operations of the managers, and so satisfies the constraints
  of the schema, if what the worker makes of it is.\<close>

theorem main_keeps_database:
  assumes "\<And>d. db_steps (me_resolver E) d (me_worker_db E d)" and "db_reachable (me_resolver E) (mn_db st)"
  shows "db_reachable (me_resolver E) (mn_db (snd (main_loop fuel E st))) \<and>
    db_wf (mn_db (snd (main_loop fuel E st)))"
  using main_loop_reachable [OF assms] reachable_wf by blast

section \<open>Starting\<close>

lemma set_files_same [simp]: "set_files (ps_files (mn_process st)) st = st"
  by (simp add: set_files_def)

lemma open_database_ready:
  assumes "fs_exists (ps_files (mn_process st)) (service_db (me_config E))" and "db_faults (mn_db st) = []"
    and "db_lists (mn_db st) \<noteq> []"
  shows "open_database E st = (Inr (), st)"
  using assms by (simp add: open_database_def ensure_db_dir_def db_init_has_lists)

lemma run_tools_none:
  assumes "get_bool (me_vm E) ''query'' = Inr False" and "new_mgmt (me_vm E) = Inr m" and "\<not> has_work m"
  shows "run_tools E st = (No_tool, st)"
  using assms by (simp add: run_tools_def)

text \<open>C38: While the master whose pid file is there is alive, a second start of the program ends with
  failure, before it touches the network, the proxy's configuration or the pid file.\<close>

theorem second_instance_refused:
  assumes "fs_exists (ps_files (mn_process st)) (service_db (me_config E))" and "db_faults (mn_db st) = []"
    and "db_lists (mn_db st) \<noteq> []"
    and "get_bool (me_vm E) ''query'' = Inr False" and "new_mgmt (me_vm E) = Inr m" and "\<not> has_work m"
    and "create_dnsproxy (me_config E) = Inr p"
    and "save_pidfile (me_config E) pid F = Inr (ps_files (mn_process st))" and "0 \<le> pid"
    and "\<not> fs_dirs F (service_pidfile (me_config E))"
    and "parent_path (service_pidfile (me_config E)) \<noteq> service_pidfile (me_config E)"
    and "os_alive (me_os E) pid"
  shows "main_turn E st = (Returned EXIT_FAILURE, st)"
proof -
  have "is_already_running (me_config E) (me_os E) (me_garbage E) (ps_files (mn_process st))"
    using pidfile_read(1) [OF assms(8-11), of "me_os E" "me_garbage E"] assms(12) by simp
  then have "start_service E st = (Already_running, st)"
    using assms(7) by (simp add: start_service_def new_service_def Let_def)
  then show ?thesis
    by (simp add: main_turn_def open_database_ready [OF assms(1-3)] run_tools_none [OF assms(4-6)])
qed

lemma configure_error: "fst (configure c N f p) = Inl e \<Longrightarrow> \<not> is_filesystem_error e"
  by (auto simp: configure_def chosen_interface_def run_network_discovery_def configure_interface_def
      Let_def split: if_splits option.splits sum.splits prod.splits)

text \<open>When the configuration of the network fails, for instance because the address is not on the
  interface yet, the program ends with failure; before that it sends SIGTERM to the process, or, if
  the number is 0 or negative, to the process group or to all processes, whose number the
  uninitialised \<open>worker_pid_\<close> happens to hold.  No file has changed.\<close>

theorem failed_start_signals_unforked_worker:
  assumes "fs_exists (ps_files (mn_process st)) (service_db (me_config E))" and "db_faults (mn_db st) = []"
    and "db_lists (mn_db st) \<noteq> []"
    and "get_bool (me_vm E) ''query'' = Inr False" and "new_mgmt (me_vm E) = Inr m" and "\<not> has_work m"
    and "create_dnsproxy (me_config E) = Inr p"
    and "\<not> is_already_running (me_config E) (me_os E) (me_garbage E) (ps_files (mn_process st))"
    and "fst (configure (me_config E) (me_net E) new_configurator p) = Inl e"
  shows "main_turn E st = (Returned EXIT_FAILURE, st\<lparr>mn_process := act (Kill (me_garbage_pid E) SIGTERM) (mn_process st)\<rparr>)"
proof -
  obtain f p' calls where c: "configure (me_config E) (me_net E) new_configurator p = (Inl e, f, p', calls)"
    using assms(9) by (metis prod.collapse)
  have "service_configure (me_config E) (me_net E) (me_order E) (me_time E) p
      (ps_files (mn_process st)) (mn_db st) = (Inl e, p', ps_files (mn_process st), mn_db st)"
    by (simp add: service_configure_def c)
  then have "start_service E st = (Start_fails e True, st)"
    using assms(7,8) by (simp add: start_service_def new_service_def Let_def)
  then show ?thesis
    using configure_error [OF assms(9)]
    by (simp add: main_turn_def open_database_ready [OF assms(1-3)] run_tools_none [OF assms(4-6)]
        abort_start_def unix_stop_def)
qed

section \<open>Ending\<close>

lemma open_database_signaled:
  "ps_signaled_exit (mn_process (snd (open_database E st))) = ps_signaled_exit (mn_process st)"
  by (simp add: open_database_def case_prod_beta Let_def set_files_def split: sum.split)

lemma start_service_signaled:
  "ps_signaled_exit (mn_process (snd (start_service E st))) = ps_signaled_exit (mn_process st)"
  by (simp add: start_service_def case_prod_beta Let_def set_files_def split: sum.split)

lemma test_turn:
  assumes "is_test (me_config E)"
    and "get_bool (me_vm E) ''query'' = Inr False" and "new_mgmt (me_vm E) = Inr m" and "\<not> has_work m"
  shows "fst (main_turn E st) \<in> {Turn_over, Returned EXIT_FAILURE} \<and>
    ps_signaled_exit (mn_process (snd (main_turn E st))) = ps_signaled_exit (mn_process st)"
proof -
  obtain r1 st1 where o: "open_database E st = (r1, st1)" by (rule prod.exhaust)
  obtain r3 st3 where a: "start_service E st1 = (r3, st3)" by (rule prod.exhaust)
  have "ps_signaled_exit (mn_process st1) = ps_signaled_exit (mn_process st)"
    "ps_signaled_exit (mn_process st3) = ps_signaled_exit (mn_process st1)"
    using open_database_signaled [of E st] start_service_signaled [of E st1] o a by simp_all
  then show ?thesis
    using assms(1) by (simp add: main_turn_def o a run_tools_none [OF assms(2-4)]
        split: sum.split start_end.split)
qed

text \<open>In test mode the service is never run, nothing sets the exit flag, and the loop goes round
  without end: if the program returns at all, it returns a failure.\<close>

theorem test_mode_only_ends_by_error:
  assumes "is_test (me_config E)" and "\<not> ps_signaled_exit (mn_process st)"
    and "get_bool (me_vm E) ''query'' = Inr False" and "new_mgmt (me_vm E) = Inr m" and "\<not> has_work m"
    and "setup_logging (me_vm E) = Inr settings"
  shows "fst (main_loop fuel E st) \<in> {None, Some (Returned EXIT_FAILURE)}"
  using assms(2)
proof (induction fuel arbitrary: st)
  case (Suc fuel)
  obtain r st' where t: "main_turn E st = (r, st')" by (rule prod.exhaust)
  with test_turn [OF assms(1,3-5), of st] Suc.prems
  have "r = Turn_over \<or> r = Returned EXIT_FAILURE" "\<not> ps_signaled_exit (mn_process st')" by auto
  with Suc.IH [of st'] t Suc.prems assms(6) show ?case by auto
qed simp

section \<open>Reloading\<close>

lemma master_survives:
  assumes "save_pidfile c pid (ps_files s) = Inr F"
    and "start_dns_proxy c os b p (s\<lparr>ps_files := F\<rparr>) = (Inr (), s1)"
    and "\<And>w. fst (os_wait_worker os w) = ([], Exited code)"
  shows "\<exists>s'. process_master c os b pid wp p s = (Inr (), s') \<and> ps_signaled_exit s' = ps_signaled_exit s"
proof -
  obtain w where w: "os_wait_worker os (ps_world s1) = (([], Exited code), w)"
    using assms(3) [of "ps_world s1"] by (metis prod.collapse)
  have "ps_signaled_exit s1 = ps_signaled_exit s"
    using start_effect [of "s\<lparr>ps_files := F\<rparr>" c os b p] assms(2) by (simp add: start_effect_def)
  with w show ?thesis
    by (simp add: process_master_def assms(1,2) Let_def act_def stop_signaled)
qed

text \<open>When a port of the service is taken, the worker leaves with status 0, the master takes this for
  the end of a reload, and the pass is over with the exit flag unset: the program starts all
  over again, with the same configuration.\<close>

theorem port_taken_reloads:
  assumes "\<not> is_foreground (me_config E)" and "me_forked E = Some wp" and "\<not> ps_signaled_exit (mn_process st)"
    and "service_port (me_config E) > 0" and "bind_error (service_port (me_config E)) \<noteq> None"
    and "process_worker True (fst (unix_worker_run (me_config E) bind_error getpwnam fails loop cr s)) = Some status"
    and "\<And>w. fst (os_wait_worker (me_os E) w) = ([], status)"
    and "save_pidfile (me_config E) (me_pid E) (ps_files (mn_process st)) = Inr F"
    and "start_dns_proxy (me_config E) (me_os E) b p ((mn_process st)\<lparr>ps_files := F\<rparr>) = (Inr (), s1)"
  shows "\<exists>st'. run_service E p b st = (Turn_over, st') \<and> \<not> ps_signaled_exit (mn_process st')"
proof -
  have "status = Exited 0"
    using assms(4-6) by (simp add: process_worker_def unix_worker_run_def run_servers_def)
  with assms(7) have "\<And>w. fst (os_wait_worker (me_os E) w) = ([], Exited 0)" by simp
  then obtain s' where "process_master (me_config E) (me_os E) b (me_pid E) wp p (mn_process st) = (Inr (), s')"
    "ps_signaled_exit s' = ps_signaled_exit (mn_process st)"
    using master_survives [OF assms(8,9)] by blast
  then show ?thesis
    using assms(1-3) by (simp add: run_service_def unix_run_def case_prod_beta Let_def)
qed

end
