(* ===== verification/Dbl_Handshake.thy ===== *)
theory Dbl_Handshake
  imports Dbl_Main
begin

text \<open>
  How master and worker come together (\<open>src/dbl/ipc/ipc.hxx\<close>, \<open>Unix::run\<close>, \<open>process_worker\<close> and
  \<open>process_master\<close> of \<open>src/dbl/service/unix.cxx\<close>): the shared memory, the semaphore in it, on which
  the worker waits for ten seconds, the time that the master takes before it posts, and the signals
  that reach the worker at each point of its life.  Times are in milliseconds since the fork.
\<close>

section \<open>Shared memory\<close>

text \<open>
  \<open>managed_shared_memory\<close> of Boost, with a segment of type \<open>'g\<close>: a new segment of a size, the
  allocation of so many bytes at some address (\<open>None\<close>: \<open>bad_alloc\<close>), and the count of the semaphore
  whose bytes are at an address.  A new segment is zero, and so is memory taken from it.
\<close>

record 'g shm_lib =
  sl_segment :: "nat \<Rightarrow> 'g"
  sl_allocate :: "nat \<Rightarrow> 'g \<Rightarrow> (nat \<times> 'g) option"
  sl_deallocate :: "nat \<Rightarrow> 'g \<Rightarrow> 'g"
  sl_count :: "nat \<Rightarrow> 'g \<Rightarrow> int"
  sl_set_count :: "nat \<Rightarrow> int \<Rightarrow> 'g \<Rightarrow> 'g"

definition shm_ok :: "'g shm_lib \<Rightarrow> bool" where
  "shm_ok L \<longleftrightarrow>
     (\<forall>sz n a g. sl_allocate L n (sl_segment L sz) = Some (a, g) \<longrightarrow> sl_count L a g = 0) \<and>
     (\<forall>a v g. sl_count L a (sl_set_count L a v g) = v)"

text \<open>The names of the system and the segments, which live on without their names.\<close>

record 'g shm =
  sh_names :: "string \<Rightarrow> nat option"
  sh_segments :: "nat \<Rightarrow> 'g"
  sh_next :: nat

record shared_memory =
  sme_name :: string
  sme_segment :: nat
  sme_object :: nat

text \<open>The constructor; the object is allocated and never constructed.\<close>

definition new_shared_memory ::
  "'g shm_lib \<Rightarrow> nat \<Rightarrow> string \<Rightarrow> nat \<Rightarrow> 'g shm \<Rightarrow> (exn + shared_memory) \<times> 'g shm" where
  "new_shared_memory L sizeof name sz S =
     (let (i, S) =
        (case sh_names S name of
           Some i \<Rightarrow> (i, S)
         | None \<Rightarrow>
             (sh_next S, S\<lparr>sh_names := (sh_names S)(name := Some (sh_next S)),
                           sh_segments := (sh_segments S)(sh_next S := sl_segment L sz),
                           sh_next := Suc (sh_next S)\<rparr>))
      in case sl_allocate L sizeof (sh_segments S i) of
           None \<Rightarrow> (Inl (OtherException ''boost::interprocess::bad_alloc''), S)
         | Some (a, g) \<Rightarrow>
             (Inr \<lparr>sme_name = name, sme_segment = i, sme_object = a\<rparr>,
              S\<lparr>sh_segments := (sh_segments S)(i := g)\<rparr>))"

definition delete_shared_memory :: "'g shm_lib \<Rightarrow> shared_memory \<Rightarrow> 'g shm \<Rightarrow> 'g shm" where
  "delete_shared_memory L m S =
     S\<lparr>sh_segments := (sh_segments S)
         (sme_segment m := sl_deallocate L (sme_object m) (sh_segments S (sme_segment m))),
       sh_names := (sh_names S)(sme_name m := None)\<rparr>"

definition get_object :: "shared_memory \<Rightarrow> nat" where
  "get_object m = sme_object m"

definition semaphore_count :: "'g shm_lib \<Rightarrow> shared_memory \<Rightarrow> 'g shm \<Rightarrow> int" where
  "semaphore_count L m S = sl_count L (get_object m) (sh_segments S (sme_segment m))"

definition add_count :: "'g shm_lib \<Rightarrow> shared_memory \<Rightarrow> int \<Rightarrow> 'g shm \<Rightarrow> 'g shm" where
  "add_count L m n S =
     S\<lparr>sh_segments := (sh_segments S)
         (sme_segment m := sl_set_count L (get_object m) (semaphore_count L m S + n)
                             (sh_segments S (sme_segment m)))\<rparr>"

section \<open>The wait of the worker\<close>

text \<open>The time of a trace, when the action at place \<open>i\<close> takes \<open>dur i a\<close>.\<close>

fun elapsed :: "(nat \<Rightarrow> action \<Rightarrow> nat) \<Rightarrow> nat \<Rightarrow> action list \<Rightarrow> nat" where
  "elapsed dur i [] = 0"
| "elapsed dur i (a # as) = dur i a + elapsed dur (Suc i) as"

text \<open>What the master does to the worker that waits, and when.\<close>

datatype master_word = Posts nat | Kills nat | Silent

text \<open>\<open>delay\<close>: the time from the fork until the master has its pid file.\<close>

definition master_says ::
  "(nat \<Rightarrow> action \<Rightarrow> nat) \<Rightarrow> nat \<Rightarrow> config \<Rightarrow> 'w os \<Rightarrow> string \<Rightarrow> int \<Rightarrow> dnsproxy \<Rightarrow> 'w process \<Rightarrow> master_word" where
  "master_says dur delay c os pidof_bin pid p s =
     (case save_pidfile c pid (ps_files s) of
        Inl e \<Rightarrow> Silent
      | Inr F \<Rightarrow>
          (let (r, s1) = start_dns_proxy c os pidof_bin p (s\<lparr>ps_files := F\<rparr>);
               t = delay + elapsed dur 0 (drop (length (ps_trace s)) (ps_trace s1))
           in case r of Inr u \<Rightarrow> Posts t | Inl e \<Rightarrow> Kills t))"

text \<open>
  \<open>timed_wait\<close>: a positive count is taken at once; a signal that is handled during the wait makes
  it throw, which the worker treats like a timeout.
\<close>

datatype sem_wait = Sem_acquired | Sem_timed_out | Sem_interrupted

definition timed_wait :: "int \<Rightarrow> nat \<Rightarrow> master_word \<Rightarrow> sem_wait" where
  "timed_wait count deadline w =
     (if count > 0 then Sem_acquired
      else (case w of
              Posts t \<Rightarrow> if t \<le> deadline then Sem_acquired else Sem_timed_out
            | Kills t \<Rightarrow> if t \<le> deadline then Sem_interrupted else Sem_timed_out
            | Silent \<Rightarrow> Sem_timed_out))"

text \<open>The count once both are through.\<close>

definition after_wait :: "'g shm_lib \<Rightarrow> shared_memory \<Rightarrow> master_word \<Rightarrow> sem_wait \<Rightarrow> 'g shm \<Rightarrow> 'g shm" where
  "after_wait L m w r S =
     add_count L m ((case w of Posts t \<Rightarrow> 1 | _ \<Rightarrow> 0) - (if r = Sem_acquired then 1 else 0)) S"

text \<open>
  \<open>Unix::run\<close> with the worker in it, from the shared memory to its end with the service object.
  \<open>run\<close> is what becomes of the worker if it begins, \<open>sigs\<close> the signals that reach the master while
  it waits, \<open>tm_start\<close> the time at which the worker begins to wait.  \<open>daemon\<close>, whose
  result the code ignores, and the descriptors it closes leave no trace here.  \<open>None\<close>: the master waits and the
  worker still runs.
\<close>

record timing =
  tm_dur :: "nat \<Rightarrow> action \<Rightarrow> nat"
  tm_delay :: nat
  tm_start :: nat

definition worker_wait ::
  "timing \<Rightarrow> int \<Rightarrow> config \<Rightarrow> 'w os \<Rightarrow> string \<Rightarrow> int \<Rightarrow> dnsproxy \<Rightarrow> 'w process \<Rightarrow> sem_wait" where
  "worker_wait T count c os pidof_bin pid p s =
     timed_wait count (tm_start T + 10000) (master_says (tm_dur T) (tm_delay T) c os pidof_bin pid p s)"

definition daemonize ::
  "'g shm_lib \<Rightarrow> nat \<Rightarrow> timing \<Rightarrow> int list \<Rightarrow> worker_end \<Rightarrow> config \<Rightarrow> 'w os \<Rightarrow> string \<Rightarrow> int option \<Rightarrow> int
   \<Rightarrow> dnsproxy \<Rightarrow> 'w process \<Rightarrow> 'g shm \<Rightarrow> ((exn + unit) \<times> 'w process) option \<times> 'g shm" where
  "daemonize L sizeof T sigs run c os pidof_bin forked pid p s S =
     (case new_shared_memory L sizeof ''DNSBlocker'' 65535 S of
        (Inl e, S) \<Rightarrow> (Some (Inl e, s), S)
      | (Inr m, S) \<Rightarrow>
          (case forked of
             None \<Rightarrow> (Some (Inl (RuntimeError ''Daemonizing failed''), s), S)
           | Some worker_pid \<Rightarrow>
               (let word = master_says (tm_dur T) (tm_delay T) c os pidof_bin pid p s;
                    got = worker_wait T (semaphore_count L m S) c os pidof_bin pid p s;
                    S = after_wait L m word got S
                in case waitpid sigs (process_worker (got = Sem_acquired) run) of
                     None \<Rightarrow> (None, S)
                   | Some status \<Rightarrow>
                       (case process_master c (os\<lparr>os_wait_worker := \<lambda>w. ((sigs, status), w)\<rparr>) pidof_bin pid worker_pid p s of
                          (Inl e, s) \<Rightarrow> (Some (Inl e, s), S)
                        | (Inr u, s) \<Rightarrow> (Some (Inr u, s), delete_shared_memory L m S)))))"

section \<open>The shared memory\<close>

lemma new_shared_memory_name:
  "new_shared_memory L sizeof name sz S = (Inr m, S') \<Longrightarrow>
   sme_name m = name \<and> sh_names S' name = Some (sme_segment m) \<and>
   (\<forall>x. x \<noteq> name \<longrightarrow> sh_names S' x = sh_names S x)"
  by (auto simp: new_shared_memory_def Let_def split: option.splits prod.splits)

text \<open>A semaphore in a new segment counts nothing yet, though no constructor has run.\<close>

lemma new_segment_count:
  assumes "shm_ok L" and "sh_names S name = None" and "new_shared_memory L sizeof name sz S = (Inr m, S')"
  shows "semaphore_count L m S' = 0"
  using assms by (auto simp: new_shared_memory_def semaphore_count_def get_object_def shm_ok_def Let_def
      split: option.splits prod.splits)

lemma after_wait_names [simp]: "sh_names (after_wait L m w r S) = sh_names S"
  by (simp add: after_wait_def add_count_def)

lemma after_wait_count:
  assumes "shm_ok L"
  shows "semaphore_count L m (after_wait L m w r S) =
    semaphore_count L m S + (case w of Posts t \<Rightarrow> 1 | _ \<Rightarrow> 0) - (if r = Sem_acquired then 1 else 0)"
  using assms by (simp add: after_wait_def add_count_def semaphore_count_def shm_ok_def split: master_word.split)

text \<open>The name is gone whenever the daemon's run returns, whatever became of the worker.\<close>

theorem shared_memory_removed:
  assumes "daemonize L sizeof T sigs run c os b forked pid p s S = (Some (Inr u, s'), S')"
  shows "sh_names S' ''DNSBlocker'' = None"
  using assms
  by (auto simp: daemonize_def delete_shared_memory_def Let_def
      split: prod.splits sum.splits option.splits dest!: new_shared_memory_name)

text \<open>Memory that was in use before may hold anything: with a positive count in it the worker does
  not wait for the master, and begins although the master's start has failed.\<close>

theorem stale_semaphore_admits:
  "0 < count \<Longrightarrow> process_worker (worker_wait T count c os b pid p s = Sem_acquired) run = worker_status run"
  by (simp add: worker_wait_def timed_wait_def process_worker_def)

section \<open>The time of the start\<close>

lemma start_dns_proxy_no_wait:
  "start_dns_proxy c (os\<lparr>os_wait_worker := f\<rparr>) b p s = start_dns_proxy c os b p s"
proof -
  let ?os = "os\<lparr>os_wait_worker := f\<rparr>"
  have system: "run_system ?os cmd t = run_system os cmd t" for cmd t
    by (simp add: run_system_def)
  have pid: "get_pid_of ?os b x t = get_pid_of os b x t" for x t
    by (simp add: get_pid_of_def run_command_def)
  have "try_commands ?os cmds t = try_commands os cmds t" for cmds t
    by (induction cmds arbitrary: t) (simp_all add: system case_prod_beta Let_def)
  then have rc: "run_rc c ?os a t = run_rc c os a t" for a t
    by (simp add: run_rc_def)
  have wait: "wait_for_pid ?os b x n q t = wait_for_pid os b x n q t" for x n q t
    by (induction n arbitrary: q t) (simp_all add: pid case_prod_beta Let_def)
  show ?thesis unfolding start_dns_proxy_def system pid rc wait ..
qed

text \<open>A start takes no longer than its commands and sleeps together.\<close>

lemma elapsed_start:
  assumes "only_start t" and "\<And>i n. dur i (System n) \<le> a" and "\<And>i n. dur i (Popen n) \<le> b"
    and "\<And>i. dur i (Sleep_ms 100) \<le> e"
  shows "elapsed dur i t \<le> systems t * a + popens t * b + sleeps t * e"
  using assms(1)
proof (induction t arbitrary: i)
  case (Cons x t)
  then have "elapsed dur (Suc i) t \<le> systems t * a + popens t * b + sleeps t * e"
    by (simp add: only_start_def)
  moreover have "dur i x \<le> (case x of System n \<Rightarrow> a | Popen n \<Rightarrow> b | _ \<Rightarrow> e)"
    using Cons.prems assms(2-4) by (cases x) (simp_all add: only_start_def)
  moreover have "(\<exists>n. x = System n) \<or> (\<exists>n. x = Popen n) \<or> x = Sleep_ms 100"
    using Cons.prems by (cases x) (simp_all add: only_start_def)
  ultimately show ?case by (auto simp: systems_def popens_def sleeps_def)
qed (simp add: systems_def popens_def sleeps_def)

lemma start_time:
  assumes "start_dns_proxy c os b p (s\<lparr>ps_files := F\<rparr>) = (r, s1)"
    and "\<And>i n. dur i (System n) \<le> a" and "\<And>i n. dur i (Popen n) \<le> q"
    and "\<And>i. dur i (Sleep_ms 100) \<le> e"
  shows "elapsed dur 0 (drop (length (ps_trace s)) (ps_trace s1)) \<le> 5 * a + 32 * q + 30 * e"
proof -
  obtain t where t: "ps_trace s1 = ps_trace s @ t" "sleeps t \<le> 30" "popens t \<le> 32" "systems t \<le> 5" "only_start t"
    using start_effect [of "s\<lparr>ps_files := F\<rparr>" c os b p] assms(1) by (auto simp: start_effect_def)
  have "elapsed dur 0 t \<le> systems t * a + popens t * q + sleeps t * e"
    by (rule elapsed_start [OF t(5) assms(2-4)])
  also have "\<dots> \<le> 5 * a + 32 * q + 30 * e"
    by (intro add_mono mult_le_mono1 t(2-4))
  finally show ?thesis using t(1) by simp
qed

lemma master_says_started:
  assumes "save_pidfile c pid (ps_files s) = Inr F"
    and "start_dns_proxy c os b p (s\<lparr>ps_files := F\<rparr>) = (r, s1)"
  shows "master_says dur delay c os b pid p s =
    (case r of Inr u \<Rightarrow> Posts (delay + elapsed dur 0 (drop (length (ps_trace s)) (ps_trace s1)))
     | Inl e \<Rightarrow> Kills (delay + elapsed dur 0 (drop (length (ps_trace s)) (ps_trace s1))))"
  using assms by (simp add: master_says_def Let_def)

lemma daemonize_run:
  assumes "new_shared_memory L sizeof ''DNSBlocker'' 65535 S = (Inr m, S1)"
  shows "fst (daemonize L sizeof T sigs run c os b (Some wp) pid p s S) =
    map_option (\<lambda>status. process_master c (os\<lparr>os_wait_worker := \<lambda>w. ((sigs, status), w)\<rparr>) b pid wp p s)
      (waitpid sigs (process_worker (worker_wait T (semaphore_count L m S1) c os b pid p s = Sem_acquired) run))"
  using assms by (simp add: daemonize_def Let_def case_prod_beta split: option.split sum.split prod.split)
    (metis prod.collapse)


text \<open>With a new segment and a start that does not post in time, the worker ends with status 1
  whatever it would do, and the master's run is over.\<close>

lemma unposted_run:
  assumes "shm_ok L" and "sh_names S ''DNSBlocker'' = None"
    and "new_shared_memory L sizeof ''DNSBlocker'' 65535 S = (Inr m, S1)"
    and "save_pidfile c pid (ps_files s) = Inr F"
    and "start_dns_proxy c os b p (s\<lparr>ps_files := F\<rparr>) = (r, s1)"
    and "r = Inr () \<Longrightarrow> tm_start T + 10000 <
      tm_delay T + elapsed (tm_dur T) 0 (drop (length (ps_trace s)) (ps_trace s1))"
  obtains s' t where "fst (daemonize L sizeof T sigs run c os b (Some wp) pid p s S) = Some (Inr (), s')"
    and "ps_signaled_exit s' \<longleftrightarrow> ps_signaled_exit s \<or> r \<noteq> Inr () \<or> SIGTERM \<in> set sigs \<or> SIGINT \<in> set sigs"
    and "ps_trace s' = ps_trace s1 @ (if r = Inr () then Post_semaphore else Kill wp SIGTERM) # t"
    and "Post_semaphore \<notin> set t"
proof -
  define status where "status = (if list_ex master_handles sigs then Wait_failed else Exited 1)"
  let ?os = "os\<lparr>os_wait_worker := \<lambda>w. ((sigs, status), w)\<rparr>"
  have "worker_wait T (semaphore_count L m S1) c os b pid p s \<noteq> Sem_acquired"
    using new_segment_count [OF assms(1-3)] assms(6)
    by (cases r) (simp_all add: worker_wait_def timed_wait_def master_says_started [OF assms(4,5)])
  then have "fst (daemonize L sizeof T sigs run c os b (Some wp) pid p s S) =
      Some (process_master c ?os b pid wp p s)"
    by (simp add: daemonize_run [OF assms(3)] process_worker_def waitpid_def status_def)
  moreover have start: "start_dns_proxy c ?os b p (s\<lparr>ps_files := F\<rparr>) = (r, s1)"
    using assms(5) by (simp add: start_dns_proxy_no_wait)
  have wait: "os_wait_worker ?os (ps_world s1) = ((sigs, status), ps_world s1)" by simp
  obtain s' t where "process_master c ?os b pid wp p s = (Inr (), s')"
    "ps_signaled_exit s' \<longleftrightarrow> ps_signaled_exit s \<or> r \<noteq> Inr () \<or> SIGTERM \<in> set sigs \<or> SIGINT \<in> set sigs"
    "ps_trace s' = ps_trace s1 @ (if r = Inr () then Post_semaphore else Kill wp SIGTERM) # t"
    "Post_semaphore \<notin> set t"
    by (rule process_master_run [OF assms(4) start wait, of wp]) (simp add: status_def split: if_splits)
  ultimately show ?thesis
    using that [of s' t] by simp
qed


text \<open>The master has no limit of its own for the commands it runs: when the restart of the proxy
  service succeeds but takes longer than the ten seconds of the worker, the worker gives up with status
  1, the master posts to nobody, and ends with the reload enabled.  The next pass runs the same
  commands.\<close>

theorem slow_start_reloads:
  assumes "shm_ok L" and "sh_names S ''DNSBlocker'' = None"
    and "new_shared_memory L sizeof ''DNSBlocker'' 65535 S = (Inr m, S1)"
    and "save_pidfile c pid (ps_files s) = Inr F"
    and "start_dns_proxy c os b p (s\<lparr>ps_files := F\<rparr>) = (Inr (), s1)"
    and "tm_start T + 10000 < tm_delay T + elapsed (tm_dur T) 0 (drop (length (ps_trace s)) (ps_trace s1))"
    and "\<not> ps_signaled_exit s"
  shows "\<exists>s'. fst (daemonize L sizeof T [] run c os b (Some wp) pid p s S) = Some (Inr (), s') \<and>
    \<not> ps_signaled_exit s'"
  by (rule unposted_run [OF assms(1-6), of "[]" run wp]) (use assms(7) in auto)

text \<open>The run of a daemon is the one of \<open>unix_run\<close>, on a system that reports the worker's end.\<close>

theorem daemonize_unix_run:
  assumes "new_shared_memory L sizeof ''DNSBlocker'' 65535 S = (Inr m, S1)" and "\<not> is_foreground c"
    and "waitpid sigs (process_worker (worker_wait T (semaphore_count L m S1) c os b pid p s = Sem_acquired) run) = Some status"
  shows "fst (daemonize L sizeof T sigs run c os b forked pid p s S) =
    Some (unix_run c (os\<lparr>os_wait_worker := \<lambda>w. ((sigs, status), w)\<rparr>) b forked pid worker p s)"
proof (cases forked)
  case None
  with assms(1,2) show ?thesis by (simp add: daemonize_def unix_run_def)
next
  case (Some wp)
  with assms(2,3) show ?thesis by (simp add: daemonize_run [OF assms(1)] unix_run_def)
qed

section \<open>The worker under signals\<close>

text \<open>
  The worker process from the fork on.  A SIGTERM meets the default action in the first pass of the
  program and, in later ones, the handler that the master installed in an earlier pass, which the
  fork inherits; after \<open>sigaction\<close> it meets the worker's own handler, \<open>signal_stop\<close>, for which there is no
  worker object until \<open>run_worker\<close> has made one.  \<open>lf_kills\<close>: whom the process has signalled itself.
\<close>

datatype disposition = Default_action | Inherited_handler

datatype life_pc = Forked | Awaiting | Released | In_worker | Ended wait_status

record life =
  lf_pc :: life_pc
  lf_worker :: "race option"
  lf_kills :: "int list"

datatype life_event = Install | Got_semaphore | Gave_up | Create_worker | Loop | Leave | Term

text \<open>\<open>garbage\<close> is the member \<open>worker_pid_\<close> in the worker, where nothing sets it.\<close>

inductive life_step :: "disposition \<Rightarrow> int \<Rightarrow> life \<Rightarrow> life_event \<Rightarrow> life \<Rightarrow> bool" for D garbage where
  install: "lf_pc l = Forked \<Longrightarrow> life_step D garbage l Install (l\<lparr>lf_pc := Awaiting\<rparr>)"
| got_semaphore: "lf_pc l = Awaiting \<Longrightarrow> life_step D garbage l Got_semaphore (l\<lparr>lf_pc := Released\<rparr>)"
| gave_up: "lf_pc l = Awaiting \<Longrightarrow> life_step D garbage l Gave_up (l\<lparr>lf_pc := Ended (Exited 1)\<rparr>)"
| create: "lf_pc l = Released \<Longrightarrow>
    life_step D garbage l Create_worker (l\<lparr>lf_pc := In_worker, lf_worker := Some race_start\<rparr>)"
| loop: "lf_pc l = In_worker \<Longrightarrow> lf_worker l = Some r \<Longrightarrow> race_step r r' \<Longrightarrow> fst (snd r') = fst (snd r) \<Longrightarrow>
    life_step D garbage l Loop (l\<lparr>lf_worker := Some r'\<rparr>)"
| leave: "lf_pc l = In_worker \<Longrightarrow> lf_worker l = Some (Finished, sg, told) \<Longrightarrow>
    life_step D garbage l Leave (l\<lparr>lf_pc := Ended (Exited 0)\<rparr>)"
| term_default: "lf_pc l = Forked \<Longrightarrow> D = Default_action \<Longrightarrow>
    life_step D garbage l Term (l\<lparr>lf_pc := Ended (Killed_by SIGTERM)\<rparr>)"
| term_inherited: "lf_pc l = Forked \<Longrightarrow> D = Inherited_handler \<Longrightarrow>
    life_step D garbage l Term (l\<lparr>lf_kills := lf_kills l @ [garbage]\<rparr>)"
| term_awaiting: "lf_pc l = Awaiting \<Longrightarrow> life_step D garbage l Term (l\<lparr>lf_pc := Ended (Exited 1)\<rparr>)"
| term_own: "lf_pc l = Released \<or> lf_pc l = In_worker \<Longrightarrow>
    life_step D garbage l Term (l\<lparr>lf_worker := signal_stop (lf_worker l)\<rparr>)"

inductive_cases life_stepE: "life_step D garbage l e l'"

inductive life_run :: "disposition \<Rightarrow> int \<Rightarrow> life_event list \<Rightarrow> life \<Rightarrow> bool" for D garbage where
  born: "life_run D garbage [] \<lparr>lf_pc = Forked, lf_worker = None, lf_kills = []\<rparr>"
| lives: "life_run D garbage es l \<Longrightarrow> life_step D garbage l e l' \<Longrightarrow> life_run D garbage (es @ [e]) l'"

text \<open>The events after the worker object was made.\<close>

definition since_created :: "life_event list \<Rightarrow> life_event list" where
  "since_created es = tl (dropWhile (\<lambda>e. e \<noteq> Create_worker) es)"

lemma since_created_append:
  "since_created (es @ [e]) = (if Create_worker \<in> set es then since_created es @ [e] else [])"
  by (induction es) (auto simp: since_created_def tl_append split: list.split)

definition life_inv :: "life_event list \<Rightarrow> life \<Rightarrow> bool" where
  "life_inv es l \<longleftrightarrow>
     (case lf_worker l of
        None \<Rightarrow> Create_worker \<notin> set es \<and> lf_pc l \<noteq> In_worker
      | Some (pc, sg, told) \<Rightarrow> Create_worker \<in> set es \<and> lf_pc l \<in> {In_worker, Ended (Exited 0)} \<and>
          (told \<longleftrightarrow> Term \<in> set (since_created es)))"

lemma race_step_own_flag: "race_step r r' \<Longrightarrow> fst (snd r') = fst (snd r) \<Longrightarrow> snd (snd r') = snd (snd r)"
  by (erule race_step.cases) auto

lemma life_invariant: "life_run D garbage es l \<Longrightarrow> life_inv es l"
proof (induction rule: life_run.induct)
  case born
  show ?case by (simp add: life_inv_def)
next
  case (lives es l e l')
  show ?case
  proof (cases "lf_worker l")
    case None
    with lives(2,3) show ?thesis
      by (auto simp: life_inv_def since_created_append signal_stop_def race_start_def elim!: life_stepE)
  next
    case (Some r)
    obtain pc sg told where r: "r = (pc, sg, told)" by (rule prod_cases3)
    with lives(2,3) Some show ?thesis
      by (auto simp: life_inv_def since_created_append signal_stop_def dest: race_step_own_flag elim!: life_stepE)
  qed
qed


text \<open>So a stop between the semaphore and the worker object is lost: the worker goes on to its wait as
  if nothing had been asked.\<close>

theorem early_stop_lost:
  "life_run D garbage [Install, Got_semaphore, Term, Create_worker, Loop, Loop]
     \<lparr>lf_pc = In_worker, lf_worker = Some (Waiting_cv, Sg_start, False), lf_kills = []\<rparr>"
proof -
  note steps = life_step.intros [where D = D and garbage = garbage]
  let ?l = "\<lambda>pc w. \<lparr>lf_pc = pc, lf_worker = w, lf_kills = []\<rparr> :: life"
  have "life_run D garbage ([] @ [Install]) (?l Awaiting None)"
    by (rule lives [OF born]) (use steps(1) [of "?l Forked None"] in simp)
  then have "life_run D garbage (([] @ [Install]) @ [Got_semaphore]) (?l Released None)"
    by (rule lives) (use steps(2) [of "?l Awaiting None"] in simp)
  then have "life_run D garbage ((([] @ [Install]) @ [Got_semaphore]) @ [Term]) (?l Released None)"
    by (rule lives) (use steps(10) [of "?l Released None"] in \<open>simp add: signal_stop_def\<close>)
  then have "life_run D garbage (((([] @ [Install]) @ [Got_semaphore]) @ [Term]) @ [Create_worker])
      (?l In_worker (Some race_start))"
    by (rule lives) (use steps(4) [of "?l Released None"] in simp)
  then have "life_run D garbage ((((([] @ [Install]) @ [Got_semaphore]) @ [Term]) @ [Create_worker]) @ [Loop])
      (?l In_worker (Some (Before_wait, Sg_start, False)))"
    by (rule lives) (use steps(5) [of "?l In_worker (Some race_start)" race_start, OF _ _ test_go [of Sg_start, folded race_start_def]]
        in \<open>simp add: race_start_def\<close>)
  then have "life_run D garbage (((((([] @ [Install]) @ [Got_semaphore]) @ [Term]) @ [Create_worker]) @ [Loop]) @ [Loop])
      (?l In_worker (Some (Waiting_cv, Sg_start, False)))"
    by (rule lives) (use steps(5) [of "?l In_worker (Some (Before_wait, Sg_start, False))", OF _ _ begin_wait [of Sg_start False]] in simp)
  then show ?thesis by simp
qed

lemma life_ended: "life_step D garbage l e l' \<Longrightarrow> lf_pc l \<noteq> Ended status"
  by (auto elim!: life_stepE)

definition early_inv :: "life_event list \<Rightarrow> life \<Rightarrow> bool" where
  "early_inv es l \<longleftrightarrow> lf_kills l = [] \<and>
     (Got_semaphore \<notin> set es \<longrightarrow> lf_pc l \<in> {Forked, Awaiting, Ended (Killed_by SIGTERM), Ended (Exited 1)}) \<and>
     (Term \<in> set (takeWhile (\<lambda>e. e \<noteq> Got_semaphore) es) \<longrightarrow>
        lf_pc l \<in> {Ended (Killed_by SIGTERM), Ended (Exited 1)})"

lemma early_invariant: "life_run Default_action garbage es l \<Longrightarrow> early_inv es l"
proof (induction rule: life_run.induct)
  case born
  show ?case by (simp add: early_inv_def)
next
  case (lives es l e l')
  from lives(2) have "lf_pc l \<noteq> Ended status" for status by (rule life_ended)
  with lives(3) have early: "Term \<notin> set (takeWhile (\<lambda>e. e \<noteq> Got_semaphore) es)"
    "lf_kills l = []" "Got_semaphore \<notin> set es \<Longrightarrow> lf_pc l \<in> {Forked, Awaiting}"
    by (auto simp: early_inv_def)
  have "takeWhile (\<lambda>e. e \<noteq> Got_semaphore) es = es" if "Got_semaphore \<notin> set es"
    using that by (simp add: takeWhile_eq_all_conv) metis
  with early(1) have "Got_semaphore \<notin> set es \<Longrightarrow> Term \<notin> set es" by metis
  note early = early this
  with lives(2) early show ?case
    by (cases "Got_semaphore \<in> set es")
      (auto simp: early_inv_def takeWhile_append elim!: life_stepE)
qed

text \<open>In the first pass a stop before the semaphore ends the worker at once.\<close>

theorem stop_before_start_ends_worker:
  assumes "life_run Default_action garbage es l" and "Term \<in> set (takeWhile (\<lambda>e. e \<noteq> Got_semaphore) es)"
  shows "lf_pc l \<in> {Ended (Killed_by SIGTERM), Ended (Exited 1)}"
  using early_invariant [OF assms(1)] assms(2) by (simp add: early_inv_def)

text \<open>In a later pass the new worker runs the handler of the master until it has its own: a stop is
  sent on to whatever process \<open>worker_pid_\<close> happens to name, and the worker itself begins to serve.\<close>

theorem inherited_handler_misdirects_stop:
  "life_run Inherited_handler garbage [Term, Install, Got_semaphore, Create_worker]
     \<lparr>lf_pc = In_worker, lf_worker = Some race_start, lf_kills = [garbage]\<rparr>"
proof -
  note steps = life_step.intros [where D = Inherited_handler and garbage = garbage]
  let ?l = "\<lambda>pc w. \<lparr>lf_pc = pc, lf_worker = w, lf_kills = [garbage]\<rparr> :: life"
  have "life_run Inherited_handler garbage ([] @ [Term]) (?l Forked None)"
    by (rule lives [OF born])
      (use steps(8) [of "\<lparr>lf_pc = Forked, lf_worker = None, lf_kills = []\<rparr>"] in simp)
  then have "life_run Inherited_handler garbage (([] @ [Term]) @ [Install]) (?l Awaiting None)"
    by (rule lives) (use steps(1) [of "?l Forked None"] in simp)
  then have "life_run Inherited_handler garbage ((([] @ [Term]) @ [Install]) @ [Got_semaphore]) (?l Released None)"
    by (rule lives) (use steps(2) [of "?l Awaiting None"] in simp)
  then have "life_run Inherited_handler garbage (((([] @ [Term]) @ [Install]) @ [Got_semaphore]) @ [Create_worker])
      (?l In_worker (Some race_start))"
    by (rule lives) (use steps(4) [of "?l Released None"] in simp)
  then show ?thesis by simp
qed

end
