(* ===== verification/Dbl_Signals.thy ===== *)
theory Dbl_Signals
  imports Dbl_Handshake
begin

text \<open>
  Signals to the master (\<open>setup_master_signals\<close> and \<open>process_master\<close> of \<open>src/dbl/service/unix.cxx\<close>, the
  loop of \<open>src/dbl/main.cxx\<close>).  A signal interrupts the wait for the worker; the handlers stay
  installed from the first pass of the loop to the end of the program, while the service object, which they use, is
  deleted and made anew in each pass.
\<close>

section \<open>A signal during the wait\<close>


section \<open>Signals at any time\<close>

text \<open>
  The master from the start of the program: where it is in the pass, and which pid the member \<open>worker_pid_\<close>
  of its service object holds there, if there is an object (any value until the fork).  \<open>ma_kills\<close>: whom it has
  sent a SIGTERM; \<open>ma_alive\<close>: its workers that have not ended.
\<close>

datatype master_over = Returns | Ended_by int

datatype master_pc =
  Loop_head | In_pass | Made int | Has_forked int | Begins_start int | In_waitpid int | Cleans_up int | Over master_over

record master_life =
  ma_pc :: master_pc
  ma_handlers :: bool
  ma_exit :: bool
  ma_kills :: "int list"
  ma_alive :: "int list"

definition new_master :: master_life where
  "new_master = \<lparr>ma_pc = Loop_head, ma_handlers = False, ma_exit = False, ma_kills = [], ma_alive = []\<rparr>"

fun worker_pid :: "master_pc \<Rightarrow> int option" where
  "worker_pid (Made g) = Some g"
| "worker_pid (Has_forked w) = Some w"
| "worker_pid (Begins_start w) = Some w"
| "worker_pid (In_waitpid w) = Some w"
| "worker_pid (Cleans_up w) = Some w"
| "worker_pid pc = None"

text \<open>
  The handler of \<open>setup_master_signals\<close>; \<open>stop\<close> is called through \<open>service_ptr\<close> also where there is no object.
  Before the handlers are installed the signal ends the process.
\<close>

definition interrupted :: "master_pc \<Rightarrow> master_pc" where
  "interrupted pc = (case pc of In_waitpid w \<Rightarrow> Cleans_up w | _ \<Rightarrow> pc)"

definition handle_signal :: "int \<Rightarrow> master_life \<Rightarrow> master_life" where
  "handle_signal sig m =
     (if \<not> ma_handlers m then m\<lparr>ma_pc := Over (Ended_by sig)\<rparr>
      else (let m = m\<lparr>ma_exit := ma_exit m \<or> sig = SIGTERM \<or> sig = SIGINT\<rparr>
            in case worker_pid (ma_pc m) of
                 None \<Rightarrow> m\<lparr>ma_pc := Over (Ended_by SIGSEGV)\<rparr>
               | Some w \<Rightarrow> m\<lparr>ma_kills := ma_kills m @ [w], ma_pc := interrupted (ma_pc m)\<rparr>))"

text \<open>
  The steps of the loop of \<open>main\<close>, of \<open>Unix::run\<close> and \<open>process_master\<close>.  \<open>Quits\<close>: the program
  returns or ends by an exception, before the fork or because the pid file can not be written; in
  \<open>Aborts\<close> it stops the service first (\<open>configure\<close> failed).  \<open>Reaps\<close>: \<open>waitpid\<close> returns, and the argument
  says that the worker crashed.  The fork and the assignment to \<open>worker_pid_\<close> are one step, and \<open>daemon\<close>,
  which goes on in a child with the same handlers, is none.
\<close>

datatype master_event =
  Starts_pass | Leaves_loop | Makes int | Quits | Aborts | Forks int | Installs | Proxy_up | Proxy_fails
| Worker_ends int | Reaps bool | Drops | Signal int

inductive master_step :: "master_life \<Rightarrow> master_event \<Rightarrow> master_life \<Rightarrow> bool" where
  starts_pass: "ma_pc m = Loop_head \<Longrightarrow> \<not> ma_exit m \<Longrightarrow> master_step m Starts_pass (m\<lparr>ma_pc := In_pass\<rparr>)"
| leaves_loop: "ma_pc m = Loop_head \<Longrightarrow> ma_exit m \<Longrightarrow> master_step m Leaves_loop (m\<lparr>ma_pc := Over Returns\<rparr>)"
| makes: "ma_pc m = In_pass \<Longrightarrow> master_step m (Makes g) (m\<lparr>ma_pc := Made g\<rparr>)"
| quits: "ma_pc m = In_pass \<or> ma_pc m = Made g \<or> ma_pc m = Has_forked w \<Longrightarrow>
    master_step m Quits (m\<lparr>ma_pc := Over Returns\<rparr>)"
| aborts: "ma_pc m = Made g \<Longrightarrow> master_step m Aborts (m\<lparr>ma_pc := Over Returns, ma_kills := ma_kills m @ [g]\<rparr>)"
| forks: "ma_pc m = Made g \<Longrightarrow> w \<notin> set (ma_alive m) \<Longrightarrow>
    master_step m (Forks w) (m\<lparr>ma_pc := Has_forked w, ma_alive := w # ma_alive m\<rparr>)"
| installs: "ma_pc m = Has_forked w \<Longrightarrow> master_step m Installs (m\<lparr>ma_pc := Begins_start w, ma_handlers := True\<rparr>)"
| proxy_up: "ma_pc m = Begins_start w \<Longrightarrow> master_step m Proxy_up (m\<lparr>ma_pc := In_waitpid w\<rparr>)"
| proxy_fails: "ma_pc m = Begins_start w \<Longrightarrow>
    master_step m Proxy_fails (m\<lparr>ma_pc := In_waitpid w, ma_exit := True, ma_kills := ma_kills m @ [w]\<rparr>)"
| worker_ends: "w \<in> set (ma_alive m) \<Longrightarrow> master_step m (Worker_ends w) (m\<lparr>ma_alive := removeAll w (ma_alive m)\<rparr>)"
| reaps: "ma_pc m = In_waitpid w \<Longrightarrow> w \<notin> set (ma_alive m) \<Longrightarrow>
    master_step m (Reaps crash) (m\<lparr>ma_pc := Cleans_up w, ma_exit := ma_exit m \<or> crash\<rparr>)"
| drops: "ma_pc m = Cleans_up w \<Longrightarrow> master_step m Drops (m\<lparr>ma_pc := Loop_head\<rparr>)"
| signal: "(\<forall>e. ma_pc m \<noteq> Over e) \<Longrightarrow> master_handles sig \<Longrightarrow> master_step m (Signal sig) (handle_signal sig m)"

inductive_cases master_stepE: "master_step m e m'"
inductive_simps master_signal_step: "master_step m (Signal sig) m'"

inductive master_run :: "master_event list \<Rightarrow> master_life \<Rightarrow> bool" where
  starts: "master_run [] new_master"
| goes: "master_run es m \<Longrightarrow> master_step m e m' \<Longrightarrow> master_run (es @ [e]) m'"

section \<open>What a signal does\<close>

text \<open>The events of the pass that is under way, or of the way from the last one to the next.\<close>

definition this_pass :: "master_event list \<Rightarrow> master_event list" where
  "this_pass es = rev (takeWhile (\<lambda>e. e \<noteq> Drops) (rev es))"

lemma this_pass_append: "this_pass (es @ [e]) = (if e = Drops then [] else this_pass es @ [e])"
  by (simp add: this_pass_def)

definition pass_inv :: "master_event list \<Rightarrow> master_life \<Rightarrow> bool" where
  "pass_inv es m \<longleftrightarrow>
     (ma_handlers m \<longleftrightarrow> Installs \<in> set es) \<and>
     (case ma_pc m of
        Loop_head \<Rightarrow> \<forall>x. Makes x \<notin> set (this_pass es) \<and> Forks x \<notin> set (this_pass es)
      | In_pass \<Rightarrow> \<forall>x. Makes x \<notin> set (this_pass es) \<and> Forks x \<notin> set (this_pass es)
      | Made g \<Rightarrow> Makes g \<in> set (this_pass es) \<and> (\<forall>x. Makes x \<in> set (this_pass es) \<longrightarrow> x = g) \<and>
          (\<forall>x. Forks x \<notin> set (this_pass es))
      | Over e \<Rightarrow> True
      | pc \<Rightarrow> (\<exists>g. Makes g \<in> set (this_pass es)) \<and>
          (\<forall>x. Forks x \<in> set (this_pass es) \<longleftrightarrow> worker_pid pc = Some x))"

lemma pass_invariant: "master_run es m \<Longrightarrow> pass_inv es m"
proof (induction rule: master_run.induct)
  case starts
  show ?case by (simp add: pass_inv_def new_master_def this_pass_def)
next
  case (goes es m e m')
  from goes(2,3) show ?case
    by (cases rule: master_step.cases)
      (auto simp: pass_inv_def this_pass_append handle_signal_def interrupted_def Let_def
        split: master_pc.splits option.split)
qed


section \<open>How many workers\<close>

text \<open>Every worker that has not ended is the one of the pass, but for one for each signal.\<close>

definition is_signal :: "master_event \<Rightarrow> bool" where
  "is_signal e = (case e of Signal sig \<Rightarrow> True | _ \<Rightarrow> False)"

definition signals :: "master_event list \<Rightarrow> nat" where
  "signals es = length (filter is_signal es)"

fun own_worker :: "master_pc \<Rightarrow> int option" where
  "own_worker (Has_forked w) = Some w"
| "own_worker (Begins_start w) = Some w"
| "own_worker (In_waitpid w) = Some w"
| "own_worker pc = None"

definition strays :: "master_life \<Rightarrow> int list" where
  "strays m = filter (\<lambda>w. own_worker (ma_pc m) \<noteq> Some w) (ma_alive m)"

definition workers_inv :: "master_event list \<Rightarrow> master_life \<Rightarrow> bool" where
  "workers_inv es m \<longleftrightarrow> distinct (ma_alive m) \<and>
     length (strays m) \<le> signals es + (case ma_pc m of Over e \<Rightarrow> 1 | _ \<Rightarrow> 0)"

lemma filter_own:
  assumes "distinct ws"
  shows "length ws \<le> Suc (length (filter (\<lambda>x. w \<noteq> x) ws))"
  using assms
proof (induction ws)
  case (Cons x ws)
  have "filter (\<lambda>y. x \<noteq> y) ws = ws" by (rule filter_True) (use Cons.prems in auto)
  with Cons show ?case by (cases "w = x") simp_all
qed simp

lemma strays_bound:
  assumes "distinct (ma_alive m)"
  shows "length (ma_alive m) \<le> Suc (length (strays m))"
  using filter_own [OF assms] by (cases "own_worker (ma_pc m)") (auto simp: strays_def)

lemma own_kept:
  "length (filter (\<lambda>x. own_worker pc \<noteq> Some x) (removeAll w ws)) \<le> length (filter (\<lambda>x. own_worker pc \<noteq> Some x) ws)"
  by (induction ws) auto

lemma strays_alive:
  assumes "ma_alive m' = ma_alive m" and "distinct (ma_alive m)"
  shows "length (strays m') \<le> Suc (length (strays m))"
proof -
  have "length (strays m') \<le> length (ma_alive m)" using assms(1) by (simp add: strays_def)
  also have "\<dots> \<le> Suc (length (strays m))" by (rule strays_bound [OF assms(2)])
  finally show ?thesis .
qed

lemma handle_signal_alive [simp]: "ma_alive (handle_signal sig m) = ma_alive m"
  by (simp add: handle_signal_def Let_def split: option.split)

text \<open>A step makes at most one worker a stray: when the master ends, or at a signal.\<close>

lemma step_strays:
  assumes "master_step m e m'" and "distinct (ma_alive m)"
  shows "distinct (ma_alive m') \<and>
    (length (strays m') \<le> length (strays m) \<or>
     length (strays m') \<le> Suc (length (strays m)) \<and> (is_signal e \<or> (\<exists>x. ma_pc m' = Over x) \<and> (\<forall>x. ma_pc m \<noteq> Over x)))"
  using assms(1)
proof (cases rule: master_step.cases)
  case (forks g w)
  then have "strays m' = ma_alive m" "strays m = ma_alive m"
    by (auto simp: strays_def filter_id_conv)
  with forks assms(2) show ?thesis by simp
next
  case (worker_ends w)
  then show ?thesis using own_kept [of "ma_pc m" w "ma_alive m"] assms(2)
    by (simp add: strays_def distinct_removeAll)
next
  case (reaps w crash)
  then have "strays m' = ma_alive m" "strays m = ma_alive m"
    by (auto simp: strays_def filter_id_conv)
  then show ?thesis using reaps assms(2) by simp
next
  case (quits g w)
  then show ?thesis using strays_alive [of m' m] assms(2) by auto
next
  case (signal sig)
  then show ?thesis using strays_alive [of m' m] assms(2) by (simp add: is_signal_def)
qed (use assms(2) in \<open>simp_all add: strays_def\<close>)

lemma over_stays: "master_step m e m' \<Longrightarrow> ma_pc m = Over x \<Longrightarrow> ma_pc m' = Over x \<and> \<not> is_signal e"
  by (auto simp: is_signal_def elim!: master_stepE)

lemma workers_invariant: "master_run es m \<Longrightarrow> workers_inv es m"
proof (induction rule: master_run.induct)
  case starts
  show ?case by (simp add: workers_inv_def new_master_def strays_def)
next
  case (goes es m e m')
  have "signals (es @ [e]) = signals es + (if is_signal e then 1 else 0)" by (simp add: signals_def)
  with step_strays [OF goes(2)] goes(3) over_stays [OF goes(2)] show ?case
    by (auto simp: workers_inv_def split: master_pc.splits)
qed

text \<open>However long the program runs, there is at most one worker more than signals have come: without
  signals each pass waits for its worker.\<close>

theorem workers_bounded:
  assumes "master_run es m" and "\<forall>e. ma_pc m \<noteq> Over e"
  shows "length (ma_alive m) \<le> Suc (signals es)"
proof -
  have "length (ma_alive m) \<le> Suc (length (strays m))"
    by (rule strays_bound) (use workers_invariant [OF assms(1)] in \<open>simp add: workers_inv_def\<close>)
  also have "\<dots> \<le> Suc (signals es)"
    using workers_invariant [OF assms(1)] assms(2)
    by (auto simp: workers_inv_def split: master_pc.splits)
  finally show ?thesis .
qed

text \<open>The first pass, up to a SIGHUP during the wait, and the way to the next.\<close>

abbreviation master_at :: "master_pc \<Rightarrow> bool \<Rightarrow> int list \<Rightarrow> int list \<Rightarrow> master_life" where
  "master_at pc hs ks ws \<equiv> \<lparr>ma_pc = pc, ma_handlers = hs, ma_exit = False, ma_kills = ks, ma_alive = ws\<rparr>"

lemma hangup_run:
  "master_run [Starts_pass, Makes g, Forks a, Installs, Proxy_up, Signal SIGHUP, Drops]
     (master_at Loop_head True [a] [a])"
proof -
  have run: "master_run [] (master_at Loop_head False [] [])" using starts by (simp add: new_master_def)
  have run: "master_run ([] @ [Starts_pass]) (master_at In_pass False [] [])"
    by (rule goes [OF run]) (use starts_pass [of "master_at Loop_head False [] []"] in simp)
  note run = goes [OF this makes [of _ g], simplified]
  note run = goes [OF run forks [of _ g a], simplified]
  note run = goes [OF run installs [of _ a], simplified]
  note run = goes [OF run proxy_up [of _ a], simplified]
  note run = goes [OF run signal [of _ SIGHUP], simplified master_handles_def handle_signal_def interrupted_def,
      simplified]
  note run = goes [OF run drops [of _ a], simplified]
  then show ?thesis by (simp add: SIGHUP_def SIGTERM_def SIGINT_def)
qed

text \<open>One SIGHUP is enough for two workers: the master starts the next while the one that it has told to stop
  still has the port.\<close>

theorem hangup_two_workers:
  assumes "a \<noteq> b"
  shows "master_run
      [Starts_pass, Makes g, Forks a, Installs, Proxy_up, Signal SIGHUP, Drops, Starts_pass, Makes h, Forks b]
      (master_at (Has_forked b) True [a] [b, a])"
proof -
  note run = goes [OF hangup_run starts_pass, simplified]
  note run = goes [OF run makes [of _ h], simplified]
  note run = goes [OF run forks [of _ h b], simplified]
  then show ?thesis using assms by simp
qed

end
