(* ===== verification/Dbl_Transactions.thy ===== *)
theory Dbl_Transactions
  imports Dbl_Managers
begin

text \<open>
  The database at the grain of transactions.  The JSON service, the HTTP responder and the updater
  run in threads of their own over one pool of sessions, and an operation of the managers may open
  several sessions: between two of them the other threads can run.  \<open>db_txn\<close> is one committed
  transaction of any thread; an operation is a sequence of them (\<open>step_txns\<close>), so what holds along
  \<open>db_txn\<close> holds for every interleaving of the operations.
\<close>

named_theorems txns \<open>operations are sequences of transactions\<close>

section \<open>Transactions\<close>

inductive db_txn :: "db \<Rightarrow> db \<Rightarrow> bool" where
  tx_env: "db_txn d (d\<lparr>db_now := t, db_faults := fs\<rparr>)"
| tx_init: "length (db_lists d) = 0 \<Longrightarrow>
    foldE sql_insert_initial_list initial_domain_lists d = Inr d' \<Longrightarrow> db_txn d d'"
| tx_set_setting: "db_txn d (sql_replace_setting k v d)"
| tx_remove_setting: "db_txn d (sql_delete_setting k d)"
| tx_insert_list: "c \<in> {0, 1} \<Longrightarrow> db_txn d (sql_insert_or_ignore_list n u de c d)"
| tx_import: "import_rows i ns d = Inr (u, d') \<Longrightarrow> db_txn d d'"
| tx_delete_list: "db_txn d (sql_delete_list n d)"
| tx_set_active: "s \<in> {0, 1} \<Longrightarrow> db_txn d (sql_set_active s n d)"
| tx_block: "block_rows i ns d = Inr (u, d') \<Longrightarrow> db_txn d d'"
| tx_unblock: "unblock_rows ns d = Inr (u, d') \<Longrightarrow> db_txn d d'"
| tx_hit: "hit_rows seen n d = Inr (u, d') \<Longrightarrow> db_txn d d'"

abbreviation db_txns :: "db \<Rightarrow> db \<Rightarrow> bool" where
  "db_txns \<equiv> db_txn\<^sup>*\<^sup>*"

lemma txns_faults: "db_txns d (d\<lparr>db_faults := fs\<rparr>)"
  using tx_env [where d = d and t = "db_now d" and fs = fs] by simp

lemma txns_take_fault: "take_fault d = (f, d') \<Longrightarrow> db_txns d d'"
  by (drule take_fault_tables) (auto intro: txns_faults)

lemma txns_transact:
  assumes "transact body d = (r, d')" and "\<And>d x d'. body d = Inr (x, d') \<Longrightarrow> db_txns d d'"
  shows "db_txns d d'"
proof -
  obtain f d1 where tf: "take_fault d = (f, d1)" by (cases "take_fault d")
  then have d1: "db_txns d d1" by (rule txns_take_fault)
  from tf assms(1) have "(\<exists>fs. d' = d1\<lparr>db_faults := fs\<rparr>) \<or> (\<exists>x. body d1 = Inr (x, d'))"
    by (auto simp: transact_def same_faults split: option.splits sum.splits)
  then have "db_txns d1 d'" using assms(2) txns_faults by blast
  with d1 show ?thesis by (rule rtranclp_trans)
qed

lemma txns_statement:
  "transact (\<lambda>d. Inr (x, f d)) d = (r, d') \<Longrightarrow> (\<And>d. db_txn d (f d)) \<Longrightarrow> db_txns d d'"
  by (erule txns_transact) auto

lemma txns_query: "query f d = (r, d') \<Longrightarrow> db_txns d d'"
  by (auto simp: query_def txns_faults split: list.splits fate.splits)

lemma txns_read: "transact (\<lambda>d. Inr (f d, d)) d = (r, d') \<Longrightarrow> db_txns d d'"
  by (erule txns_transact) auto

section \<open>The operations as sequences of transactions\<close>

lemma txns_queries [txns]:
  "db_txns d (snd (sm_get k v d))" "db_txns d (snd (dm_get i d))"
  "db_txns d (snd (dm_get_by_name n d))" "db_txns d (snd (dm_get_blocked d))"
  "db_txns d (snd (dm_get_whitelisted d))" "db_txns d (snd (dm_count_blocked d))"
  "db_txns d (snd (dlm_get_all d))" "db_txns d (snd (dlm_count d))"
  by (auto simp: sm_get_def dm_get_def dm_get_by_name_def dm_get_blocked_def
      dm_get_whitelisted_def dm_count_blocked_def dlm_get_all_def dlm_count_def Let_def
      split: prod.splits sum.splits option.splits dest: txns_query txns_read)

lemma txns_settings [txns]:
  "db_txns d (snd (sm_set k v d))" "db_txns d (snd (sm_remove k d))"
  by (auto simp: sm_set_def sm_remove_def split: prod.splits sum.splits
      elim!: txns_statement intro: db_txn.intros)

lemma txns_lists [txns]:
  "db_txns d (snd (dlm_remove n d))" "db_txns d (snd (dlm_set_enabled n e d))"
  by (auto simp: dlm_remove_def dlm_set_enabled_def split: prod.splits sum.splits
      elim!: txns_statement intro: tx_delete_list tx_set_active)

lemma txns_get_list [txns]: "db_txns d (snd (dlm_get_by_name n w d))"
proof -
  obtain r d1 where q: "query (sql_get_list_by_name n) d = (r, d1)" by force
  then have d1: "db_txns d d1" by (rule txns_query)
  have "db_txns d (snd (dm_get i d1))" for i
    by (rule rtranclp_trans [OF d1]) (rule txns)
  with q d1 show ?thesis
    by (auto simp: dlm_get_by_name_def Let_def case_prod_beta split: sum.splits)
qed

lemma txns_create [txns]: "db_txns d (snd (dlm_create n u de c d))"
proof -
  let ?n = "if n = [] then ''CUSTOM'' else n"
  let ?t = "transact (\<lambda>d. Inr ((), sql_insert_or_ignore_list ?n u de (if c then 1 else 0) d)) d"
  obtain r d1 where t: "?t = (r, d1)" by force
  then have d1: "db_txns d d1" by (rule txns_statement) (rule tx_insert_list, simp)
  have "db_txns d (snd (dlm_get_by_name ?n False d1))"
    by (rule rtranclp_trans [OF d1]) (rule txns)
  with t d1 show ?thesis
    by (auto simp: dlm_create_def Let_def split: sum.splits option.splits prod.splits)
qed

text \<open>A transaction after the session or two of \<open>create\<close>.\<close>

lemma txns_after:
  assumes "db_txns d d1" and "\<And>d x d'. body d = Inr (x, d') \<Longrightarrow> db_txn d d'"
  shows "db_txns d (snd (transact body d1))"
proof -
  have "db_txns d1 (snd (transact body d1))"
    by (rule txns_transact [OF surjective_pairing]) (blast intro: assms(2))
  with assms(1) show ?thesis by (rule rtranclp_trans)
qed

lemma txns_import [txns]: "db_txns d (snd (dlm_import l c d))"
proof -
  obtain r d1 where c: "dlm_create (dl_name l) (dl_url l)
    (case dl_description l of None \<Rightarrow> [] | Some s \<Rightarrow> s) c d = (r, d1)" by force
  then have d1: "db_txns d d1"
    using txns_create [of d "dl_name l" "dl_url l"] by (metis snd_conv)
  then have "db_txns d (snd (transact (import_rows i ns) d1))" for i ns
    by (rule txns_after) (rule tx_import)
  with c d1 show ?thesis
    by (auto simp: dlm_import_def case_prod_beta split: outcome.splits sum.splits)
qed

lemma txns_block [txns]: "db_txns d (snd (dm_block_domains R ns i d))"
proof -
  obtain r d1 where c: "(if i = 0 then dlm_create ''CUSTOM'' [] ''Custom list'' True d
    else (Ok i, d)) = (r, d1)" by force
  have d1: "db_txns d d1"
    using c txns_create [of d "''CUSTOM''" "[]" "''Custom list''" True] by (cases "i = 0") simp_all
  then have "db_txns d (snd (transact (block_rows j vs) d1))" for j vs
    by (rule txns_after) (rule tx_block)
  with c d1 show ?thesis
    by (auto simp: dm_block_domains_def Let_def case_prod_beta split: outcome.splits sum.splits)
qed

lemma txns_unblock [txns]: "db_txns d (snd (dm_unblock_domains R ns d))"
proof -
  have "db_txns d (snd (transact (unblock_rows vs) d))" for vs
    by (rule txns_after [OF rtranclp.rtrancl_refl]) (rule tx_unblock)
  then show ?thesis
    by (auto simp: dm_unblock_domains_def Let_def case_prod_beta split: sum.splits)
qed

lemma txns_init [txns]: "db_txns d (snd (db_init d))"
  unfolding db_init_def
proof (rule txns_after)
  show "db_txns d (reopen d)" unfolding reopen_def by (rule txns_faults)
  fix d :: db and x :: unit and d' :: db
  assume run: "init_rows d = Inr (x, d')"
  show "db_txn d d'"
  proof (cases "length (db_lists d) = 0")
    case True
    with run show ?thesis by (simp add: init_rows_def run_iff del: length_0_conv) (rule tx_init)
  next
    case False
    with run show ?thesis
      using tx_env [where d = d and t = "db_now d" and fs = "db_faults d"] by (simp add: init_rows_def)
  qed
qed

lemma txns_hit [txns]: "db_txns d (snd (log_domain_hit n seen d))"
proof -
  obtain f d1 where tf: "take_fault d = (f, d1)" by (cases "take_fault d")
  then have d1: "db_txns d d1" by (rule txns_take_fault)
  have hit: "db_txns d d2" if "hit_rows b n d1 = Inr (u, d2)" for b u d2
    using d1 tx_hit [OF that] by (rule rtranclp.rtrancl_into_rtrancl)
  with tf d1 show ?thesis
    by (simp add: log_domain_hit_def Let_def hit_rows_def split: list.split fate.split option.split)
qed

theorem step_txns: "db_step R d d' \<Longrightarrow> db_txns d d'"
  by (induction rule: db_step.induct) (rule txns | (rule r_into_rtranclp, rule tx_env))+

lemma reachable_txns: "db_reachable R d \<Longrightarrow> \<exists>t. db_txns (empty_db t) d"
proof (induction rule: db_reachable.induct)
  case (reach_step d d')
  then show ?case using step_txns rtranclp_trans by metis
qed blast

section \<open>Invariants of every interleaving\<close>

text \<open>
  The flags of the lists: they are 0 or 1, and only the list with the name of the initial
  whitelist can be a whitelist.
\<close>

definition list_flags :: "db \<Rightarrow> bool" where
  "list_flags d \<longleftrightarrow> (\<forall>l \<in> set (db_lists d). lr_active l \<in> {0, 1} \<and> lr_custom l \<in> {0, 1} \<and>
     lr_is_whitelist l \<in> {0, 1} \<and> (lr_is_whitelist l = 1 \<longrightarrow> lr_name l = ''WHITELIST''))"

lemma list_flags_lists: "db_lists d' = db_lists d \<Longrightarrow> list_flags d' = list_flags d"
  by (simp add: list_flags_def)

lemma list_flags_insert:
  "list_flags d \<Longrightarrow> c \<in> {0, 1} \<Longrightarrow> list_flags (sql_insert_or_ignore_list n u de c d)"
  by (auto simp: list_flags_def sql_insert_or_ignore_list_def add_list_row_def)

lemma list_flags_map:
  assumes "list_flags d"
    and "\<And>l. lr_name (f l) = lr_name l \<and> lr_custom (f l) = lr_custom l \<and>
      lr_is_whitelist (f l) = lr_is_whitelist l"
    and "\<And>l. lr_active l \<in> {0, 1} \<Longrightarrow> lr_active (f l) \<in> {0, 1}"
  shows "list_flags (d\<lparr>db_lists := map f (db_lists d)\<rparr>)"
  using assms by (simp add: list_flags_def)

lemma list_flags_touch: "list_flags d \<Longrightarrow> list_flags (sql_touch_list i d)"
  unfolding sql_touch_list_def by (erule list_flags_map) auto

lemma list_flags_set_active: "s \<in> {0, 1} \<Longrightarrow> list_flags d \<Longrightarrow> list_flags (sql_set_active s n d)"
  unfolding sql_set_active_def by (erule list_flags_map) auto

lemma list_flags_init:
  assumes "length (db_lists d) = 0"
    and "foldE sql_insert_initial_list initial_domain_lists d = Inr d'"
  shows "list_flags d'"
  using assms
  by (auto simp: initial_domain_lists_def sql_insert_initial_list_def has_list_def add_list_row_def
      next_list_id_def list_flags_def)

text \<open>The domain statements leave the lists alone.\<close>

lemma foldE_lists:
  assumes "\<And>x d d'. f x d = Inr d' \<Longrightarrow> db_lists d' = db_lists d" and "foldE f xs d = Inr d'"
  shows "db_lists d' = db_lists d"
  by (rule foldE_invariant [where P = "\<lambda>e. db_lists e = db_lists d", OF assms(2)])
    (auto dest: assms(1))

lemma domain_rows_lists:
  "sql_insert_or_replace_domain n i d = Inr d' \<Longrightarrow> db_lists d' = db_lists d"
  "sql_insert_or_ignore_domain n j d = Inr d' \<Longrightarrow> db_lists d' = db_lists d"
  by (auto simp: sql_insert_or_replace_domain_def sql_insert_or_ignore_domain_def put_domain_def
      add_domain_row_def split: option.splits if_splits)

lemma block_rows_lists: "block_rows i ns d = Inr (u, d') \<Longrightarrow> db_lists d' = db_lists d"
  using domains_only_fold [of sql_delete_not_whitelisted d ns]
  by (auto simp: block_rows_def run_iff frame dest!: foldE_lists [rotated] domain_rows_lists)

lemma unblock_rows_lists: "unblock_rows ns d = Inr (u, d') \<Longrightarrow> db_lists d' = db_lists d"
  by (auto simp: unblock_rows_def run_iff dest!: foldE_lists [rotated] domain_rows_lists)

lemma import_rows_lists:
  assumes "import_rows i ns d = Inr (u, d')"
  obtains d1 where "d' = sql_touch_list i d1" "db_lists d1 = db_lists d"
  using assms
  by (auto simp: import_rows_def run_iff dest!: foldE_lists [rotated] domain_rows_lists)

lemma txn_wf: "db_txn d d' \<Longrightarrow> db_wf d \<Longrightarrow> db_wf d'"
proof (induction rule: db_txn.induct)
  case (tx_init d d')
  then show ?case by (blast intro: foldE_invariant wf_insert_initial_list)
next
  case (tx_hit seen n d u d')
  then show ?case by (auto simp: hit_rows_def intro: wf_intros split: if_splits)
qed (auto intro: wf_intros wf_import_rows wf_block_rows wf_unblock_rows)

lemma txn_flags: "db_txn d d' \<Longrightarrow> list_flags d \<Longrightarrow> list_flags d'"
proof (induction rule: db_txn.induct)
  case (tx_import i ns d u d')
  from tx_import(1) obtain d1 where "d' = sql_touch_list i d1" "db_lists d1 = db_lists d"
    by (rule import_rows_lists)
  with tx_import(2) list_flags_lists [of d1 d] show ?case by (simp add: list_flags_touch)
next
  case (tx_delete_list d n)
  then show ?case by (simp add: list_flags_def sql_delete_list_def Let_def)
next
  case (tx_hit seen n d u d')
  then have "db_lists d' = db_lists d"
    by (auto simp: hit_rows_def sql_increment_hits_def sql_insert_or_ignore_stat_def)
  with tx_hit(2) list_flags_lists [of d' d] show ?case by simp
next
  case (tx_init d d')
  then show ?case by (blast intro: list_flags_init)
next
  case (tx_block i ns d u d')
  then show ?case using block_rows_lists list_flags_lists by blast
next
  case (tx_unblock ns d u d')
  then show ?case using unblock_rows_lists list_flags_lists by blast
next
  case (tx_insert_list c d n u de)
  then show ?case by (blast intro: list_flags_insert)
next
  case (tx_set_active s d n)
  then show ?case by (blast intro: list_flags_set_active)
qed (simp_all add: list_flags_def sql_replace_setting_def sql_delete_setting_def)

lemma txns_invariant: "db_txns d d' \<Longrightarrow> db_wf d \<and> list_flags d \<Longrightarrow> db_wf d' \<and> list_flags d'"
  by (induction rule: rtranclp_induct) (blast intro: txn_wf txn_flags)+

lemma list_flags_empty: "list_flags (empty_db t)"
  by (simp add: list_flags_def empty_db_def)

lemma reachable_flags: "db_reachable R d \<Longrightarrow> list_flags d"
  using reachable_txns txns_invariant wf_empty_db list_flags_empty by blast

text \<open>Whatever way the transactions of the service, the responder, the updater and the tools
  interleave, starting from a new database: names and ids stay unique, every domain belongs to a
  list, and the only list that can be a whitelist is the one named WHITELIST.\<close>

theorem interleaving_keeps_database:
  assumes "db_txns (empty_db t) d"
  shows "db_wf d \<and> list_flags d"
  using assms txns_invariant wf_empty_db list_flags_empty by blast

end
