(* ===== verification/Dbl_Policy.thy ===== *)
theory Dbl_Policy
  imports Dbl_Transactions
begin

text \<open>
  What the managers promise, without tables: a policy says which lists there are, whether each is
  active and whether it is a whitelist, and to which list each domain belongs; every operation of
  the managers is a function on policies (\<open>policy_step\<close>), unless the policy is frozen, which one
  command does (\<open>abstract_step\<close>).  The code implements it: a simulation when no session fails but for
  a transaction left open, and all or nothing for each operation when sessions fail.
\<close>

section \<open>Verdicts\<close>

datatype verdict = Unlisted | Blocked | Whitelisted

text \<open>The order in which a command of the user can move a domain.\<close>

instantiation verdict :: linorder
begin

fun rank_verdict :: "verdict \<Rightarrow> nat" where
  "rank_verdict Unlisted = 0"
| "rank_verdict Blocked = 1"
| "rank_verdict Whitelisted = 2"

definition less_eq_verdict :: "verdict \<Rightarrow> verdict \<Rightarrow> bool" where
  "less_eq_verdict v w \<longleftrightarrow> rank_verdict v \<le> rank_verdict w"

definition less_verdict :: "verdict \<Rightarrow> verdict \<Rightarrow> bool" where
  "less_verdict v w \<longleftrightarrow> rank_verdict v < rank_verdict w"

instance
proof
  fix v w :: verdict
  assume "v \<le> w" and "w \<le> v"
  then show "v = w" by (cases v; cases w) (simp_all add: less_eq_verdict_def)
qed (auto simp: less_eq_verdict_def less_verdict_def)

end

lemma verdict_max [simp]:
  "max Unlisted v = v" "max v Unlisted = v" "max Whitelisted v = Whitelisted"
  "max v Whitelisted = Whitelisted" "max Blocked Blocked = Blocked"
  by (cases v; simp add: max_def less_eq_verdict_def)+

section \<open>Policies\<close>

text \<open>The kind of a list: whether it is active, and whether it is a whitelist.\<close>

type_synonym list_kind = "bool \<times> bool"

record policy =
  po_lists :: "string \<Rightarrow> list_kind option"
  po_place :: "string \<Rightarrow> string option"

definition verdict :: "policy \<Rightarrow> string \<Rightarrow> verdict" where
  "verdict p k =
     (case po_place p k of None \<Rightarrow> Unlisted
      | Some n \<Rightarrow> (case po_lists p n of
            Some (True, white) \<Rightarrow> if white then Whitelisted else Blocked
          | _ \<Rightarrow> Unlisted))"

definition p_on_white :: "policy \<Rightarrow> string \<Rightarrow> bool" where
  "p_on_white p k =
     (case po_place p k of None \<Rightarrow> False
      | Some n \<Rightarrow> (case po_lists p n of Some (a, white) \<Rightarrow> white | None \<Rightarrow> False))"

definition p_create :: "string \<Rightarrow> policy \<Rightarrow> policy" where
  "p_create n p =
     (case po_lists p n of None \<Rightarrow> p\<lparr>po_lists := (po_lists p)(n \<mapsto> (True, False))\<rparr> | Some k \<Rightarrow> p)"

definition p_move :: "(string \<Rightarrow> bool) \<Rightarrow> string \<Rightarrow> policy \<Rightarrow> policy" where
  "p_move S n p = p\<lparr>po_place := \<lambda>k. if S k then Some n else po_place p k\<rparr>"

definition p_enable :: "string \<Rightarrow> bool \<Rightarrow> policy \<Rightarrow> policy" where
  "p_enable n e p = p\<lparr>po_lists := (po_lists p)(n := map_option (\<lambda>(a, w). (e, w)) (po_lists p n))\<rparr>"

definition p_remove :: "string \<Rightarrow> policy \<Rightarrow> policy" where
  "p_remove n p = p\<lparr>po_lists := (po_lists p)(n := None),
     po_place := \<lambda>k. if po_place p k = Some n then None else po_place p k\<rparr>"

text \<open>The operations that change the database, and what each does to the policy.\<close>

datatype command =
    Block "string list"
  | Unblock "string list"
  | Create string string string bool
  | Import domain_list bool
  | Enable string bool
  | Remove string
  | Set_setting string string
  | Remove_setting string
  | Hit string "string \<Rightarrow> bool option"

fun perform :: "resolver \<Rightarrow> command \<Rightarrow> db \<Rightarrow> db" where
  "perform R (Block ns) d = snd (dm_block_domains R ns 0 d)"
| "perform R (Unblock ns) d = snd (dm_unblock_domains R ns d)"
| "perform R (Create n u de c) d = snd (dlm_create n u de c d)"
| "perform R (Import l c) d = snd (dlm_import l c d)"
| "perform R (Enable n e) d = snd (dlm_set_enabled n e d)"
| "perform R (Remove n) d = snd (dlm_remove n d)"
| "perform R (Set_setting k v) d = snd (sm_set k v d)"
| "perform R (Remove_setting k) d = snd (sm_remove k d)"
| "perform R (Hit n seen) d = snd (log_domain_hit n seen d)"

fun policy_step :: "resolver \<Rightarrow> command \<Rightarrow> policy \<Rightarrow> policy" where
  "policy_step R (Block ns) p =
     (if filter_valid R ns = [] then p
      else p_move (\<lambda>k. k \<in> set ns \<and> valid_name R k \<and> \<not> p_on_white p k) ''CUSTOM''
             (p_create ''CUSTOM'' p))"
| "policy_step R (Unblock ns) p =
     (if filter_valid R ns = [] \<or> po_lists p ''WHITELIST'' = None then p
      else p_move (\<lambda>k. k \<in> set ns \<and> valid_name R k) ''WHITELIST'' p)"
| "policy_step R (Create n u de c) p = p_create (custom_name n) p"
| "policy_step R (Import l c) p =
     p_move (\<lambda>k. k \<in> d_name ` set (dl_domains l)) (custom_name (dl_name l))
       (p_create (custom_name (dl_name l)) p)"
| "policy_step R (Enable n e) p = p_enable n e p"
| "policy_step R (Remove n) p = p_remove n p"
| "policy_step R (Set_setting k v) p = p"
| "policy_step R (Remove_setting k) p = p"
| "policy_step R (Hit n seen) p = p"

section \<open>The policy of a database\<close>

definition list_kinds :: "db \<Rightarrow> string \<Rightarrow> list_kind option" where
  "list_kinds d n =
     map_option (\<lambda>l. (lr_active l = 1, lr_is_whitelist l = 1)) (find (\<lambda>l. lr_name l = n) (db_lists d))"

definition place :: "db \<Rightarrow> string \<Rightarrow> string option" where
  "place d k =
     (case domain_map d k of None \<Rightarrow> None
      | Some i \<Rightarrow> map_option lr_name (find (\<lambda>l. lr_id l = i) (db_lists d)))"

definition policy_of :: "db \<Rightarrow> policy" where
  "policy_of d = \<lparr>po_lists = list_kinds d, po_place = place d\<rparr>"

lemma policy_of_sel [simp]:
  "po_lists (policy_of d) = list_kinds d" "po_place (policy_of d) = place d"
  by (simp_all add: policy_of_def)

lemma policy_of_tables:
  "db_lists d = db_lists d' \<Longrightarrow> db_domains d = db_domains d' \<Longrightarrow> policy_of d = policy_of d'"
  by (simp add: policy_of_def list_kinds_def [abs_def] place_def [abs_def] domain_map_def
      cong: option.case_cong)

lemma policy_of_faults [simp]: "policy_of (d\<lparr>db_faults := fs\<rparr>) = policy_of d"
  by (rule policy_of_tables) simp_all

lemma list_kinds_dom: "list_kinds d n = None \<longleftrightarrow> list_id_of n d = None"
  by (simp add: list_kinds_def list_id_of_def)

lemma list_kinds_row:
  assumes "db_wf d"
  shows "list_kinds d n = Some k \<longleftrightarrow>
    (\<exists>l \<in> set (db_lists d). lr_name l = n \<and> k = (lr_active l = 1, lr_is_whitelist l = 1))"
proof
  assume "list_kinds d n = Some k"
  then show "\<exists>l \<in> set (db_lists d). lr_name l = n \<and> k = (lr_active l = 1, lr_is_whitelist l = 1)"
    by (auto simp: list_kinds_def dest: find_Some_mem)
next
  assume "\<exists>l \<in> set (db_lists d). lr_name l = n \<and> k = (lr_active l = 1, lr_is_whitelist l = 1)"
  then obtain l where l: "l \<in> set (db_lists d)" "lr_name l = n"
    "k = (lr_active l = 1, lr_is_whitelist l = 1)" by blast
  then obtain m where m: "find (\<lambda>l. lr_name l = n) (db_lists d) = Some m"
    by (cases "find (\<lambda>l. lr_name l = n) (db_lists d)") (auto simp: find_None_iff)
  with l assms have "m = l" by (auto dest!: find_Some_mem intro: list_by_name_unique)
  with l m show "list_kinds d n = Some k" by (simp add: list_kinds_def)
qed

lemma place_iff:
  assumes "db_wf d"
  shows "place d k = Some n \<longleftrightarrow> (\<exists>i. domain_map d k = Some i \<and> list_id_of n d = Some i)"
proof
  assume "place d k = Some n"
  then obtain i l where "domain_map d k = Some i" "find (\<lambda>l. lr_id l = i) (db_lists d) = Some l"
    "lr_name l = n" by (auto simp: place_def split: option.splits)
  then show "\<exists>i. domain_map d k = Some i \<and> list_id_of n d = Some i"
    using list_id_of_row [OF assms, of n i] by (auto dest: find_Some_mem)
next
  assume "\<exists>i. domain_map d k = Some i \<and> list_id_of n d = Some i"
  then obtain i l where i: "domain_map d k = Some i"
    and l: "l \<in> set (db_lists d)" "lr_name l = n" "lr_id l = i"
    using list_id_of_row [OF assms] by blast
  then obtain m where m: "find (\<lambda>l. lr_id l = i) (db_lists d) = Some m"
    by (cases "find (\<lambda>l. lr_id l = i) (db_lists d)") (auto simp: find_None_iff)
  with l assms have "m = l" by (auto dest!: find_Some_mem intro: list_by_id_unique)
  with i l m show "place d k = Some n" by (simp add: place_def)
qed

lemma place_total:
  assumes "db_wf d" and "domain_map d k = Some i"
  obtains n where "place d k = Some n" "list_id_of n d = Some i"
proof -
  from assms obtain l where "l \<in> set (db_lists d)" "lr_id l = i"
    using domain_map_Some_row [OF assms(2)] by (auto simp: db_wf_def list_ids_def)
  then have "list_id_of (lr_name l) d = Some i" using list_id_of_row [OF assms(1)] by blast
  with assms that show ?thesis using place_iff [OF assms(1)] by blast
qed

text \<open>The policy tells what the queries of the managers select.\<close>

lemma verdict_listed:
  assumes "db_wf d" and "list_flags d"
  shows "verdict (policy_of d) k = Blocked \<longleftrightarrow> blocked d k"
    and "verdict (policy_of d) k = Whitelisted \<longleftrightarrow> whitelisted d k"
    and "p_on_white (policy_of d) k \<longleftrightarrow> on_whitelist d k"
proof -
  have "(verdict (policy_of d) k = Blocked \<longleftrightarrow> blocked d k) \<and>
    (verdict (policy_of d) k = Whitelisted \<longleftrightarrow> whitelisted d k) \<and>
    (p_on_white (policy_of d) k \<longleftrightarrow> on_whitelist d k)"
  proof (cases "domain_map d k")
    case None
    then have "place d k = None" by (simp add: place_def)
    with None show ?thesis
      by (simp add: verdict_def p_on_white_def blocked_def whitelisted_def listed_def on_whitelist_def)
  next
    case (Some i)
    with assms(1) obtain n where n: "place d k = Some n" "list_id_of n d = Some i"
      by (rule place_total)
    then obtain l where l: "l \<in> set (db_lists d)" "lr_name l = n" "lr_id l = i"
      using list_id_of_row [OF assms(1)] by blast
    then have kind: "list_kinds d n = Some (lr_active l = 1, lr_is_whitelist l = 1)"
      using list_kinds_row [OF assms(1)] by blast
    have dm: "domain_map d k = Some (lr_id l)" using Some l(3) by simp
    have "i \<in> whitelist_ids d \<longleftrightarrow> lr_is_whitelist l = 1"
      using l list_by_id_unique [OF assms(1)] by (fastforce simp: whitelist_ids_def)
    moreover have "lr_is_whitelist l \<in> {0, 1}" using assms(2) l(1) by (simp add: list_flags_def)
    ultimately show ?thesis
      using Some n(1) kind listed_same_list [OF assms(1) l(1) dm]
      by (auto simp: verdict_def p_on_white_def blocked_def whitelisted_def blocks_def
          whitelists_def on_whitelist_def split: bool.splits)
  qed
  then show "verdict (policy_of d) k = Blocked \<longleftrightarrow> blocked d k"
    and "verdict (policy_of d) k = Whitelisted \<longleftrightarrow> whitelisted d k"
    and "p_on_white (policy_of d) k \<longleftrightarrow> on_whitelist d k" by blast+
qed

section \<open>What the statements do to the policy\<close>

lemma policy_eqI:
  fixes p q :: policy
  assumes "\<And>n. po_lists p n = po_lists q n" and "\<And>k n. po_place p k = Some n \<longleftrightarrow> po_place q k = Some n"
  shows "p = q"
  using assms by (intro policy.equality) (auto simp: fun_eq_iff intro: option_eqI)

lemma policy_move:
  assumes "db_wf d" and "db_wf d'" and "domains_only d d'" and "list_id_of n d = Some i"
    and "domain_map d' = (\<lambda>k. if S k then Some i else domain_map d k)"
  shows "policy_of d' = p_move S n (policy_of d)"
proof (rule policy_eqI)
  have lists: "db_lists d' = db_lists d" using assms(3) by (rule frame)
  then show "po_lists (policy_of d') m = po_lists (p_move S n (policy_of d)) m" for m
    by (simp add: p_move_def list_kinds_def)
  have ids: "list_id_of m d' = list_id_of m d" for m using lists by (simp add: list_id_of_def)
  have only: "list_id_of m d = Some i \<longleftrightarrow> m = n" for m
    using assms(4) list_id_of_row [OF assms(1)] list_by_id_unique [OF assms(1)] by metis
  fix k m
  show "po_place (policy_of d') k = Some m \<longleftrightarrow> po_place (p_move S n (policy_of d)) k = Some m"
  proof (cases "S k")
    case True
    then have "place d' k = Some m \<longleftrightarrow> m = n"
      by (simp add: place_iff [OF assms(2)] ids assms(5) only)
    with True show ?thesis by (auto simp: p_move_def)
  next
    case False
    then have "place d' k = Some m \<longleftrightarrow> place d k = Some m"
      by (simp add: place_iff [OF assms(2)] place_iff [OF assms(1)] ids assms(5))
    with False show ?thesis by (simp add: p_move_def)
  qed
qed

lemma domain_map_ids: "db_wf d \<Longrightarrow> domain_map d k = Some i \<Longrightarrow> i \<in> list_ids d"
  using domain_map_Some_row [of d k i] by (auto simp: db_wf_def)

lemma policy_create:
  assumes "db_wf d"
  shows "policy_of (sql_insert_or_ignore_list n u de c d) = p_create n (policy_of d)"
proof (rule policy_eqI)
  let ?d = "sql_insert_or_ignore_list n u de c d"
  have wf: "db_wf ?d" using assms by (rule wf_insert_or_ignore_list)
  have new: "list_kinds d n = None \<longleftrightarrow> \<not> has_list n d"
    by (simp add: list_kinds_dom list_id_of_None)
  then show "po_lists (policy_of ?d) m = po_lists (p_create n (policy_of d)) m" for m
    by (auto simp: p_create_def sql_insert_or_ignore_list_def add_list_row_def list_kinds_def
        find_append_new split: option.splits)
  have "next_list_id d \<notin> list_ids d"
    using next_list_id_fresh [of _ d] by (fastforce simp: list_ids_def)
  then have "list_id_of m ?d = Some i \<longleftrightarrow> list_id_of m d = Some i" if "i \<in> list_ids d" for m i
    using that by (auto simp: list_id_of_insert split: option.splits)
  then show "po_place (policy_of ?d) k = Some m \<longleftrightarrow> po_place (p_create n (policy_of d)) k = Some m" for k m
    using domain_map_ids [OF assms]
    by (auto simp: p_create_def place_iff [OF assms] place_iff [OF wf] split: option.splits)
qed

lemma policy_touch: "db_wf d \<Longrightarrow> policy_of (sql_touch_list i d) = policy_of d"
proof (rule policy_eqI)
  fix n k m
  assume wf: "db_wf d"
  have "map_option (\<lambda>l. (lr_active l = 1, lr_is_whitelist l = 1)) (find (\<lambda>l. lr_name l = n)
      (map (\<lambda>l. if lr_id l = i then l\<lparr>lr_mtime := t\<rparr> else l) ls)) =
    map_option (\<lambda>l. (lr_active l = 1, lr_is_whitelist l = 1)) (find (\<lambda>l. lr_name l = n) ls)" for t ls
    by (induction ls) auto
  then show "po_lists (policy_of (sql_touch_list i d)) n = po_lists (policy_of d) n"
    by (simp add: list_kinds_def sql_touch_list_def)
  show "po_place (policy_of (sql_touch_list i d)) k = Some m \<longleftrightarrow> po_place (policy_of d) k = Some m"
    by (simp add: place_iff wf wf_touch_list list_id_of_touch)
qed

lemma policy_enable:
  assumes "db_wf d"
  shows "policy_of (sql_set_active (if e then 1 else 0) n d) = p_enable n e (policy_of d)"
proof (rule policy_eqI)
  let ?s = "if e then 1 else 0 :: int"
  fix m k j
  have "map_option (\<lambda>l. (lr_active l = 1, lr_is_whitelist l = 1)) (find (\<lambda>l. lr_name l = m)
      (map (\<lambda>l. if lr_name l = n then l\<lparr>lr_active := ?s\<rparr> else l) ls)) =
    (let r = map_option (\<lambda>l. (lr_active l = 1, lr_is_whitelist l = 1)) (find (\<lambda>l. lr_name l = m) ls)
     in if m = n then map_option (\<lambda>(a, w). (e, w)) r else r)" for ls
    by (induction ls) auto
  from this [of "db_lists d"]
  show "po_lists (policy_of (sql_set_active ?s n d)) m = po_lists (p_enable n e (policy_of d)) m"
    by (cases "m = n") (simp_all add: p_enable_def list_kinds_def sql_set_active_def Let_def
      split del: if_split)
  have "map_option lr_id (find (\<lambda>l. lr_name l = j)
      (map (\<lambda>l. if lr_name l = n then l\<lparr>lr_active := ?s\<rparr> else l) ls)) =
    map_option lr_id (find (\<lambda>l. lr_name l = j) ls)" for ls
    by (induction ls) auto
  from this [of "db_lists d"] have "list_id_of j (sql_set_active ?s n d) = list_id_of j d"
    by (simp add: list_id_of_def sql_set_active_def split del: if_split)
  moreover have "domain_map (sql_set_active ?s n d) = domain_map d"
    by (simp add: domain_map_def sql_set_active_def)
  ultimately show "po_place (policy_of (sql_set_active ?s n d)) k = Some j \<longleftrightarrow>
      po_place (p_enable n e (policy_of d)) k = Some j"
    by (simp add: p_enable_def place_iff assms wf_set_active)
qed

lemma find_filter_name:
  "find (\<lambda>l. lr_name l = m) (filter (\<lambda>l. lr_name l \<noteq> n) ls) =
     (if m = n then None else find (\<lambda>l. lr_name l = m) ls)"
  by (induction ls) auto

lemma domain_map_delete_list:
  assumes "db_wf d"
  shows "domain_map (sql_delete_list n d) k = Some i \<longleftrightarrow>
    domain_map d k = Some i \<and> list_id_of n d \<noteq> Some i"
  using domain_map_row [OF wf_delete_list [OF assms], of n k i] domain_map_row [OF assms, of k i]
    list_id_of_row [OF assms, of n i]
  by (auto simp: sql_delete_list_def Let_def)

lemma policy_remove:
  assumes "db_wf d"
  shows "policy_of (sql_delete_list n d) = p_remove n (policy_of d)"
proof (rule policy_eqI)
  let ?d = "sql_delete_list n d"
  have wf: "db_wf ?d" using assms by (rule wf_delete_list)
  have lists: "db_lists ?d = filter (\<lambda>l. lr_name l \<noteq> n) (db_lists d)"
    by (simp add: sql_delete_list_def Let_def)
  show "po_lists (policy_of ?d) m = po_lists (p_remove n (policy_of d)) m" for m
    by (simp add: p_remove_def list_kinds_def lists find_filter_name)
  fix k m
  have ids: "list_id_of m ?d = (if m = n then None else list_id_of m d)"
    by (simp add: list_id_of_def lists find_filter_name)
  have "list_id_of n d = Some i \<Longrightarrow> list_id_of m d = Some i \<Longrightarrow> m = n" for i
    using list_id_of_row [OF assms] list_by_id_unique [OF assms] by metis
  then have "place ?d k = Some m \<longleftrightarrow> place d k = Some m \<and> m \<noteq> n"
    by (auto simp: place_iff [OF assms] place_iff [OF wf] ids domain_map_delete_list [OF assms]
        split: if_splits)
  then show "po_place (policy_of ?d) k = Some m \<longleftrightarrow> po_place (p_remove n (policy_of d)) k = Some m"
    by (auto simp: p_remove_def)
qed

section \<open>The transactions of domains and lists\<close>

text \<open>The condition of the simulation: the schema and the flags hold.\<close>

lemma policy_block_rows:
  assumes "db_wf d" and "list_flags d" and "list_id_of n d = Some i"
    and "block_rows i ns d = Inr (u, d')"
  shows "policy_of d' = p_move (\<lambda>k. k \<in> set ns \<and> \<not> p_on_white (policy_of d) k) n (policy_of d)"
proof -
  from assms(1) list_id_of_ids [OF assms(3)] obtain d2 where d2: "block_rows i ns d = Inr ((), d2)"
    "db_wf d2" "domains_only d d2"
    "domain_map d2 = (\<lambda>k. if k \<in> set ns \<and> \<not> on_whitelist d k then Some i else domain_map d k)"
    by (rule block_rows_ok)
  with assms(4) have "d' = d2" by simp
  with d2 assms show ?thesis
    using policy_move [of d d' n i "\<lambda>k. k \<in> set ns \<and> \<not> on_whitelist d k"]
    by (simp add: verdict_listed(3))
qed

lemma policy_import_rows:
  assumes "db_wf d" and "list_id_of n d = Some i" and "import_rows i ns d = Inr (u, d')"
  shows "policy_of d' = p_move (\<lambda>k. k \<in> set ns) n (policy_of d)"
proof -
  from assms(1) list_id_of_ids [OF assms(2)] obtain d2 where d2:
    "import_rows i ns d = Inr ((), sql_touch_list i d2)" "db_wf d2" "domains_only d d2"
    "domain_map d2 = (\<lambda>k. if k \<in> set ns then Some i else domain_map d k)"
    by (rule import_rows_ok)
  with assms have "policy_of d2 = p_move (\<lambda>k. k \<in> set ns) n (policy_of d)"
    by (intro policy_move)
  with d2 assms(3) show ?thesis by (simp add: policy_touch)
qed

lemma policy_unblock_rows:
  assumes "db_wf d" and "unblock_rows ns d = Inr (u, d')" and "ns \<noteq> []"
  shows "list_kinds d ''WHITELIST'' \<noteq> None \<and>
    policy_of d' = p_move (\<lambda>k. k \<in> set ns) ''WHITELIST'' (policy_of d)"
proof (cases "sql_whitelist_id d")
  case None
  with assms show ?thesis by (simp add: unblock_rows_no_whitelist)
next
  case (Some w)
  with assms(1) obtain d2 where d2: "unblock_rows ns d = Inr ((), d2)" "db_wf d2" "domains_only d d2"
    "domain_map d2 = (\<lambda>k. if k \<in> set ns then Some w else domain_map d k)"
    by (rule unblock_rows_ok)
  have w: "list_id_of ''WHITELIST'' d = Some w"
    using Some by (simp add: sql_whitelist_id_def list_id_of_def)
  with d2 assms(1,2) have "policy_of d' = p_move (\<lambda>k. k \<in> set ns) ''WHITELIST'' (policy_of d)"
    using policy_move [of d d' "''WHITELIST''" w "\<lambda>k. k \<in> set ns"] by simp
  with w list_kinds_dom [of d "''WHITELIST''"] show ?thesis by simp
qed

section \<open>The managers implement the policy\<close>

text \<open>The schema and the flags hold, and no session fails.\<close>

definition calm :: "db \<Rightarrow> bool" where
  "calm d \<longleftrightarrow> db_wf d \<and> list_flags d \<and> db_faults d = []"

lemma calmD: "calm d \<Longrightarrow> db_wf d" "calm d \<Longrightarrow> list_flags d" "calm d \<Longrightarrow> db_faults d = []"
  by (simp_all add: calm_def)

text \<open>
  A command that leaves its transaction open: to unblock domains when the list WHITELIST is gone.
\<close>

fun freezes :: "resolver \<Rightarrow> command \<Rightarrow> policy \<Rightarrow> bool" where
  "freezes R (Unblock ns) p \<longleftrightarrow> filter_valid R ns \<noteq> [] \<and> po_lists p ''WHITELIST'' = None"
| "freezes R _ p \<longleftrightarrow> False"

definition frozen :: "db \<Rightarrow> bool" where
  "frozen d \<longleftrightarrow> (case db_faults d of Stuck # fs \<Rightarrow> True | _ \<Rightarrow> False)"

text \<open>The abstract machine: the policy, and whether it is frozen.\<close>

fun abstract_step :: "resolver \<Rightarrow> command \<Rightarrow> policy \<times> bool \<Rightarrow> policy \<times> bool" where
  "abstract_step R c (p, True) = (p, True)"
| "abstract_step R c (p, False) = (policy_step R c p, freezes R c p)"

lemma block_policy:
  assumes "calm d"
  shows "policy_of (perform R (Block ns) d) = policy_step R (Block ns) (policy_of d) \<and>
    db_faults (perform R (Block ns) d) = []"
proof (cases "filter_valid R ns = []")
  case True
  then show ?thesis using calmD(3) [OF assms] by (simp add: dm_block_domains_def)
next
  case False
  let ?d1 = "sql_insert_or_ignore_list ''CUSTOM'' [] ''Custom list'' 1 d"
  obtain i d' where d': "dm_block_domains R ns 0 d = (Ok True, d')" "db_wf d'" "domains_only ?d1 d'"
    "list_id_of ''CUSTOM'' d' = Some i"
    "domain_map d' = (\<lambda>k. if k \<in> set ns \<and> valid_name R k \<and> \<not> on_whitelist d k then Some i
                          else domain_map d k)"
    using calmD(1,3) [OF assms] False by (rule block_custom_run)
  have wf: "db_wf ?d1" using calmD(1) [OF assms] by (rule wf_insert_or_ignore_list)
  have id: "list_id_of ''CUSTOM'' ?d1 = Some i" using d'(3,4) by (simp add: list_id_of_def frame)
  have "policy_of d' = p_move (\<lambda>k. k \<in> set ns \<and> valid_name R k \<and> \<not> on_whitelist d k) ''CUSTOM''
      (policy_of ?d1)"
    using wf d'(2,3) id by (rule policy_move) (simp add: d'(5) cong: if_cong)
  moreover have "db_faults d' = []" using d'(3) calmD(3) [OF assms] by (simp add: frame)
  ultimately show ?thesis
    using False d'(1) calmD [OF assms] by (simp add: policy_create verdict_listed(3))
qed

lemma unblock_policy:
  assumes "calm d"
  shows "policy_of (perform R (Unblock ns) d) = policy_step R (Unblock ns) (policy_of d) \<and>
    db_faults (perform R (Unblock ns) d) = (if freezes R (Unblock ns) (policy_of d) then [Stuck] else [])"
proof (cases "filter_valid R ns = [] \<or> sql_whitelist_id d = None")
  case True
  have w: "list_kinds d ''WHITELIST'' = None \<longleftrightarrow> sql_whitelist_id d = None"
    by (simp add: list_kinds_dom sql_whitelist_id_def list_id_of_def)
  from True calmD(3) [OF assms] show ?thesis
    by (auto simp: dm_unblock_domains_def transact_ok unblock_rows_no_whitelist w Let_def)
next
  case False
  then obtain w where w: "sql_whitelist_id d = Some w" by auto
  from False have valid: "filter_valid R ns \<noteq> []" by simp
  obtain d' where d': "dm_unblock_domains R ns d = (True, d')" "db_wf d'" "domains_only d d'"
    "domain_map d' = (\<lambda>k. if k \<in> set ns \<and> valid_name R k then Some w else domain_map d k)"
    by (rule unblock_run [OF calmD(1,3) [OF assms] valid w])
  have id: "list_id_of ''WHITELIST'' d = Some w"
    using w by (simp add: sql_whitelist_id_def list_id_of_def)
  have "policy_of d' = p_move (\<lambda>k. k \<in> set ns \<and> valid_name R k) ''WHITELIST'' (policy_of d)"
    using calmD(1) [OF assms] d'(2,3) id d'(4) by (rule policy_move)
  moreover have "db_faults d' = []" using d'(3) calmD(3) [OF assms] by (simp add: frame)
  moreover obtain kind where "list_kinds d ''WHITELIST'' = Some kind"
    using id list_kinds_dom [of d "''WHITELIST''"] by (cases "list_kinds d ''WHITELIST''") auto
  ultimately show ?thesis using valid d'(1) by simp
qed

lemma import_policy:
  assumes "calm d"
  shows "policy_of (perform R (Import l c) d) = policy_step R (Import l c) (policy_of d) \<and>
    db_faults (perform R (Import l c) d) = []"
proof -
  let ?n = "custom_name (dl_name l)"
  obtain i u de ci d2 where run: "dlm_import l c d = (Ok True, sql_touch_list i d2)" "db_wf d2"
    "list_id_of ?n d2 = Some i" "domains_only (sql_insert_or_ignore_list ?n u de ci d) d2"
    "domain_map d2 = (\<lambda>k. if k \<in> d_name ` set (dl_domains l) then Some i else domain_map d k)"
    by (rule dlm_import_ok [OF calmD(1,3) [OF assms]])
  let ?d1 = "sql_insert_or_ignore_list ?n u de ci d"
  have wf: "db_wf ?d1" using calmD(1) [OF assms] by (rule wf_insert_or_ignore_list)
  have id: "list_id_of ?n ?d1 = Some i" using run(3,4) by (simp add: list_id_of_def frame)
  have "policy_of d2 = p_move (\<lambda>k. k \<in> d_name ` set (dl_domains l)) ?n (policy_of ?d1)"
    using wf run(2,4) id by (rule policy_move) (simp add: run(5) cong: if_cong)
  moreover have "db_faults d2 = []" using run(4) calmD(3) [OF assms] by (simp add: frame)
  ultimately show ?thesis
    using run(1,2) calmD(1) [OF assms]
    by (simp add: policy_touch policy_create sql_touch_list_def [of i d2, THEN arg_cong [of _ _ db_faults]])
qed

lemma list_policy:
  assumes "calm d"
  shows "policy_of (perform R (Create n u de b) d) = policy_step R (Create n u de b) (policy_of d) \<and>
      db_faults (perform R (Create n u de b) d) = []"
    and "policy_of (perform R (Enable n e) d) = policy_step R (Enable n e) (policy_of d) \<and>
      db_faults (perform R (Enable n e) d) = []"
    and "policy_of (perform R (Remove n) d) = policy_step R (Remove n) (policy_of d) \<and>
      db_faults (perform R (Remove n) d) = []"
  using calmD [OF assms] policy_enable [OF calmD(1) [OF assms], of e n]
  by (simp_all add: dlm_create_ok policy_create dlm_set_enabled_def dlm_remove_def transact_ok
      policy_remove) (simp_all add: sql_set_active_def sql_delete_list_def Let_def)

lemma setting_policy:
  assumes "calm d"
  shows "policy_of (perform R (Set_setting k v) d) = policy_of d \<and>
      db_faults (perform R (Set_setting k v) d) = []"
    and "policy_of (perform R (Remove_setting k) d) = policy_of d \<and>
      db_faults (perform R (Remove_setting k) d) = []"
    and "policy_of (perform R (Hit n seen) d) = policy_of d \<and>
      db_faults (perform R (Hit n seen) d) = []"
  using calmD(3) [OF assms]
  by (auto simp: sm_set_def sm_remove_def transact_ok sql_replace_setting_def
      sql_delete_setting_def log_domain_hit_def take_fault_none hit_rows_def Let_def
      sql_increment_hits_def sql_insert_or_ignore_stat_def intro!: policy_of_tables)

lemma command_policy:
  assumes "calm d"
  shows "policy_of (perform R c d) = policy_step R c (policy_of d) \<and>
    db_faults (perform R c d) = (if freezes R c (policy_of d) then [Stuck] else [])"
proof (cases c)
  case (Block ns)
  with block_policy [OF assms, of R ns] show ?thesis by simp
next
  case (Unblock ns)
  with assms show ?thesis by (simp only: unblock_policy)
next
  case (Import l b)
  with import_policy [OF assms, of R l b] show ?thesis by simp
qed (use assms in \<open>simp_all only: list_policy setting_policy policy_step.simps freezes.simps if_False\<close>)

lemma frozen_perform:
  assumes "db_faults d = Stuck # fs"
  shows "perform R c d = d"
  using assms
  by (cases c) (simp_all add: transact_stuck dm_block_domains_def dm_unblock_domains_def
      dlm_create_def dlm_import_def dlm_set_enabled_def dlm_remove_def sm_set_def sm_remove_def
      log_domain_hit_def take_fault_def Let_def)

lemma command_txns: "db_txns d (perform R c d)"
  by (cases c) (simp_all add: txns)

text \<open>The invariant of the simulation: no session fails but for an open transaction.\<close>

definition settled :: "db \<Rightarrow> bool" where
  "settled d \<longleftrightarrow> db_wf d \<and> list_flags d \<and> (db_faults d = [] \<or> db_faults d = [Stuck])"

lemma calm_settled: "calm d \<Longrightarrow> settled d" and calm_frozen: "calm d \<Longrightarrow> \<not> frozen d"
  by (simp_all add: calm_def settled_def frozen_def)

lemma settled_cases:
  assumes "settled d"
  obtains "calm d" "\<not> frozen d" | "db_faults d = [Stuck]" "frozen d"
  using assms by (auto simp: settled_def calm_def frozen_def)

lemma command_simulates:
  assumes "settled d"
  shows "settled (perform R c d) \<and>
    (policy_of (perform R c d), frozen (perform R c d)) = abstract_step R c (policy_of d, frozen d)"
  using assms
proof (cases rule: settled_cases)
  case 1
  then show ?thesis
    using txns_invariant [OF command_txns, of d R c] command_policy [OF 1(1), of R c]
    by (simp add: settled_def calm_def frozen_def)
next
  case 2
  with assms show ?thesis by (simp add: frozen_perform)
qed

interpretation managers: simulation "\<lambda>d. (policy_of d, frozen d)" settled "perform R" "abstract_step R"
  by unfold_locales (use command_simulates in blast)+

lemma settledD: "settled d \<Longrightarrow> db_wf d" "settled d \<Longrightarrow> list_flags d"
  by (simp_all add: settled_def)

lemma settled_get_blocked:
  assumes "settled d"
  obtains ds where "dm_get_blocked d = (ds, d)" "d_name ` set ds = {n. blocked d n}"
  using assms blocked_names [OF settledD(1) [OF assms]]
  by (auto simp: settled_def dm_get_blocked_def query_ok query_stuck)

text \<open>Without a command that freezes it the abstract machine is the policy alone.\<close>

lemma calm_run:
  "calm d \<Longrightarrow> policy_of (fold (perform R) cs d) = fst (fold (abstract_step R) cs (policy_of d, False))"
  using managers.run_abst [OF calm_settled, of d R cs] calm_frozen [of d]
  by (metis (full_types) fst_conv)

section \<open>Sessions that fail\<close>

lemma transact_cases:
  obtains (failed) fs e where "transact body d = (Inl e, d\<lparr>db_faults := fs\<rparr>)"
    | (committed) fs x d' where "body (d\<lparr>db_faults := fs\<rparr>) = Inr (x, d')"
        "transact body d = (Inr x, d')"
proof -
  obtain f d1 where tf: "take_fault d = (f, d1)" by (cases "take_fault d")
  then obtain fs where d1: "d1 = d\<lparr>db_faults := fs\<rparr>" using take_fault_tables by blast
  show thesis
  proof (cases f)
    case None
    show thesis
    proof (cases "body d1")
      case (Inl e)
      with None tf d1 show thesis by (intro failed [of e "Stuck # fs"]) (simp add: transact_def)
    next
      case (Inr r)
      obtain x d' where "r = (x, d')" by (cases r)
      with Inr None tf d1 show thesis by (intro committed [of fs x d']) (simp_all add: transact_def)
    qed
  next
    case (Some m)
    with tf d1 show thesis by (intro failed [of "RuntimeError m" fs]) (simp add: transact_def)
  qed
qed

lemma query_cases:
  obtains (failed) fs e where "query f d = (Inl e, d\<lparr>db_faults := fs\<rparr>)"
    | (read) fs where "query f d = (Inr (f d), d\<lparr>db_faults := fs\<rparr>)"
proof -
  have same: "d = d\<lparr>db_faults := db_faults d\<rparr>" by simp
  show thesis
  proof (cases "db_faults d")
    case Nil
    with same show thesis by (intro read [of "db_faults d"]) (simp add: query_def)
  next
    case (Cons x fs)
    show thesis
    proof (cases x)
      case Fine
      with Cons show thesis by (intro read [of fs]) (simp add: query_def)
    next
      case (Fails m)
      with Cons show thesis by (intro failed [of "RuntimeError m" fs]) (simp add: query_def)
    next
      case (Breaks m)
      with Cons show thesis by (intro failed [of "RuntimeError m" fs]) (simp add: query_def)
    next
      case Stuck
      with Cons same show thesis by (intro read [of "db_faults d"]) (simp add: query_def)
    qed
  qed
qed

lemma create_cases:
  obtains (unsaved) fs where "dlm_create n u de c d = (Ok 0, d\<lparr>db_faults := fs\<rparr>)"
    | (crashed) fs where "dlm_create n u de c d =
        (Crash, (sql_insert_or_ignore_list (custom_name n) u de (if c then 1 else 0) d)\<lparr>db_faults := fs\<rparr>)"
    | (saved) fs i where "dlm_create n u de c d =
        (Ok i, (sql_insert_or_ignore_list (custom_name n) u de (if c then 1 else 0) d)\<lparr>db_faults := fs\<rparr>)"
        "list_id_of (custom_name n) (sql_insert_or_ignore_list (custom_name n) u de (if c then 1 else 0) d) = Some i"
proof -
  let ?ins = "sql_insert_or_ignore_list (custom_name n) u de (if c then 1 else 0)"
  have ins: "?ins (d\<lparr>db_faults := fs\<rparr>) = (?ins d)\<lparr>db_faults := fs\<rparr>" for fs
    by (simp add: sql_insert_or_ignore_list_def add_list_row_def has_list_def next_list_id_def)
  show thesis
  proof (cases rule: transact_cases [of "\<lambda>d. Inr ((), ?ins d)" d])
    case (failed fs e)
    then show thesis
      by (intro unsaved) (simp add: dlm_create_def custom_name_def [symmetric] Let_def)
  next
    case (committed fs x d')
    then have t: "transact (\<lambda>d. Inr ((), ?ins d)) d = (Inr (), (?ins d)\<lparr>db_faults := fs\<rparr>)"
      by (simp add: ins)
    show thesis
    proof (cases rule: query_cases [of "sql_get_list_by_name (custom_name n)"
        "(?ins d)\<lparr>db_faults := fs\<rparr>"])
      case (failed gs e)
      with t show thesis
        by (intro crashed [of gs]) (simp add: dlm_create_def custom_name_def [symmetric] Let_def
          dlm_get_by_name_def)
    next
      case (read gs)
      obtain i where i: "list_id_of (custom_name n) (?ins d) = Some i"
        by (simp add: list_id_of_insert)
      then obtain l where l: "sql_get_list_by_name (custom_name n) (?ins d) = Some l" "dl_id l = i"
        by (auto simp: list_id_of_def sql_get_list_by_name_def list_from_row_def)
      have "sql_get_list_by_name (custom_name n) ((?ins d)\<lparr>db_faults := fs\<rparr>) = Some l"
        using l(1) by (simp add: sql_get_list_by_name_def)
      with read t l(2) have "dlm_create n u de c d = (Ok i, (?ins d)\<lparr>db_faults := gs\<rparr>)"
        by (simp add: dlm_create_def custom_name_def [symmetric] Let_def dlm_get_by_name_def)
      then show thesis using i by (rule saved)
    qed
  qed
qed

text \<open>The list a command makes sure of before its own transaction.\<close>

fun command_list :: "command \<Rightarrow> string option" where
  "command_list (Block ns) = Some ''CUSTOM''"
| "command_list (Import l c) = Some (custom_name (dl_name l))"
| "command_list _ = None"

text \<open>The effect of a command on the policy when sessions may fail.\<close>

definition policy_outcome :: "resolver \<Rightarrow> command \<Rightarrow> policy \<Rightarrow> policy \<Rightarrow> bool" where
  "policy_outcome R c p q \<longleftrightarrow>
     q = p \<or> q = policy_step R c p \<or> (\<exists>n. command_list c = Some n \<and> q = p_create n p)"

text \<open>List ids are positive: a transaction into list 0, which \<open>create\<close> returns when it fails,
  changes nothing.\<close>

lemma no_list_0: "db_wf d \<Longrightarrow> 0 \<notin> list_ids d"
  by (auto simp: db_wf_def list_ids_def)

lemma policy_of_maps:
  "db_lists d = db_lists d' \<Longrightarrow> domain_map d = domain_map d' \<Longrightarrow> policy_of d = policy_of d'"
  by (simp add: policy_of_def list_kinds_def [abs_def] place_def [abs_def] cong: option.case_cong)

lemma insert_or_ignore_0:
  assumes "foldE (\<lambda>n. sql_insert_or_ignore_domain n 0) ns d = Inr d'" and "0 \<notin> list_ids d"
  shows "d' = d \<and> set ns \<subseteq> dom (domain_map d)"
  using assms
  by (induction ns) (auto simp: run_iff sql_insert_or_ignore_domain_def add_domain_row_def
      domain_map_dom split: if_splits)

lemma policy_block_rows_0:
  assumes "db_wf d" and "block_rows 0 ns d = Inr (u, d')"
  shows "policy_of d' = policy_of d"
proof -
  let ?d1 = "fold sql_delete_not_whitelisted ns d"
  have only: "domains_only d ?d1" by (rule domains_only_fold) simp
  have "0 \<notin> list_ids ?d1" using only no_list_0 [OF assms(1)] by (simp add: frame)
  then have d': "d' = ?d1" "set ns \<subseteq> dom (domain_map ?d1)"
    using assms(2) insert_or_ignore_0 [of ns ?d1 d'] by (auto simp: block_rows_def run_iff)
  have "domain_map ?d1 = (\<lambda>k. if k \<in> set ns \<and> \<not> on_whitelist d k then None else domain_map d k)"
    using domain_map_delete_all [OF assms(1), of ns] by blast
  with d'(2) have "domain_map ?d1 = domain_map d" by (auto simp: fun_eq_iff subset_iff dom_def)
  moreover have "db_lists ?d1 = db_lists d" using only by (rule frame)
  ultimately show ?thesis unfolding d'(1) by (intro policy_of_maps)
qed

lemma policy_import_rows_0:
  assumes "db_wf d" and "import_rows 0 ns d = Inr (u, d')"
  shows "policy_of d' = policy_of d"
proof (cases ns)
  case Nil
  with assms show ?thesis by (auto simp: import_rows_def policy_touch)
next
  case (Cons n ns')
  with assms no_list_0 [OF assms(1)] show ?thesis
    by (simp add: import_rows_def sql_insert_or_replace_domain_def)
qed

text \<open>How the two operations with a list of their own go on after \<open>create\<close>.\<close>

lemma block_after_create:
  assumes "filter_valid R ns \<noteq> []"
    and "dlm_create ''CUSTOM'' [] ''Custom list'' True d = (Ok i, d1)"
  shows "perform R (Block ns) d = snd (transact (block_rows i (filter_valid R ns)) d1)"
proof -
  obtain r d2 where "transact (block_rows i (filter_valid R ns)) d1 = (r, d2)" by force
  with assms show ?thesis by (cases r) (simp_all add: dm_block_domains_def)
qed

lemma import_after_create:
  assumes "dlm_create (dl_name l) (dl_url l)
    (case dl_description l of None \<Rightarrow> [] | Some s \<Rightarrow> s) c d = (Ok i, d1)"
  shows "perform R (Import l c) d = snd (transact (import_rows i (map d_name (dl_domains l))) d1)"
proof -
  obtain r d2 where "transact (import_rows i (map d_name (dl_domains l))) d1 = (r, d2)" by force
  with assms show ?thesis by (cases r) (simp_all add: dlm_import_def)
qed

lemma on_whitelist_faults: "on_whitelist (d\<lparr>db_faults := fs\<rparr>) = on_whitelist d"
  by (simp add: on_whitelist_def [abs_def] whitelist_ids_def domain_map_def)

lemma block_outcome:
  assumes "db_wf d" and "list_flags d"
  shows "policy_outcome R (Block ns) (policy_of d) (policy_of (perform R (Block ns) d))"
proof (cases "filter_valid R ns = []")
  case True
  then show ?thesis by (simp add: dm_block_domains_def policy_outcome_def)
next
  case False
  let ?ins = "sql_insert_or_ignore_list ''CUSTOM'' [] ''Custom list'' 1 d"
  let ?vs = "filter_valid R ns"
  have name: "custom_name ''CUSTOM'' = ''CUSTOM''" by (simp add: custom_name_def)
  have wf: "db_wf (?ins\<lparr>db_faults := fs\<rparr>)" and flags: "list_flags (?ins\<lparr>db_faults := fs\<rparr>)" for fs
    using wf_insert_or_ignore_list [OF assms(1)] list_flags_insert [OF assms(2), of 1]
      list_flags_lists [of "?ins\<lparr>db_faults := fs\<rparr>" ?ins] by simp_all
  have ins: "policy_of ?ins = p_create ''CUSTOM'' (policy_of d)"
    using assms(1) by (rule policy_create)
  have white: "p_on_white (p_create ''CUSTOM'' (policy_of d)) k = p_on_white (policy_of d) k" for k
    using verdict_listed(3) [OF wf flags, where k = k] verdict_listed(3) [OF assms, of k]
    by (simp only: policy_of_faults ins on_whitelist_faults on_whitelist_insert_list)
  show ?thesis
  proof (cases rule: create_cases [of "''CUSTOM''" "[]" "''Custom list''" True d])
    case (unsaved fs)
    have "policy_of (snd (transact (block_rows 0 ?vs) (d\<lparr>db_faults := fs\<rparr>))) = policy_of d"
    proof (cases rule: transact_cases [of "block_rows 0 ?vs" "d\<lparr>db_faults := fs\<rparr>"])
      case (committed gs u d')
      then show ?thesis using policy_block_rows_0 [OF _ committed(1)] assms(1) by simp
    qed simp
    then show ?thesis by (simp only: block_after_create [OF False unsaved] policy_outcome_def simp_thms)
  next
    case (crashed fs)
    with False show ?thesis
      by (simp add: dm_block_domains_def policy_outcome_def name ins)
  next
    case (saved fs i)
    show ?thesis
    proof (cases rule: transact_cases [of "block_rows i ?vs" "?ins\<lparr>db_faults := fs\<rparr>"])
      case (failed gs e)
      then show ?thesis
        by (simp only: block_after_create [OF False saved(1)])
          (simp add: policy_outcome_def name ins)
    next
      case (committed gs u d')
      have "list_id_of ''CUSTOM'' (?ins\<lparr>db_faults := gs\<rparr>) = Some i"
        using saved(2) by (simp add: name list_id_of_def)
      moreover have "block_rows i ?vs (?ins\<lparr>db_faults := gs\<rparr>) = Inr (u, d')"
        using committed(1) by simp
      ultimately have "policy_of d' = p_move (\<lambda>k. k \<in> set ?vs \<and> \<not> p_on_white (policy_of d) k) ''CUSTOM''
          (p_create ''CUSTOM'' (policy_of d))"
        using policy_block_rows [OF wf flags] by (simp add: ins white)
      with committed False show ?thesis
        by (simp only: block_after_create [OF False saved(1)])
          (simp add: policy_outcome_def name filter_valid_mem conj_assoc)
    qed
  qed
qed

lemma import_outcome:
  assumes "db_wf d"
  shows "policy_outcome R (Import l c) (policy_of d) (policy_of (perform R (Import l c) d))"
proof -
  let ?n = "custom_name (dl_name l)"
  let ?de = "case dl_description l of None \<Rightarrow> [] | Some s \<Rightarrow> s"
  let ?ins = "sql_insert_or_ignore_list ?n (dl_url l) ?de (if c then 1 else 0) d"
  let ?ns = "map d_name (dl_domains l)"
  have wf: "db_wf (?ins\<lparr>db_faults := fs\<rparr>)" for fs
    using wf_insert_or_ignore_list [OF assms] by simp
  have ins: "policy_of ?ins = p_create ?n (policy_of d)"
    using assms by (rule policy_create)
  show ?thesis
  proof (cases rule: create_cases [of "dl_name l" "dl_url l" ?de c d])
    case (unsaved fs)
    have "policy_of (snd (transact (import_rows 0 ?ns) (d\<lparr>db_faults := fs\<rparr>))) = policy_of d"
    proof (cases rule: transact_cases [of "import_rows 0 ?ns" "d\<lparr>db_faults := fs\<rparr>"])
      case (committed gs u d')
      then show ?thesis using policy_import_rows_0 [OF _ committed(1)] assms by simp
    qed simp
    then show ?thesis by (simp only: import_after_create [OF unsaved] policy_outcome_def simp_thms)
  next
    case (crashed fs)
    then show ?thesis by (simp add: dlm_import_def policy_outcome_def ins)
  next
    case (saved fs i)
    show ?thesis
    proof (cases rule: transact_cases [of "import_rows i ?ns" "?ins\<lparr>db_faults := fs\<rparr>"])
      case (failed gs e)
      then show ?thesis
        by (simp only: import_after_create [OF saved(1)]) (simp add: policy_outcome_def ins)
    next
      case (committed gs u d')
      have "list_id_of ?n (?ins\<lparr>db_faults := gs\<rparr>) = Some i"
        using saved(2) by (simp add: list_id_of_def)
      moreover have "import_rows i ?ns (?ins\<lparr>db_faults := gs\<rparr>) = Inr (u, d')"
        using committed(1) by simp
      ultimately have "policy_of d' = p_move (\<lambda>k. k \<in> set ?ns) ?n (p_create ?n (policy_of d))"
        using policy_import_rows [OF wf] by (simp only: policy_of_faults ins)
      with committed show ?thesis
        by (simp only: import_after_create [OF saved(1)]) (simp add: policy_outcome_def)
    qed
  qed
qed

lemma unblock_outcome:
  assumes "db_wf d"
  shows "policy_outcome R (Unblock ns) (policy_of d) (policy_of (perform R (Unblock ns) d))"
proof (cases "filter_valid R ns = []")
  case False
  let ?vs = "filter_valid R ns"
  obtain r d1 where t: "transact (unblock_rows ?vs) d = (r, d1)" by force
  then have run: "perform R (Unblock ns) d = snd (transact (unblock_rows ?vs) d)"
    using False by (cases r) (simp_all add: dm_unblock_domains_def)
  show ?thesis
  proof (cases rule: transact_cases [of "unblock_rows ?vs" d])
    case (failed fs e)
    then show ?thesis by (simp only: run) (simp add: policy_outcome_def)
  next
    case (committed fs u d')
    then have "list_kinds (d\<lparr>db_faults := fs\<rparr>) ''WHITELIST'' \<noteq> None \<and>
        policy_of d' = p_move (\<lambda>k. k \<in> set ?vs) ''WHITELIST'' (policy_of (d\<lparr>db_faults := fs\<rparr>))"
      using assms False by (intro policy_unblock_rows) simp_all
    with False committed show ?thesis
      by (simp only: run) (auto simp: policy_outcome_def list_kinds_def filter_valid_mem)
  qed
qed (simp add: dm_unblock_domains_def policy_outcome_def)

lemma statement_outcome:
  assumes "\<And>fs. policy_of (f (d\<lparr>db_faults := fs\<rparr>)) = policy_step R c (policy_of d)"
    and "perform R c d = snd (transact (\<lambda>d. Inr (u, f d)) d)"
  shows "policy_outcome R c (policy_of d) (policy_of (perform R c d))"
  by (cases rule: transact_cases [of "\<lambda>d. Inr (u, f d)" d])
    (use assms in \<open>auto simp: policy_outcome_def\<close>)

lemma command_outcome:
  assumes "db_wf d" and "list_flags d"
  shows "policy_outcome R c (policy_of d) (policy_of (perform R c d))"
proof (cases c)
  case (Create n u de b)
  show ?thesis
    by (cases rule: create_cases [of n u de b d])
      (use Create assms in \<open>simp_all add: policy_outcome_def policy_create\<close>)
next
  case (Enable n e)
  let ?f = "sql_set_active (if e then 1 else 0) n"
  obtain r d1 where t: "transact (\<lambda>d. Inr ((), ?f d)) d = (r, d1)" by force
  show ?thesis
    unfolding Enable
    by (rule statement_outcome [where f = ?f and u = "()"])
      (use assms t policy_enable [of "d\<lparr>db_faults := fs\<rparr>" e n for fs] in
        \<open>cases r; simp add: dlm_set_enabled_def\<close>)+
next
  case (Remove n)
  obtain r d1 where t: "transact (\<lambda>d. Inr ((), sql_delete_list n d)) d = (r, d1)" by force
  show ?thesis
    unfolding Remove
    by (rule statement_outcome [where f = "sql_delete_list n" and u = "()"])
      (use assms t in \<open>cases r; simp add: dlm_remove_def policy_remove\<close>)+
next
  case (Set_setting k v)
  have "policy_of (sql_replace_setting k v e) = policy_of e" for e
    by (rule policy_of_tables) (simp_all add: sql_replace_setting_def)
  moreover obtain r d1 where "transact (\<lambda>d. Inr ((), sql_replace_setting k v d)) d = (r, d1)" by force
  ultimately show ?thesis
    unfolding Set_setting
    by (intro statement_outcome [where f = "sql_replace_setting k v" and u = "()"])
      (cases r; simp add: sm_set_def)+
next
  case (Remove_setting k)
  have "policy_of (sql_delete_setting k e) = policy_of e" for e
    by (rule policy_of_tables) (simp_all add: sql_delete_setting_def)
  moreover obtain r d1 where "transact (\<lambda>d. Inr ((), sql_delete_setting k d)) d = (r, d1)" by force
  ultimately show ?thesis
    unfolding Remove_setting
    by (intro statement_outcome [where f = "sql_delete_setting k" and u = "()"])
      (cases r; simp add: sm_remove_def)+
next
  case (Hit n seen)
  obtain f d1 where tf: "take_fault d = (f, d1)" by (cases "take_fault d")
  then obtain fs where "d1 = d\<lparr>db_faults := fs\<rparr>" using take_fault_tables by blast
  with tf have "policy_of (perform R c d) = policy_of d"
    unfolding Hit
    by (intro policy_of_tables) (simp_all add: log_domain_hit_def hit_rows_def Let_def
      sql_increment_hits_def sql_insert_or_ignore_stat_def split: list.split fate.split option.split)
  then show ?thesis by (simp add: policy_outcome_def)
qed (use assms in \<open>simp_all add: block_outcome unblock_outcome import_outcome del: perform.simps\<close>)

text \<open>A new, empty list changes the verdict of no domain.\<close>

lemma verdict_create:
  assumes "\<And>k n. po_place p k = Some n \<Longrightarrow> po_lists p n \<noteq> None"
  shows "verdict (p_create n p) = verdict p"
proof
  fix k
  show "verdict (p_create n p) k = verdict p k"
    using assms [of k]
    by (cases "po_lists p n"; cases "po_place p k") (auto simp: verdict_def p_create_def)
qed

lemma place_has_list:
  assumes "db_wf d" and "po_place (policy_of d) k = Some n"
  shows "po_lists (policy_of d) n \<noteq> None"
  using assms by (auto simp: place_iff list_kinds_dom)

section \<open>Commands of the user\<close>

text \<open>
  A policy as the initial data makes it: CUSTOM and WHITELIST are there and active, and no other
  list is a whitelist.
\<close>

definition standard :: "policy \<Rightarrow> bool" where
  "standard p \<longleftrightarrow> po_lists p ''CUSTOM'' = Some (True, False) \<and>
     po_lists p ''WHITELIST'' = Some (True, True) \<and>
     (\<forall>n a. po_lists p n = Some (a, True) \<longrightarrow> n = ''WHITELIST'')"

fun of_user :: "command \<Rightarrow> bool" where
  "of_user (Block ns) = True"
| "of_user (Unblock ns) = True"
| "of_user _ = False"

text \<open>What a command asks for a domain.\<close>

fun wish :: "resolver \<Rightarrow> command \<Rightarrow> string \<Rightarrow> verdict" where
  "wish R (Block ns) k = (if k \<in> set ns \<and> valid_name R k then Blocked else Unlisted)"
| "wish R (Unblock ns) k = (if k \<in> set ns \<and> valid_name R k then Whitelisted else Unlisted)"
| "wish R _ k = Unlisted"

lemma filter_valid_none: "filter_valid R ns = [] \<Longrightarrow> k \<in> set ns \<Longrightarrow> \<not> valid_name R k"
  by (auto simp: filter_valid_def filter_empty_conv)

lemma standard_step: "standard p \<Longrightarrow> of_user c \<Longrightarrow> standard (policy_step R c p)"
  by (cases c) (auto simp: standard_def p_move_def p_create_def)

lemma verdict_move: "\<not> S k \<Longrightarrow> verdict (p_move S n p) k = verdict p k"
  by (simp add: verdict_def p_move_def cong: option.case_cong)

lemma verdict_step:
  assumes "standard p" and "of_user c"
  shows "verdict (policy_step R c p) k = max (wish R c k) (verdict p k)"
proof (cases c)
  case (Block ns)
  have create: "p_create ''CUSTOM'' p = p" using assms(1) by (simp add: standard_def p_create_def)
  show ?thesis
  proof (cases "k \<in> set ns \<and> valid_name R k")
    case True
    then have "filter_valid R ns \<noteq> []" using filter_valid_none by blast
    moreover have "po_lists p n \<noteq> Some (False, True)" for n
      using assms(1) by (auto simp: standard_def)
    ultimately show ?thesis using True Block create assms(1)
      by (auto simp: standard_def verdict_def p_on_white_def p_move_def max_def less_eq_verdict_def
          split: option.splits prod.splits bool.splits)
  next
    case False
    with Block create show ?thesis by (auto simp: verdict_move)
  qed
next
  case (Unblock ns)
  show ?thesis
  proof (cases "k \<in> set ns \<and> valid_name R k")
    case True
    then have "filter_valid R ns \<noteq> []" using filter_valid_none by blast
    with True Unblock assms(1) show ?thesis by (simp add: standard_def verdict_def p_move_def)
  next
    case False
    with Unblock show ?thesis by (auto simp: verdict_move)
  qed
qed (use assms(2) in simp_all)

lemma verdict_run:
  assumes "standard p" and "\<And>c. c \<in> set cs \<Longrightarrow> of_user c"
  shows "verdict (fold (policy_step R) cs p) k = Max (insert (verdict p k) ((\<lambda>c. wish R c k) ` set cs))"
  using assms
proof (induction cs arbitrary: p)
  case (Cons c cs)
  let ?W = "(\<lambda>c. wish R c k) ` set cs"
  have "verdict (fold (policy_step R) (c # cs) p) k = Max (insert (max (wish R c k) (verdict p k)) ?W)"
    using Cons.IH [of "policy_step R c p"] Cons.prems by (simp add: standard_step verdict_step)
  also have "\<dots> = Max (insert (wish R c k) (insert (verdict p k) ?W))"
    by (cases "?W = {}") (simp_all add: max.assoc Max_insert)
  finally show ?case by (simp add: insert_commute)
qed simp

lemma standard_run:
  assumes "standard p" and "\<And>c. c \<in> set cs \<Longrightarrow> of_user c"
  shows "fold (abstract_step R) cs (p, False) = (fold (policy_step R) cs p, False)"
  using assms
proof (induction cs arbitrary: p)
  case (Cons c cs)
  have "\<not> freezes R c p" using Cons.prems by (cases c) (simp_all add: standard_def)
  with Cons show ?case by (simp add: standard_step)
qed simp

section \<open>The properties\<close>

text \<open>C1: Any sequence of operations of the managers, from any database that satisfies the schema and
  whose sessions fail for no other reason than a transaction left open, does what the same sequence
  of abstract operations does: which lists there are, which of them are active or whitelists, where
  every domain belongs, and whether the policy is frozen; and the domains that the queries of the
  managers give are the ones the policy blocks.\<close>

theorem managers_refine_policy:
  fixes R :: resolver and cs :: "command list"
  assumes "settled d"
  defines "d' \<equiv> fold (perform R) cs d"
  shows "(policy_of d', frozen d') = fold (abstract_step R) cs (policy_of d, frozen d) \<and>
    (\<exists>ds. dm_get_blocked d' = (ds, d') \<and>
       d_name ` set ds =
         {k. verdict (fst (fold (abstract_step R) cs (policy_of d, frozen d))) k = Blocked})"
proof -
  have d': "settled d'" unfolding d'_def using assms(1) by (rule managers.run_good)
  have pol: "(policy_of d', frozen d') = fold (abstract_step R) cs (policy_of d, frozen d)"
    unfolding d'_def using assms(1) by (rule managers.run_abst)
  obtain ds where "dm_get_blocked d' = (ds, d')" "d_name ` set ds = {n. blocked d' n}"
    using d' by (rule settled_get_blocked)
  then show ?thesis
    using verdict_listed(1) [OF settledD [OF d']] by (auto simp: pol [symmetric])
qed


text \<open>C13: With the lists of the initial data, the outcome of a series of block and unblock commands
  does not depend on their order, nor on how often one is repeated: the strongest wish for a
  domain wins.  So an unblocked domain can not be blocked again by a command of the user.\<close>

theorem user_commands_any_order:
  assumes "calm d" and "standard (policy_of d)" and "set cs = set cs'"
    and "\<And>c. c \<in> set cs \<Longrightarrow> of_user c"
  shows "verdict (policy_of (fold (perform R) cs d)) k =
      Max (insert (verdict (policy_of d) k) ((\<lambda>c. wish R c k) ` set cs)) \<and>
    verdict (policy_of (fold (perform R) cs' d)) k =
      verdict (policy_of (fold (perform R) cs d)) k"
proof -
  have user: "\<And>c. c \<in> set cs' \<Longrightarrow> of_user c" using assms(3,4) by simp
  have "fst (fold (abstract_step R) cs (policy_of d, False)) = fold (policy_step R) cs (policy_of d)"
    and "fst (fold (abstract_step R) cs' (policy_of d, False)) = fold (policy_step R) cs' (policy_of d)"
    using standard_run [OF assms(2,4)] standard_run [OF assms(2) user] by simp_all
  then show ?thesis
    using verdict_run [OF assms(2,4), of cs R k] verdict_run [OF assms(2) user, of cs' R k] assms(3)
    by (simp only: calm_run [OF assms(1)] simp_thms)
qed

text \<open>C14: A whitelist that was removed does not come back: a list created under its name is an
  ordinary one, unblocking puts domains into it, and so unblocking a domain blocks it.\<close>

theorem recreated_whitelist_blocks:
  assumes "calm d" and "valid_name R k"
  shows "blocked (fold (perform R)
    [Remove ''WHITELIST'', Create ''WHITELIST'' u de c, Unblock [k]] d) k"
proof -
  let ?cs = "[Remove ''WHITELIST'', Create ''WHITELIST'' u de c, Unblock [k]]"
  let ?d = "fold (perform R) ?cs d"
  have "settled ?d" by (rule managers.run_good [OF calm_settled [OF assms(1)]])
  moreover have "verdict (policy_of ?d) k = Blocked"
    unfolding calm_run [OF assms(1)]
    using assms(2)
    by (simp add: p_remove_def p_create_def p_move_def verdict_def custom_name_def filter_valid_def)
  ultimately show ?thesis using verdict_listed(1) settledD by blast
qed

text \<open>C15: To unblock a domain when the list WHITELIST is gone leaves a transaction open in the
  session of the pool, as no manager rolls back: the command changes no table, and from then on no
  command changes anything, whatever it is; only opening the database again ends that.\<close>

theorem unblock_without_whitelist_freezes:
  assumes "calm d" and "valid_name R k" and "\<not> has_list ''WHITELIST'' d"
  shows "fold (perform R) (Unblock [k] # cs) d = d\<lparr>db_faults := [Stuck]\<rparr> \<and>
    reopen (fold (perform R) (Unblock [k] # cs) d) = d"
proof -
  have "sql_whitelist_id d = None"
    using assms(3) by (auto simp: sql_whitelist_id_def has_list_def find_None_iff image_iff)
  then have "perform R (Unblock [k]) d = d\<lparr>db_faults := [Stuck]\<rparr>"
    using assms(2) calmD(3) [OF assms(1)]
    by (simp add: dm_unblock_domains_def transact_ok unblock_rows_no_whitelist filter_valid_def)
  moreover have "fold (perform R) cs (d\<lparr>db_faults := [Stuck]\<rparr>) = d\<lparr>db_faults := [Stuck]\<rparr>"
    by (induction cs) (simp_all add: frozen_perform)
  ultimately show ?thesis using calmD(3) [OF assms(1)] by (simp add: reopen_def)
qed

end
