(* ===== verification/Dbl_Pool.thy ===== *)
theory Dbl_Pool
  imports Dbl_Policy "HOL-Library.Multiset"
begin

text \<open>
  The pool of database sessions (\<open>DB\<close> in \<open>src/dbl/db/db.cxx\<close>) and the threads that share it.  A
  session is taken from the pool when its object is made, which waits while all are in use, and goes
  back when the object is destroyed, on every way out of the block.  The operations of the managers are taken
  for the order in which they do this.
\<close>

section \<open>The pool\<close>

text \<open>\<open>soci::connection_pool\<close>: for each position whether it is in use; a lease gets the first that is
  free, and waits (\<open>None\<close>) when there is none.\<close>

record pool =
  pl_busy :: "bool list"

definition new_pool :: "nat \<Rightarrow> pool" where
  "new_pool pool_size = \<lparr>pl_busy = replicate pool_size False\<rparr>"

definition db_session :: "pool \<Rightarrow> (nat \<times> pool) option" where
  "db_session p =
     (case find (\<lambda>i. \<not> pl_busy p ! i) [0..<length (pl_busy p)] of
        None \<Rightarrow> None
      | Some i \<Rightarrow> Some (i, p\<lparr>pl_busy := (pl_busy p)[i := True]\<rparr>))"

definition give_back :: "nat \<Rightarrow> pool \<Rightarrow> pool" where
  "give_back i p = p\<lparr>pl_busy := (pl_busy p)[i := False]\<rparr>"

section \<open>What the operations take from it\<close>

datatype session_use = Lease | Give_back

definition one_session :: "session_use list" where
  "one_session = [Lease, Give_back]"

text \<open>\<open>create\<close> gives its session back before it calls \<open>get\<close>; \<open>import\<close> and \<open>block_domains\<close> call
  \<open>create\<close> before they take their own.\<close>

definition create_sessions :: "session_use list" where
  "create_sessions = one_session @ one_session"

definition import_sessions :: "session_use list" where
  "import_sessions = create_sessions @ one_session"

definition block_sessions :: "resolver \<Rightarrow> string list \<Rightarrow> session_use list" where
  "block_sessions R domains = (if filter_valid R domains = [] then [] else create_sessions @ one_session)"

definition unblock_sessions :: "resolver \<Rightarrow> string list \<Rightarrow> session_use list" where
  "unblock_sessions R domains = (if filter_valid R domains = [] then [] else one_session)"

fun command_sessions :: "resolver \<Rightarrow> command \<Rightarrow> session_use list" where
  "command_sessions R (Block ns) = block_sessions R ns"
| "command_sessions R (Unblock ns) = unblock_sessions R ns"
| "command_sessions R (Create n u de c) = create_sessions"
| "command_sessions R (Import l c) = import_sessions"
| "command_sessions R c = one_session"

text \<open>\<open>get\<close> of a list by its name; the session of the list is given back before the domains are read.\<close>

definition get_list_sessions :: "bool \<Rightarrow> session_use list" where
  "get_list_sessions reads_domains = one_session @ (if reads_domains then one_session else [])"

text \<open>A thread runs commands and readings one after the other.\<close>

datatype db_use = Runs command | Reads | Reads_list bool

fun use_sessions :: "resolver \<Rightarrow> db_use \<Rightarrow> session_use list" where
  "use_sessions R (Runs c) = command_sessions R c"
| "use_sessions R Reads = one_session"
| "use_sessions R (Reads_list b) = get_list_sessions b"

definition leases :: "session_use list \<Rightarrow> nat" where
  "leases us = length (filter (\<lambda>u. u = Lease) us)"

section \<open>The threads\<close>

record thread =
  th_todo :: "session_use list"
  th_held :: "nat list"

definition new_thread :: "resolver \<Rightarrow> db_use list \<Rightarrow> thread" where
  "new_thread R us = \<lparr>th_todo = concat (map (use_sessions R) us), th_held = []\<rparr>"

type_synonym pool_state = "pool \<times> thread list"

inductive pool_step :: "pool_state \<Rightarrow> nat \<Rightarrow> pool_state \<Rightarrow> bool" where
  lease: "t < length ts \<Longrightarrow> th_todo (ts ! t) = Lease # us \<Longrightarrow> db_session p = Some (i, p') \<Longrightarrow>
    pool_step (p, ts) t (p', ts[t := \<lparr>th_todo = us, th_held = i # th_held (ts ! t)\<rparr>])"
| give: "t < length ts \<Longrightarrow> th_todo (ts ! t) = Give_back # us \<Longrightarrow> th_held (ts ! t) = i # is \<Longrightarrow>
    pool_step (p, ts) t (give_back i p, ts[t := \<lparr>th_todo = us, th_held = is\<rparr>])"

inductive_cases pool_stepE: "pool_step (p, ts) t st"

inductive pool_run :: "pool_state \<Rightarrow> nat list \<Rightarrow> pool_state \<Rightarrow> bool" for st where
  idle: "pool_run st [] st"
| runs: "pool_run st sched st' \<Longrightarrow> pool_step st' t st'' \<Longrightarrow> pool_run st (sched @ [t]) st''"

section \<open>The sessions of the model\<close>

text \<open>Each session of an operation is a session of \<open>Dbl_Managers\<close>, which asks \<open>db_faults\<close> for its
  fate: with as many that are fine the operation takes just these, and leaves the database open only if a
  statement failed.\<close>

lemma transact_fine:
  assumes "db_faults d = Fine # fs" and "\<And>d x d'. body d = Inr (x, d') \<Longrightarrow> db_faults d' = db_faults d"
  shows "db_faults (snd (transact body d)) \<in> {fs, Stuck # fs}"
  using assms by (auto simp: transact_def take_fault_def split: sum.split prod.split)

lemma transact_fine_ok: "db_faults d = Fine # fs \<Longrightarrow> transact (\<lambda>d. Inr (x, f d)) d = (Inr x, f (d\<lparr>db_faults := fs\<rparr>))"
  by (simp add: transact_def take_fault_def)

lemma foldE_faults:
  assumes "foldE f xs d = Inr d'" and "\<And>x d d'. f x d = Inr d' \<Longrightarrow> db_faults d' = db_faults d"
  shows "db_faults d' = db_faults d"
  by (rule foldE_invariant [where P = "\<lambda>e. db_faults e = db_faults d", OF assms(1)]) (auto dest: assms(2))

lemma domain_rows_faults:
  "sql_insert_or_replace_domain n i d = Inr d' \<Longrightarrow> db_faults d' = db_faults d"
  "sql_insert_or_ignore_domain n j d = Inr d' \<Longrightarrow> db_faults d' = db_faults d"
  by (auto simp: sql_insert_or_replace_domain_def sql_insert_or_ignore_domain_def put_domain_def
      add_domain_row_def split: option.splits if_splits)

lemma rows_faults:
  "block_rows i ns d = Inr (u, d') \<Longrightarrow> db_faults d' = db_faults d"
  "unblock_rows ns d = Inr (u, d') \<Longrightarrow> db_faults d' = db_faults d"
  "import_rows i ns d = Inr (u, d') \<Longrightarrow> db_faults d' = db_faults d"
  using domains_only_fold [of sql_delete_not_whitelisted d ns]
  by (auto simp: block_rows_def unblock_rows_def import_rows_def run_iff frame sql_touch_list_def
      dest!: foldE_faults domain_rows_faults)

lemma create_fine:
  assumes "db_faults d = Fine # Fine # fs"
  obtains i d' where "dlm_create n u de c d = (Ok i, d')" "db_faults d' = fs"
proof -
  let ?n = "custom_name n"
  let ?d1 = "sql_insert_or_ignore_list ?n u de (if c then 1 else 0) (d\<lparr>db_faults := Fine # fs\<rparr>)"
  have "list_id_of ?n ?d1 \<noteq> None" by (simp add: list_id_of_insert)
  then obtain l where l: "sql_get_list_by_name ?n ?d1 = Some l"
    by (auto simp: list_id_of_def sql_get_list_by_name_def)
  have "transact (\<lambda>d. Inr ((), sql_insert_or_ignore_list ?n u de (if c then 1 else 0) d)) d = (Inr (), ?d1)"
    using assms by (simp add: transact_fine_ok)
  moreover have "query (sql_get_list_by_name ?n) ?d1 = (Inr (Some l), ?d1\<lparr>db_faults := fs\<rparr>)"
    using l by (simp add: query_def)
  ultimately have "dlm_create n u de c d = (Ok (dl_id l), ?d1\<lparr>db_faults := fs\<rparr>)"
    by (simp add: dlm_create_def custom_name_def [symmetric] dlm_get_by_name_def Let_def)
  then show thesis by (rule that) simp
qed

lemma after_create_fine:
  assumes "dlm_create n u de c d = (Ok i, d1)" and "db_faults d1 = Fine # fs"
  shows "db_faults (snd (transact (block_rows i ns) d1)) \<in> {fs, Stuck # fs}"
    "db_faults (snd (transact (import_rows i ns) d1)) \<in> {fs, Stuck # fs}"
  by (rule transact_fine [OF assms(2)]; auto dest: rows_faults)+

theorem commands_take_their_sessions:
  assumes "db_faults d = replicate (leases (command_sessions R c)) Fine @ fs"
  shows "db_faults (perform R c d) \<in> {fs, Stuck # fs}"
proof (cases c)
  case (Block ns)
  show ?thesis
  proof (cases "filter_valid R ns = []")
    case False
    have "db_faults d = Fine # Fine # Fine # fs"
      using assms Block False
      by (simp add: block_sessions_def create_sessions_def one_session_def leases_def numeral_eq_Suc)
    then obtain i d1 where "dlm_create ''CUSTOM'' [] ''Custom list'' True d = (Ok i, d1)" "db_faults d1 = Fine # fs"
      by (rule create_fine)
    with Block show ?thesis
      using block_after_create [OF False] after_create_fine(1) by simp
  qed (use assms Block in \<open>simp add: dm_block_domains_def block_sessions_def leases_def\<close>)
next
  case (Import l b)
  let ?de = "case dl_description l of None \<Rightarrow> [] | Some s \<Rightarrow> s"
  have "db_faults d = Fine # Fine # Fine # fs"
    using assms Import by (simp add: import_sessions_def create_sessions_def one_session_def leases_def numeral_eq_Suc)
  then obtain i d1 where "dlm_create (dl_name l) (dl_url l) ?de b d = (Ok i, d1)" "db_faults d1 = Fine # fs"
    by (rule create_fine)
  with Import show ?thesis
    using import_after_create after_create_fine(2) by simp
next
  case (Create n u de b)
  have "db_faults d = Fine # Fine # fs"
    using assms Create by (simp add: create_sessions_def one_session_def leases_def numeral_eq_Suc)
  then obtain i d1 where "dlm_create n u de b d = (Ok i, d1)" "db_faults d1 = fs"
    by (rule create_fine)
  with Create show ?thesis by simp
next
  case (Unblock ns)
  show ?thesis
  proof (cases "filter_valid R ns = []")
    case False
    then have "db_faults d = Fine # fs"
      using assms Unblock by (simp add: unblock_sessions_def one_session_def leases_def)
    then have "db_faults (snd (transact (unblock_rows (filter_valid R ns)) d)) \<in> {fs, Stuck # fs}"
      by (rule transact_fine) (auto dest: rows_faults)
    moreover have "snd (dm_unblock_domains R ns d) = snd (transact (unblock_rows (filter_valid R ns)) d)"
      using False by (simp add: dm_unblock_domains_def case_prod_beta Let_def split: sum.split)
    ultimately show ?thesis using Unblock by simp
  qed (use assms Unblock in \<open>simp add: dm_unblock_domains_def unblock_sessions_def leases_def\<close>)
qed (use assms in \<open>simp_all add: leases_def one_session_def transact_fine_ok dlm_set_enabled_def dlm_remove_def
    sm_set_def sm_remove_def log_domain_hit_def take_fault_def hit_rows_def sql_set_active_def
    sql_delete_list_def sql_replace_setting_def sql_delete_setting_def sql_increment_hits_def
    sql_insert_or_ignore_stat_def Let_def\<close>)

section \<open>No thread waits for ever\<close>

text \<open>Sessions are taken one at a time: \<open>held\<close> tells whether the thread has one now.\<close>

fun alternates :: "bool \<Rightarrow> session_use list \<Rightarrow> bool" where
  "alternates held [] = (\<not> held)"
| "alternates held (Lease # us) = (\<not> held \<and> alternates True us)"
| "alternates held (Give_back # us) = (held \<and> alternates False us)"

lemma alternates_append: "alternates b us \<Longrightarrow> alternates False vs \<Longrightarrow> alternates b (us @ vs)"
  by (induction b us rule: alternates.induct) auto

lemma command_alternates: "alternates False (command_sessions R c)"
  by (cases c) (simp_all add: block_sessions_def unblock_sessions_def create_sessions_def import_sessions_def
      one_session_def)

lemma use_alternates: "alternates False (use_sessions R u)"
  by (cases u) (simp_all add: command_alternates get_list_sessions_def one_session_def)

lemma uses_alternate: "alternates False (concat (map (use_sessions R) us))"
  by (induction us) (simp_all add: use_alternates alternates_append)

text \<open>Each thread holds the sessions that its place in its operations says, and those in use are those
  held, each by one thread.\<close>

definition held_all :: "thread list \<Rightarrow> nat list" where
  "held_all ts = concat (map th_held ts)"

definition thread_fine :: "thread \<Rightarrow> bool" where
  "thread_fine t \<longleftrightarrow> length (th_held t) \<le> 1 \<and> alternates (th_held t \<noteq> []) (th_todo t)"

definition pool_inv :: "nat \<Rightarrow> pool_state \<Rightarrow> bool" where
  "pool_inv k st \<longleftrightarrow>
     (case st of (p, ts) \<Rightarrow>
        length (pl_busy p) = k \<and> list_all thread_fine ts \<and> distinct (held_all ts) \<and>
        set (held_all ts) = {i. i < k \<and> pl_busy p ! i})"

lemma held_all_split:
  assumes "t < length ts"
  shows "mset (held_all ts) = mset (th_held (ts ! t)) + mset (held_all (take t ts @ drop (Suc t) ts))"
  by (subst id_take_nth_drop [OF assms]) (simp add: held_all_def)

lemma held_all_update:
  assumes "t < length ts"
  shows "mset (held_all (ts[t := x])) = mset (th_held x) + mset (held_all (take t ts @ drop (Suc t) ts))"
  using assms by (simp add: upd_conv_take_nth_drop held_all_def)

lemma distinct_by_mset: "mset xs = mset ys \<Longrightarrow> distinct xs = distinct ys"
  by (rule mset_eq_imp_distinct_iff)

lemma lease_holds:
  assumes "t < length ts"
  shows "mset (held_all (ts[t := \<lparr>th_todo = us, th_held = i # th_held (ts ! t)\<rparr>])) = mset (i # held_all ts)"
  by (simp add: held_all_update [OF assms] held_all_split [OF assms])

lemma give_holds:
  assumes "t < length ts" and "th_held (ts ! t) = i # is"
  shows "mset (held_all ts) = mset (i # held_all (ts[t := \<lparr>th_todo = us, th_held = is\<rparr>]))"
  by (simp add: held_all_update [OF assms(1)] held_all_split [OF assms(1)] assms(2))

lemma db_session_Some:
  assumes "db_session p = Some (i, p')"
  shows "i < length (pl_busy p)" "\<not> pl_busy p ! i" "pl_busy p' = (pl_busy p)[i := True]"
  using assms by (auto simp: db_session_def find_Some_iff split: option.splits)

lemma db_session_None: "db_session p = None \<longleftrightarrow> (\<forall>i < length (pl_busy p). pl_busy p ! i)"
  unfolding db_session_def
  by (cases "find (\<lambda>i. \<not> pl_busy p ! i) [0..<length (pl_busy p)]"; simp; auto simp: find_None_iff find_Some_iff)

lemma pool_step_inv:
  assumes "pool_step (p, ts) t st'" and "pool_inv k (p, ts)"
  shows "pool_inv k st'"
proof -
  from assms(1) consider
    (new_s) us i p' where "st' = (p', ts[t := \<lparr>th_todo = us, th_held = i # th_held (ts ! t)\<rparr>])"
      "t < length ts" "th_todo (ts ! t) = Lease # us" "db_session p = Some (i, p')"
  | (old_s) us i "is" where "st' = (give_back i p, ts[t := \<lparr>th_todo = us, th_held = is\<rparr>])"
      "t < length ts" "th_todo (ts ! t) = Give_back # us" "th_held (ts ! t) = i # is"
    by (elim pool_stepE)
  then show ?thesis
  proof cases
  case (new_s us i p')
  let ?ts = "ts[t := \<lparr>th_todo = us, th_held = i # th_held (ts ! t)\<rparr>]"
  note new = db_session_Some [OF new_s(4)]
  have h: "mset (held_all ?ts) = mset (i # held_all ts)" by (rule lease_holds [OF new_s(2)])
  have i: "i < k" "i \<notin> set (held_all ts)" using new assms(2) by (auto simp: pool_inv_def)
  have "thread_fine (ts ! t)" using assms(2) new_s(2) by (simp add: pool_inv_def list_all_length)
  then have "list_all thread_fine ?ts"
    using assms(2) new_s by (auto simp: pool_inv_def thread_fine_def list_all_length nth_list_update)
  moreover have "distinct (held_all ?ts)"
    using distinct_by_mset [OF h] i assms(2) by (simp add: pool_inv_def)
  moreover have "set (held_all ?ts) = {j. j < k \<and> pl_busy p' ! j}"
    using mset_eq_setD [OF h] i assms(2) new(3) by (auto simp: pool_inv_def nth_list_update)
  ultimately show ?thesis using new_s(1) new(3) assms(2) by (simp add: pool_inv_def)
next
  case (old_s us i "is")
  let ?ts = "ts[t := \<lparr>th_todo = us, th_held = is\<rparr>]"
  have h: "mset (held_all ts) = mset (i # held_all ?ts)" by (rule give_holds [OF old_s(2,4)])
  have d: "i \<notin> set (held_all ?ts)" "distinct (held_all ?ts)"
    using distinct_by_mset [OF h] assms(2) by (simp_all add: pool_inv_def)
  have "thread_fine (ts ! t)" using assms(2) old_s(2) by (simp add: pool_inv_def list_all_length)
  then have "list_all thread_fine ?ts"
    using assms(2) old_s by (auto simp: pool_inv_def thread_fine_def list_all_length nth_list_update)
  moreover have "set (held_all ?ts) = {j. j < k \<and> pl_busy (give_back i p) ! j}"
  proof -
    have busy_len: "length (pl_busy p) = k" using assms(2) by (simp add: pool_inv_def)
    have "set (held_all ts) = insert i (set (held_all ?ts))" using mset_eq_setD [OF h] by simp
    moreover from this have i: "i < k" using assms(2) by (auto simp: pool_inv_def)
    ultimately have "set (held_all ?ts) = set (held_all ts) - {i}" using d(1) by simp
    also have "\<dots> = {j. j < k \<and> pl_busy p ! j} - {i}" using assms(2) by (simp add: pool_inv_def)
    also have "\<dots> = {j. j < k \<and> pl_busy (give_back i p) ! j}"
      using busy_len i by (auto simp: give_back_def nth_list_update split: if_splits)
    finally show ?thesis .
  qed
  ultimately show ?thesis using old_s(1) d(2) assms(2) by (simp add: pool_inv_def give_back_def)
  qed
qed

lemma held_bound:
  assumes "list_all thread_fine ts"
  shows "length (held_all ts) \<le> length ts"
  using assms by (induction ts) (auto simp: held_all_def thread_fine_def)

lemma waiting_holds_less:
  assumes "list_all thread_fine ts" and "t < length ts" and "th_held (ts ! t) = []"
  shows "length (held_all ts) < length ts"
proof -
  have "length (held_all ts) = length (held_all (take t ts @ drop (Suc t) ts))"
    using arg_cong [OF held_all_split [OF assms(2)], of "size"] assms(3) by simp
  also have "\<dots> \<le> length (take t ts @ drop (Suc t) ts)"
    by (rule held_bound) (use assms(1) in \<open>auto simp: list_all_iff dest: in_set_takeD in_set_dropD\<close>)
  finally show ?thesis using assms(2) by simp
qed

lemma all_busy_count:
  assumes "pool_inv k (p, ts)" and "db_session p = None"
  shows "length (held_all ts) = k"
proof -
  have "set (held_all ts) = {..<k}" using assms by (auto simp: pool_inv_def db_session_None)
  then show ?thesis using distinct_card [of "held_all ts"] assms(1) by (simp add: pool_inv_def)
qed

text \<open>A thread that holds a session can go on; one that asks for a session gets it unless all are out.\<close>

lemma thread_steps:
  assumes "pool_inv k (p, ts)" and "t < length ts" and "th_todo (ts ! t) \<noteq> []"
    and "th_held (ts ! t) = [] \<Longrightarrow> db_session p \<noteq> None"
  shows "\<exists>st'. pool_step (p, ts) t st'"
proof -
  have fine: "thread_fine (ts ! t)" using assms(1,2) by (simp add: pool_inv_def list_all_length)
  obtain u us where u: "th_todo (ts ! t) = u # us" using assms(3) by (cases "th_todo (ts ! t)") auto
  show ?thesis
  proof (cases u)
    case Lease
    then have "th_held (ts ! t) = []" using fine u by (simp add: thread_fine_def)
    then obtain i p' where "db_session p = Some (i, p')" using assms(4) by auto
    then show ?thesis using pool_step.lease [OF assms(2)] u Lease by blast
  next
    case Give_back
    then obtain i "is" where "th_held (ts ! t) = i # is"
      using fine u by (cases "th_held (ts ! t)") (simp_all add: thread_fine_def)
    then show ?thesis using pool_step.give [OF assms(2)] u Give_back by blast
  qed
qed

lemma few_threads_no_wait:
  assumes "pool_inv k (p, ts)" and "length ts \<le> k" and "t < length ts" and "th_held (ts ! t) = []"
  shows "db_session p \<noteq> None"
proof
  assume "db_session p = None"
  then have "length (held_all ts) = k" by (rule all_busy_count [OF assms(1)])
  moreover have "length (held_all ts) < length ts"
    by (rule waiting_holds_less [OF _ assms(3,4)]) (use assms(1) in \<open>simp add: pool_inv_def\<close>)
  ultimately show False using assms(2) by simp
qed

lemma some_thread_steps:
  assumes inv: "pool_inv k (p, ts)" and "0 < k" and "t < length ts" and "th_todo (ts ! t) \<noteq> []"
  shows "\<exists>t st'. pool_step (p, ts) t st'"
proof (cases "db_session p = None")
  case True
  then have "held_all ts \<noteq> []" using all_busy_count [OF inv] assms(2) by auto
  then obtain x where x: "x \<in> set ts" "th_held x \<noteq> []" by (auto simp: held_all_def)
  then obtain t' where t': "t' < length ts" "ts ! t' = x" by (auto simp: in_set_conv_nth)
  have "thread_fine x" using inv x(1) by (auto simp: pool_inv_def list_all_iff)
  then have "th_todo x \<noteq> []" using x(2) by (auto simp: thread_fine_def)
  then show ?thesis using thread_steps [OF inv t'(1)] t'(2) x(2) by blast
qed (use thread_steps [OF inv assms(3,4)] in blast)

section \<open>Runs of the pool\<close>

definition todo_left :: "thread list \<Rightarrow> nat" where
  "todo_left ts = sum_list (map (\<lambda>t. length (th_todo t)) ts)"

lemma pool_step_todo:
  assumes "pool_step (p, ts) t (p', ts')"
  shows "length ts' = length ts" "Suc (todo_left ts') = todo_left ts"
proof -
  have upd: "Suc (todo_left (ts[t := x])) = todo_left ts"
    if "t < length ts" "th_todo (ts ! t) = u # th_todo x" for u x
  proof -
    have "todo_left ts = length (th_todo (ts ! t)) + todo_left (take t ts @ drop (Suc t) ts)"
      by (subst id_take_nth_drop [OF that(1)]) (simp add: todo_left_def)
    then show ?thesis using that by (simp add: upd_conv_take_nth_drop todo_left_def)
  qed
  show "length ts' = length ts" "Suc (todo_left ts') = todo_left ts"
    using assms by (auto elim!: pool_stepE intro!: upd)
qed

lemma pool_run_inv:
  assumes "pool_run st sched st'" and "pool_inv k st"
  shows "pool_inv k st'"
  using assms
proof induction
  case (runs sched st' t st'')
  then show ?case using pool_step_inv by (cases st') blast
qed

lemma pool_run_todo:
  assumes "pool_run (p, ts) sched (p', ts')"
  shows "length ts' = length ts \<and> length sched + todo_left ts' = todo_left ts"
  using assms
proof (induction "(p', ts')" arbitrary: p' ts' rule: pool_run.induct)
  case (runs sched st' t)
  obtain p1 ts1 where st': "st' = (p1, ts1)" by fastforce
  show ?case using runs(2) [OF st'] pool_step_todo [OF runs(3) [unfolded st']] by simp
qed simp

lemma new_threads_hold_none: "held_all (map (new_thread R) uss) = []"
  by (simp add: held_all_def new_thread_def)

lemma new_pool_inv: "pool_inv k (new_pool k, map (new_thread R) uss)"
  by (simp add: pool_inv_def new_threads_hold_none new_pool_def)
    (simp add: new_thread_def thread_fine_def list_all_iff uses_alternate)

text \<open>A run that can not go on has served every thread, and then no session is in use.\<close>

lemma pool_run_reaches:
  assumes "pool_run (new_pool k, map (new_thread R) uss) sched (p, ts)"
  shows "pool_inv k (p, ts)" "length ts = length uss"
    "length sched + todo_left ts = todo_left (map (new_thread R) uss)"
  using pool_run_inv [OF assms new_pool_inv] pool_run_todo [OF assms] by simp_all

lemma served_all_free:
  assumes "pool_inv k (p, ts)" and "todo_left ts = 0"
  shows "pl_busy p = replicate k False"
proof -
  have "th_held t = []" if "t \<in> set ts" for t
    using that assms by (auto simp: pool_inv_def todo_left_def list_all_iff thread_fine_def)
  then have none: "held_all ts = []" by (simp add: held_all_def)
  have "length (pl_busy p) = k" "{i. i < k \<and> pl_busy p ! i} = {}"
    using assms(1) none by (simp_all add: pool_inv_def)
  then have "\<not> pl_busy p ! i" if "i < k" for i using that by blast
  then show ?thesis using \<open>length (pl_busy p) = k\<close> by (simp add: list_eq_iff_nth_eq)
qed

text \<open>C31: threads that share a pool of sessions, each running operations of the managers one
  after the other, never block one another for good: in every state they can reach some thread with work left
  can go on, whatever the schedule; with no more threads than sessions (the program has three threads and five sessions)
  every thread with work left can.  Every schedule comes to its end after as many steps as the operations have, and
  then every session is back in the pool.\<close>

theorem pool_serves_threads:
  assumes "0 < k" and "pool_run (new_pool k, map (new_thread R) uss) sched (p, ts)"
  shows "(todo_left ts \<noteq> 0 \<longrightarrow> (\<exists>t st'. pool_step (p, ts) t st')) \<and>
    (length uss \<le> k \<longrightarrow> (\<forall>t < length ts. th_todo (ts ! t) \<noteq> [] \<longrightarrow> (\<exists>st'. pool_step (p, ts) t st'))) \<and>
    length sched + todo_left ts = todo_left (map (new_thread R) uss) \<and>
    (todo_left ts = 0 \<longrightarrow> pl_busy p = replicate k False)"
proof (intro conjI impI allI)
  note reach = pool_run_reaches [OF assms(2)]
  show "\<exists>t st'. pool_step (p, ts) t st'" if "todo_left ts \<noteq> 0"
  proof -
    obtain x where "x \<in> set ts" "th_todo x \<noteq> []" using \<open>todo_left ts \<noteq> 0\<close> by (auto simp: todo_left_def)
    then obtain t where "t < length ts" "th_todo (ts ! t) \<noteq> []" by (auto simp: in_set_conv_nth)
    then show ?thesis by (rule some_thread_steps [OF reach(1) assms(1)])
  qed
  show "\<exists>st'. pool_step (p, ts) t st'" if "length uss \<le> k" "t < length ts" "th_todo (ts ! t) \<noteq> []" for t
    using thread_steps [OF reach(1) that(2,3)] few_threads_no_wait [OF reach(1) _ that(2)] that(1) reach(2) by simp
  show "length sched + todo_left ts = todo_left (map (new_thread R) uss)" by (rule reach(3))
  show "pl_busy p = replicate k False" if "todo_left ts = 0" by (rule served_all_free [OF reach(1) that])
qed

end
