(* ===== verification/Dbl_Connection.thy ===== *)
theory Dbl_Connection
  imports Dbl_Prelude
begin

text \<open>
  A server connection (\<open>src/dbl/service/server/connection.cxx\<close>): the read and write loop shared by the
  service and the HTTP responder, over the virtual \<open>process_request\<close>.  Boost.Asio delivers the
  events; a request is whatever one \<open>async_read_some\<close> delivers (at most \<open>MAX_REQUEST_SIZE\<close> bytes).
\<close>

definition MAX_REQUEST_SIZE :: nat where "MAX_REQUEST_SIZE = 1024 * 1024"

text \<open>A completed read: the bytes, and whether the write of the reply will succeed; or an error.\<close>

datatype read_event = Received string bool | Read_error

datatype conn_end = Waiting | Closed | Aborted

text \<open>The exception handler around \<open>process_request\<close>; \<open>None\<close> is the end of the process.\<close>

definition reply_of :: "bool \<Rightarrow> string outcome \<Rightarrow> string option" where
  "reply_of debug r =
     (case r of
        Ok s \<Rightarrow> Some (s @ CRLF)
      | Throw e \<Rightarrow>
          Some (''Processing failed.'' @ (if debug then LF @ what e else []) @ CRLF)
      | Crash \<Rightarrow> None)"

text \<open>
  \<open>handle\<close>: read, process, respond, and read again when the write succeeded.  The result lists the
  replies written and says how the connection ended; \<open>is_open\<close> tells whether the handler left the
  socket open (a write to a closed socket fails).
\<close>

fun connection_run ::
  "(string \<Rightarrow> 's \<Rightarrow> string outcome \<times> 's) \<Rightarrow> ('s \<Rightarrow> bool) \<Rightarrow> bool \<Rightarrow> read_event list \<Rightarrow> 's
   \<Rightarrow> (string list \<times> conn_end) \<times> 's" where
  "connection_run process_request is_open debug [] s = (([], Waiting), s)"
| "connection_run process_request is_open debug (Read_error # es) s = (([], Closed), s)"
| "connection_run process_request is_open debug (Received request written # es) s =
     (let (r, s) = process_request request s
      in (case reply_of debug r of
            None \<Rightarrow> (([], Aborted), s)
          | Some response \<Rightarrow>
              if written \<and> is_open s
              then (let ((rs, e), s) = connection_run process_request is_open debug es s
                    in ((response # rs, e), s))
              else (([], Closed), s)))"

text \<open>A property of the state that every request of the run keeps holds after the run.\<close>

lemma connection_run_invariant:
  assumes "I s"
    and "\<And>request w s. Received request w \<in> set es \<Longrightarrow> I s \<Longrightarrow> I (snd (process_request request s))"
  shows "I (snd (connection_run process_request is_open debug es s))"
  using assms
proof (induction es arbitrary: s)
  case (Cons e es)
  show ?case
  proof (cases e)
    case (Received request written)
    with Cons.prems have "I (snd (process_request request s))" by auto
    moreover from this Cons have "I (snd (connection_run process_request is_open debug es
        (snd (process_request request s))))"
      by (metis list.set_intros(2))
    ultimately show ?thesis
      using Received by (auto simp: case_prod_beta Let_def split: option.split)
  qed (use Cons in simp)
qed simp

text \<open>
  What a handler promises to the loop: an invariant of its state that every request keeps.
\<close>

locale request_handler =
  fixes process_request :: "string \<Rightarrow> 's \<Rightarrow> string outcome \<times> 's"
    and is_open :: "'s \<Rightarrow> bool"
    and inv :: "'s \<Rightarrow> bool"
  assumes process_inv: "inv s \<Longrightarrow> inv (snd (process_request request s))"
begin

lemma run_inv: "inv s \<Longrightarrow> inv (snd (connection_run process_request is_open debug es s))"
  by (rule connection_run_invariant [where I = inv]) (simp_all add: process_inv)

end

text \<open>A handler that always answers and keeps the socket open serves every request in order.\<close>

locale total_handler = request_handler +
  assumes process_total: "inv s \<Longrightarrow> fst (process_request request s) \<noteq> Crash"
    and stays_open: "inv s \<Longrightarrow> is_open s"
begin

lemma run_answers_all:
  "inv s \<Longrightarrow> \<exists>rs. fst (connection_run process_request is_open debug
       (map (\<lambda>r. Received r True) requests) s) = (rs, Waiting) \<and> length rs = length requests"
proof (induction requests arbitrary: s)
  case (Cons request requests)
  obtain r s' where p: "process_request request s = (r, s')" by force
  with process_inv [OF Cons.prems, of request] process_total [OF Cons.prems, of request]
  have s': "inv s'" "is_open s'" and "r \<noteq> Crash" by (simp_all add: stays_open)
  then obtain response where "reply_of debug r = Some response"
    by (cases r) (auto simp: reply_of_def)
  with p s' Cons.IH [OF s'(1)] show ?case
    by (auto simp: case_prod_beta Let_def)
qed simp

end

end
