(* ===== verification/Dbl_Auth.thy ===== *)
theory Dbl_Auth
  imports Dbl_Managers "HOL-Library.Word"
begin

text \<open>
  Password authentication (\<open>src/dbl/auth\<close>) over the settings table, and the hex form of an MD5
  digest (\<open>src/dbl/util/crypto.cxx\<close>).  The digest itself is OpenSSL's and is the parameter \<open>H\<close>.
\<close>

section \<open>The hex digest\<close>

type_synonym digest = "string \<Rightarrow> 8 word list"

definition MD5_DIGEST_LENGTH :: nat where "MD5_DIGEST_LENGTH = 16"

definition hex_digit :: "nat \<Rightarrow> char" where
  "hex_digit n = (if n < 10 then char_of (48 + n) else char_of (87 + n))"

text \<open>\<open>std::hex\<close> of a byte, padded by \<open>setw(2)\<close> and \<open>setfill('0')\<close>.\<close>

definition hex_byte :: "8 word \<Rightarrow> string" where
  "hex_byte b =
     (let n = unat b;
          s = (if n < 16 then [hex_digit n] else [hex_digit (n div 16), hex_digit (n mod 16)])
      in replicate (2 - length s) (CHR ''0'') @ s)"

definition md5 :: "digest \<Rightarrow> string \<Rightarrow> string" where
  "md5 H input = concat (map hex_byte (take MD5_DIGEST_LENGTH (H input)))"

text \<open>What \<open>MD5_Final\<close> promises: it fills the whole buffer.\<close>

definition digest_ok :: "digest \<Rightarrow> bool" where
  "digest_ok H \<longleftrightarrow> (\<forall>s. length (H s) = MD5_DIGEST_LENGTH)"

section \<open>Authentication\<close>

text \<open>The token of a connection is the random UUID drawn by the constructor of \<open>Auth\<close>.\<close>

record auth =
  auth_token :: string

definition auth_auth :: "digest \<Rightarrow> auth \<Rightarrow> string \<Rightarrow> db \<Rightarrow> bool \<times> db" where
  "auth_auth H a hash d =
     (let (passwd, d) = sm_get ''service_password'' [] d
      in if passwd = [] then (True, d)
         else if hash = [] then (False, d)
         else (md5 H (passwd @ auth_token a) = hash, d))"

text \<open>The result, the errors pushed, and the database.\<close>

definition auth_set_password ::
  "digest \<Rightarrow> auth \<Rightarrow> string \<Rightarrow> string \<Rightarrow> db \<Rightarrow> (bool \<times> string list) \<times> db" where
  "auth_set_password H a passwd_hash hashed_token d =
     (if passwd_hash = [] then ((False, [''Cannot set empty password'']), d)
      else if length passwd_hash \<noteq> 32 then ((False, [''Password must be a md5 hash'']), d)
      else if md5 H (passwd_hash @ auth_token a) \<noteq> hashed_token
      then ((False, [''Token hashed with different password'']), d)
      else (let (ok, d) = sm_set ''service_password'' passwd_hash d in ((ok, []), d)))"

definition auth_remove_password :: "auth \<Rightarrow> db \<Rightarrow> bool \<times> db" where
  "auth_remove_password a d = sm_remove ''service_password'' d"

section \<open>The settings service as its clients see it\<close>

text \<open>
  What \<open>Auth\<close> relies on: while the database answers (\<open>up\<close>), a stored value is read back, a removed
  one gives the default, and other keys are not disturbed.
\<close>

locale settings_service =
  fixes get :: "string \<Rightarrow> string \<Rightarrow> 's \<Rightarrow> string \<times> 's"
    and set :: "string \<Rightarrow> string \<Rightarrow> 's \<Rightarrow> bool \<times> 's"
    and remove :: "string \<Rightarrow> 's \<Rightarrow> bool \<times> 's"
    and up :: "'s \<Rightarrow> bool"
  assumes get_state: "up s \<Longrightarrow> snd (get k def s) = s"
    and set_up: "up s \<Longrightarrow> fst (set k v s) \<and> up (snd (set k v s))"
    and remove_up: "up s \<Longrightarrow> fst (remove k s) \<and> up (snd (remove k s))"
    and get_set: "up s \<Longrightarrow> v \<noteq> [] \<Longrightarrow>
      fst (get j def (snd (set k v s))) = (if j = k then v else fst (get j def s))"
    and get_remove: "up s \<Longrightarrow>
      fst (get j def (snd (remove k s))) = (if j = k then def else fst (get j def s))"
begin

lemma set_get: "up s \<Longrightarrow> v \<noteq> [] \<Longrightarrow> set k v s = (b, t) \<Longrightarrow> b \<and> up t \<and> get k def t = (v, t)"
  using set_up [of s k v] get_set [of s v k def k] get_state [of t k def]
  by (auto simp: prod_eq_iff)

lemma remove_get: "up s \<Longrightarrow> remove k s = (b, t) \<Longrightarrow> b \<and> up t \<and> get k def t = (def, t)"
  using remove_up [of s k] get_remove [of s k def k] get_state [of t k def]
  by (auto simp: prod_eq_iff)

lemma get_pair: "up s \<Longrightarrow> get k def s = (fst (get k def s), s)"
  using get_state [of s k def] by (simp add: prod_eq_iff)

end

lemma sm_get_ok:
  "db_faults d = [] \<Longrightarrow>
   sm_get k def d = (case setting_map d k of
      None \<Rightarrow> def | Some v \<Rightarrow> if v = [] then def else v, d)"
  by (auto simp: sm_get_def query_ok sql_select_setting_def setting_map_def split: option.splits)

lemma sm_set_ok: "db_faults d = [] \<Longrightarrow> sm_set k v d = (True, sql_replace_setting k v d)"
  by (simp add: sm_set_def transact_ok)

lemma sm_remove_ok: "db_faults d = [] \<Longrightarrow> sm_remove k d = (True, sql_delete_setting k d)"
  by (simp add: sm_remove_def transact_ok)

lemma settings_faults [simp]:
  "db_faults (sql_replace_setting k v d) = db_faults d"
  "db_faults (sql_delete_setting k d) = db_faults d"
  by (simp_all add: sql_replace_setting_def sql_delete_setting_def)

interpretation sm: settings_service sm_get sm_set sm_remove "\<lambda>d. db_faults d = []"
  by unfold_locales
    (auto simp: sm_get_ok sm_set_ok sm_remove_ok settings.look_put settings.look_del)

section \<open>Properties of the digest\<close>

lemma hex_digit_inject: "m < 16 \<Longrightarrow> n < 16 \<Longrightarrow> hex_digit m = hex_digit n \<longleftrightarrow> m = n"
  by (auto simp: hex_digit_def split: if_splits)

lemma hex_byte_digits: "hex_byte b = [hex_digit (unat b div 16), hex_digit (unat b mod 16)]"
proof -
  have "CHR ''0'' = hex_digit 0" by code_simp
  then show ?thesis by (simp add: hex_byte_def Let_def)
qed

lemma unat_byte: "unat (x :: 8 word) < 256"
  using unsigned_less [of x, where ?'a = nat] by simp

lemma hex_byte_inject: "hex_byte b = hex_byte c \<longleftrightarrow> b = c"
proof
  have bound: "unat x div 16 < 16" for x :: "8 word"
    using unat_byte [of x] by (simp add: less_mult_imp_div_less)
  assume "hex_byte b = hex_byte c"
  then have "unat b div 16 = unat c div 16" "unat b mod 16 = unat c mod 16"
    by (simp_all add: hex_byte_digits hex_digit_inject bound)
  then have "unat b = unat c" by (metis div_mult_mod_eq)
  then show "b = c" by (simp only: word_unat_eq_iff)
qed simp

lemma concat_hex_inject:
  "length bs = length cs \<Longrightarrow> concat (map hex_byte bs) = concat (map hex_byte cs) \<longleftrightarrow> bs = cs"
proof (induction bs cs rule: list_induct2)
  case (Cons b bs c cs)
  have "length (hex_byte x) = 2" for x by (simp add: hex_byte_digits)
  with Cons show ?case by (simp add: hex_byte_inject)
qed simp

lemma length_concat_hex: "length (concat (map hex_byte bs)) = 2 * length bs"
  by (induction bs) (simp_all add: hex_byte_digits)

lemma md5_take:
  assumes "digest_ok H"
  shows "md5 H a = concat (map hex_byte (H a))" "length (H a) = 16"
  using assms by (simp_all add: digest_ok_def MD5_DIGEST_LENGTH_def md5_def)

lemma md5_nonempty: "digest_ok H \<Longrightarrow> md5 H a \<noteq> []"
  using length_concat_hex [of "H a"] by (auto simp: md5_take simp del: concat_eq_Nil_conv)

text \<open>The hex form is 32 characters long, which is what \<open>Auth::set_password\<close> requires of a
  password hash, and two inputs have the same hex form exactly when their digests agree, so
  comparing hex strings compares digests.\<close>

theorem md5_hex_faithful:
  assumes "digest_ok H"
  shows "length (md5 H a) = 32 \<and> (md5 H a = md5 H b \<longleftrightarrow> H a = H b)"
  by (simp add: md5_take [OF assms] length_concat_hex concat_hex_inject)

lemma plain_md5: "plain_string (md5 H a)"
proof -
  have "32 \<le> (of_char (hex_digit n) :: nat) \<and> (of_char (hex_digit n) :: nat) < 127" if "n < 16" for n
    using that by (auto simp: hex_digit_def of_char_of)
  moreover have "unat x div 16 < 16" for x :: "8 word"
    using unat_byte [of x] by (simp add: less_mult_imp_div_less)
  ultimately have "plain_string (hex_byte b)" for b
    by (simp add: hex_byte_digits)
  then show ?thesis by (force simp: md5_def plain_string_def)
qed


section \<open>Properties of authentication\<close>

definition password :: "db \<Rightarrow> string" where
  "password d = fst (sm_get ''service_password'' [] d)"

lemma auth_auth_ok:
  assumes "db_faults d = []"
  shows "auth_auth H a h d =
    (password d = [] \<or> (h \<noteq> [] \<and> md5 H (password d @ auth_token a) = h), d)"
proof -
  obtain p where "sm_get ''service_password'' [] d = (p, d)"
    using sm.get_pair [OF assms, of "''service_password''" "[]"] by metis
  then show ?thesis by (auto simp: auth_auth_def password_def)
qed

lemma auth_auth_iff:
  assumes "db_faults d = []" and "digest_ok H"
  shows "auth_auth H a h d = (password d = [] \<or> h = md5 H (password d @ auth_token a), d)"
  using auth_auth_ok [OF assms(1), of H a h] md5_nonempty [OF assms(2), of "password d @ auth_token a"]
  by auto

lemma set_password_run:
  assumes "db_faults d = []" and "p \<noteq> []" "length p = 32" "t = md5 H (p @ auth_token a)"
  obtains d' where "auth_set_password H a p t d = ((True, []), d')" "db_faults d' = []"
    "password d' = p"
proof -
  obtain b d' where s: "sm_set ''service_password'' p d = (b, d')" by force
  with sm.set_get [OF assms(1,2) s] have "b \<and> db_faults d' = [] \<and> password d' = p"
    by (metis password_def fst_conv)
  with assms s that show ?thesis by (simp add: auth_set_password_def)
qed

text \<open>Whom the service lets in: everyone while no password is stored, and otherwise exactly
  the holders of the digest of the stored password hash followed by this connection's token; a
  digest made with another connection's token is refused unless the two collide.\<close>

theorem auth_spec:
  assumes "db_faults d = []" and "digest_ok H"
  shows "auth_auth H a h d = (password d = [] \<or> h = md5 H (password d @ auth_token a), d)"
  using assms by (rule auth_auth_iff)

text \<open>Setting a password succeeds exactly for a non-empty hash of 32 characters that comes with
  the digest of it and the connection's token; it then is the stored password.  Otherwise nothing
  changes and one error says which check failed first.\<close>

theorem set_password_spec:
  assumes "db_faults d = []"
  shows "\<exists>es d'. auth_set_password H a p t d =
      ((p \<noteq> [] \<and> length p = 32 \<and> t = md5 H (p @ auth_token a), es), d') \<and> db_faults d' = [] \<and>
    (if p \<noteq> [] \<and> length p = 32 \<and> t = md5 H (p @ auth_token a)
     then es = [] \<and> password d' = p
     else d' = d \<and> es = [if p = [] then ''Cannot set empty password''
                      else if length p \<noteq> 32 then ''Password must be a md5 hash''
                      else ''Token hashed with different password''])"
proof (cases "p \<noteq> [] \<and> length p = 32 \<and> t = md5 H (p @ auth_token a)")
  case True
  then obtain d' where "auth_set_password H a p t d = ((True, []), d')" "db_faults d' = []"
    "password d' = p"
    using set_password_run [OF assms] by metis
  with True show ?thesis by simp
qed (use assms in \<open>auto simp: auth_set_password_def\<close>)

text \<open>C11: After a password was set over one connection, every other connection is let in with
  the digest over its own token and with nothing else; after \<open>remove_password\<close> everyone is let
  in again.\<close>

theorem password_lifecycle:
  assumes "db_faults d = []" and "digest_ok H" and "length p = 32"
  shows "let d1 = snd (auth_set_password H a p (md5 H (p @ auth_token a)) d);
             d2 = snd (auth_remove_password a d1)
         in (\<forall>b h. fst (auth_auth H b h d1) \<longleftrightarrow> h = md5 H (p @ auth_token b)) \<and>
            (\<forall>b h. fst (auth_auth H b h d2))"
proof -
  from assms(3) have p: "p \<noteq> []" by auto
  obtain d1 where d1: "snd (auth_set_password H a p (md5 H (p @ auth_token a)) d) = d1"
    "db_faults d1 = []" "password d1 = p"
    using set_password_run [OF assms(1) p assms(3) refl, of H a] by (metis snd_conv)
  obtain r d2 where r: "sm_remove ''service_password'' d1 = (r, d2)" by force
  with sm.remove_get [OF d1(2) r] have "db_faults d2 = []" "password d2 = []"
    by (simp_all add: password_def)
  with d1 r p show ?thesis
    by (auto simp: Let_def auth_remove_password_def auth_auth_iff [OF _ assms(2)])
qed

text \<open>C29: Authentication fails open: when reading the password fails, the service treats it as not
  set and lets every hash in, a password being stored or not.\<close>

theorem auth_fails_open:
  assumes "db_faults d = Fails m # fs"
  shows "fst (auth_auth H a h d)"
  using assms by (simp add: auth_auth_def sm_get_def query_fault Let_def)

end
