(* ===== verification/Dbl_Server.thy ===== *)
theory Dbl_Server
  imports Dbl_Connection Dbl_Auth Dbl_Types
begin

text \<open>
  The JSON service (\<open>src/dbl/service/server/service_connection.cxx\<close>): one function per handler, the
  dispatcher with its authentication gate, and \<open>process_request\<close> with its exception handlers.
\<close>

section \<open>State\<close>

text \<open>What the service object, the database and the status make up: shared by all connections.\<close>

record service =
  sv_db :: db
  sv_status :: status
  sv_stop :: bool

text \<open>One connection: its token, whether it is authenticated, and whether its socket is open.\<close>

record connection =
  cn_auth :: auth
  cn_authenticated :: bool
  cn_open :: bool

text \<open>
  The libraries: JSON, the resolver, the digest; \<open>le_close\<close> is what \<open>cancel\<close>, \<open>shutdown\<close> or \<open>close\<close>
  of the socket throws, if anything.
\<close>

record libs =
  le_json :: jsoncpp
  le_resolver :: resolver
  le_digest :: digest
  le_close :: "exn option"

type_synonym handler = "json \<Rightarrow> json \<Rightarrow> service \<Rightarrow> json outcome \<times> service"

text \<open>The constructor of \<open>ServiceConnection\<close>; the token is the UUID that \<open>Auth\<close> draws.\<close>

definition new_connection :: "libs \<Rightarrow> string \<Rightarrow> service \<Rightarrow> connection \<times> service" where
  "new_connection E token s =
     (let a = \<lparr>auth_token = token\<rparr>; (ok, d) = auth_auth (le_digest E) a [] (sv_db s)
      in (\<lparr>cn_auth = a, cn_authenticated = ok, cn_open = True\<rparr>, s\<lparr>sv_db := d\<rparr>))"

section \<open>Handlers\<close>

definition service_error :: "string \<Rightarrow> exn" where
  "service_error m = ServiceOperationError m []"

definition handle_status :: handler where
  "handle_status data response s = (Ok (status_to_json (sv_status s) response), s)"

definition handle_flush_dns :: handler where
  "handle_flush_dns data response s = (Throw (service_error ''not implemented''), s)"

text \<open>The names of a request; an element that is no string goes through \<open>asString\<close>.\<close>

definition request_domains :: "jsoncpp \<Rightarrow> string \<Rightarrow> json \<Rightarrow> exn + string list" where
  "request_domains J msg data =
     bindE (j_index J data ''domains'') (\<lambda>ds.
       if \<not> is_array ds then Inl (service_error msg) else mapE (jc_as_string J) (j_items ds))"

definition handle_block :: "libs \<Rightarrow> handler" where
  "handle_block E data response s =
     (case request_domains (le_json E) ''Domains must be an array'' data of
        Inl e \<Rightarrow> (Throw e, s)
      | Inr domains \<Rightarrow>
          (case dm_block_domains (le_resolver E) domains 0 (sv_db s) of
             (Ok b, d) \<Rightarrow> (Ok response, s\<lparr>sv_db := d\<rparr>)
           | (Throw e, d) \<Rightarrow> (Throw e, s\<lparr>sv_db := d\<rparr>)
           | (Crash, d) \<Rightarrow> (Crash, s\<lparr>sv_db := d\<rparr>)))"

definition handle_unblock :: "libs \<Rightarrow> handler" where
  "handle_unblock E data response s =
     (case request_domains (le_json E) ''Expected array of domains'' data of
        Inl e \<Rightarrow> (Throw e, s)
      | Inr domains \<Rightarrow>
          (let (b, d) = dm_unblock_domains (le_resolver E) domains (sv_db s)
           in (Ok response, s\<lparr>sv_db := d\<rparr>)))"

text \<open>The two arguments are converted before the call, in the order written here.\<close>

definition handle_set_service_password :: "libs \<Rightarrow> auth \<Rightarrow> handler" where
  "handle_set_service_password E a data response s =
     (let J = le_json E in
      case bindE (bindE (j_index J data ''password_hash'') (jc_as_string J)) (\<lambda>p.
           bindE (bindE (j_index J data ''token_hash'') (jc_as_string J)) (\<lambda>t. Inr (p, t))) of
        Inl e \<Rightarrow> (Throw e, s)
      | Inr (p, t) \<Rightarrow>
          (let ((success, errors), d) = auth_set_password (le_digest E) a p t (sv_db s);
               s = s\<lparr>sv_db := d\<rparr>
           in if \<not> success then (Throw (ServiceOperationError ''Could not set password'' errors), s)
              else (Ok response, s)))"

definition handle_remove_service_password :: "auth \<Rightarrow> handler" where
  "handle_remove_service_password a data response s =
     (let (b, d) = auth_remove_password a (sv_db s) in (Ok response, s\<lparr>sv_db := d\<rparr>))"

definition handle_import_domain_list :: "libs \<Rightarrow> handler" where
  "handle_import_domain_list E data response s =
     (let J = le_json E in
      case bindE (j_index J data ''domain_list'') (\<lambda>dl.
           if \<not> is_object dl then Inl (service_error ''Invalid data.'')
           else bindE (domain_list_init_from_json J (le_resolver E) dl new_domain_list) (\<lambda>lst.
                bindE (bindE (j_index J data ''custom'') (jc_as_bool J)) (\<lambda>custom. Inr (lst, custom)))) of
        Inl e \<Rightarrow> (Throw e, s)
      | Inr (lst, custom) \<Rightarrow>
          (case dlm_import lst custom (sv_db s) of
             (Ok b, d) \<Rightarrow> (Ok response, s\<lparr>sv_db := d\<rparr>)
           | (Throw e, d) \<Rightarrow> (Throw e, s\<lparr>sv_db := d\<rparr>)
           | (Crash, d) \<Rightarrow> (Crash, s\<lparr>sv_db := d\<rparr>)))"

definition handle_get_domain_lists :: handler where
  "handle_get_domain_lists data response s =
     (let (lsts, d) = dlm_get_all (sv_db s)
      in (Ok (JArray (map domain_list_json lsts)), s\<lparr>sv_db := d\<rparr>))"

definition handle_get_domain_list :: "libs \<Rightarrow> handler" where
  "handle_get_domain_list E data response s =
     (let J = le_json E in
      case bindE (bindE (j_index J data ''name'') (jc_as_string J)) (\<lambda>name.
           if name = [] then Inl (service_error ''No name given.'')
           else bindE (bindE (j_index J data ''with_domains'') (jc_as_bool J)) (\<lambda>w. Inr (name, w))) of
        Inl e \<Rightarrow> (Throw e, s)
      | Inr (name, w) \<Rightarrow>
          (case dlm_get_by_name name w (sv_db s) of
             (None, d) \<Rightarrow> (Crash, s\<lparr>sv_db := d\<rparr>)
           | (Some l, d) \<Rightarrow> (Ok (domain_list_to_json l response), s\<lparr>sv_db := d\<rparr>)))"

definition handle_get_version :: handler where
  "handle_get_version data response s = (Ok (JString VERSION), s)"

definition handle_get_domain :: "libs \<Rightarrow> handler" where
  "handle_get_domain E data response s =
     (let J = le_json E in
      case bindE (bindE (j_index J data ''name'') (jc_as_string J)) (\<lambda>name.
           if name = [] then Inl (service_error ''No domain name given'') else Inr name) of
        Inl e \<Rightarrow> (Throw e, s)
      | Inr name \<Rightarrow>
          (case dm_get_by_name name (sv_db s) of
             (None, d) \<Rightarrow> (Crash, s\<lparr>sv_db := d\<rparr>)
           | (Some x, d) \<Rightarrow> (Ok (domain_json x), s\<lparr>sv_db := d\<rparr>)))"

text \<open>Which query \<open>handle_get_domains\<close> runs: by type, or by a list id that is not 0.\<close>

datatype domains_query = Q_blocked | Q_whitelisted | Q_list int

definition domains_query_of :: "jsoncpp \<Rightarrow> json \<Rightarrow> exn + domains_query" where
  "domains_query_of J data =
     bindE (bindE (j_index J data ''type'') (jc_as_string J)) (\<lambda>type.
       if type = ''blocked'' then Inr Q_blocked
       else if type = ''whitelisted'' then Inr Q_whitelisted
       else bindE (bindE (j_index J data ''list_id'') (jc_as_int J)) (\<lambda>list_id.
              if list_id \<noteq> 0 then Inr (Q_list list_id) else Inl (service_error ''Need type.'')))"

definition handle_get_domains :: "libs \<Rightarrow> handler" where
  "handle_get_domains E data response s =
     (case domains_query_of (le_json E) data of
        Inl e \<Rightarrow> (Throw e, s)
      | Inr q \<Rightarrow>
          (let (domains, d) = (case q of
                 Q_blocked \<Rightarrow> dm_get_blocked (sv_db s)
               | Q_whitelisted \<Rightarrow> dm_get_whitelisted (sv_db s)
               | Q_list i \<Rightarrow> dm_get i (sv_db s))
           in (Ok (JArray (map domain_json domains)), s\<lparr>sv_db := d\<rparr>)))"

definition handle_delete_domain_list :: handler where
  "handle_delete_domain_list data response s = (Throw (service_error ''not implemented''), s)"

text \<open>The handler closes the connection's own socket and stops the worker.\<close>

definition handle_reload :: "libs \<Rightarrow> json \<Rightarrow> json \<Rightarrow> connection \<times> service
    \<Rightarrow> json outcome \<times> connection \<times> service" where
  "handle_reload E data response cs =
     (let (c, s) = cs; c = c\<lparr>cn_open := False\<rparr> in
      case le_close E of
        Some e \<Rightarrow> (Throw e, c, s)
      | None \<Rightarrow> (Ok response, c, s\<lparr>sv_stop := True\<rparr>))"

section \<open>Dispatch\<close>

definition on_service :: "handler \<Rightarrow> json \<Rightarrow> json \<Rightarrow> connection \<times> service
    \<Rightarrow> json outcome \<times> connection \<times> service" where
  "on_service h data response cs = (let (r, s) = h data response (snd cs) in (r, fst cs, s))"

definition dispatch_authenticated ::
  "libs \<Rightarrow> string \<Rightarrow> json \<Rightarrow> json \<Rightarrow> connection \<times> service \<Rightarrow> json outcome \<times> connection \<times> service" where
  "dispatch_authenticated E cmd data response cs =
     (let a = cn_auth (fst cs) in
      if cmd = ''status'' then on_service handle_status data response cs
      else if cmd = ''set_service_password''
        then on_service (handle_set_service_password E a) data response cs
      else if cmd = ''remove_service_password''
        then on_service (handle_remove_service_password a) data response cs
      else if cmd = ''flush_dns'' then on_service handle_flush_dns data response cs
      else if cmd = ''block'' then on_service (handle_block E) data response cs
      else if cmd = ''unblock'' then on_service (handle_unblock E) data response cs
      else if cmd = ''import_domain_list''
        then on_service (handle_import_domain_list E) data response cs
      else if cmd = ''get_domain_lists'' then on_service handle_get_domain_lists data response cs
      else if cmd = ''get_domain_list'' then on_service (handle_get_domain_list E) data response cs
      else if cmd = ''delete_domain_list'' then on_service handle_delete_domain_list data response cs
      else if cmd = ''get_version'' then on_service handle_get_version data response cs
      else if cmd = ''get_domain'' then on_service (handle_get_domain E) data response cs
      else if cmd = ''get_domains'' then on_service (handle_get_domains E) data response cs
      else if cmd = ''reload'' then handle_reload E data response cs
      else (Throw (RuntimeError ''Unknown command''), cs))"

definition dispatch ::
  "libs \<Rightarrow> string \<Rightarrow> json \<Rightarrow> json \<Rightarrow> connection \<times> service \<Rightarrow> json outcome \<times> connection \<times> service" where
  "dispatch E cmd data response cs =
     (let (c, s) = cs; J = le_json E in
      if cmd = ''get_token''
        then (Ok (j_set ''token'' (JString (auth_token (cn_auth c))) response), cs)
      else if cmd = ''auth''
        then (case bindE (j_index J data ''hash'') (jc_as_string J) of
                Inl e \<Rightarrow> (Throw e, cs)
              | Inr hash \<Rightarrow>
                  (let (ok, d) = auth_auth (le_digest E) (cn_auth c) hash (sv_db s);
                       s = s\<lparr>sv_db := d\<rparr>
                   in if \<not> ok then (Throw (service_error ''Invalid auth''), c, s)
                      else (Ok response, c\<lparr>cn_authenticated := True\<rparr>, s)))
      else if \<not> cn_authenticated c then (Throw (service_error ''Not authenticated''), cs)
      else dispatch_authenticated E cmd data response cs)"

section \<open>Requests\<close>

text \<open>The two catch clauses of \<open>process_request\<close>; the code fills in an object with members
  \<open>success\<close>, \<open>error_message\<close> and, if there are any, \<open>error_details\<close>.\<close>

fun error_response :: "exn \<Rightarrow> json" where
  "error_response (ServiceOperationError m es) =
     (let j = j_set ''error_message'' (JString m) (j_set ''success'' (JBool False) (JObject []))
      in if es \<noteq> [] then j_set ''error_details'' (JArray (map JString es)) j else j)"
| "error_response e =
     j_set ''error_message'' (JString (what e)) (j_set ''success'' (JBool False) (JObject []))"

definition success_response :: "json \<Rightarrow> json" where
  "success_response data = j_set ''data'' data (j_set ''success'' (JBool True) (JObject []))"

text \<open>The command (in lower case) and the data of a request.\<close>

definition parse_request :: "jsoncpp \<Rightarrow> string \<Rightarrow> exn + string \<times> json" where
  "parse_request J request =
     (case jc_parse J request of
        Inl msgs \<Rightarrow> Inl (ServiceOperationError ''Invalid format'' [msgs])
      | Inr root \<Rightarrow>
          bindE (bindE (j_index J root ''command'') (jc_as_string J)) (\<lambda>cmd.
          bindE (j_index J root ''data'') (\<lambda>data. Inr (to_lower cmd, data))))"

definition finish_request :: "json outcome \<Rightarrow> json outcome" where
  "finish_request r =
     (case r of
        Ok data \<Rightarrow> Ok (success_response data)
      | Throw e \<Rightarrow> if is_runtime_error e then Ok (error_response e) else Throw e
      | Crash \<Rightarrow> Crash)"

definition process_json ::
  "libs \<Rightarrow> string \<Rightarrow> connection \<times> service \<Rightarrow> json outcome \<times> connection \<times> service" where
  "process_json E request cs =
     (case parse_request (le_json E) request of
        Inl e \<Rightarrow> (finish_request (Throw e), cs)
      | Inr (cmd, data) \<Rightarrow>
          (let (r, cs) = dispatch E cmd data (JObject []) cs in (finish_request r, cs)))"

definition service_process ::
  "libs \<Rightarrow> string \<Rightarrow> connection \<times> service \<Rightarrow> string outcome \<times> connection \<times> service" where
  "service_process E request cs =
     (case process_json E request cs of
        (Ok j, cs) \<Rightarrow> (Ok (jc_styled (le_json E) j), cs)
      | (Throw e, cs) \<Rightarrow> (Throw e, cs)
      | (Crash, cs) \<Rightarrow> (Crash, cs))"

section \<open>Every request is a sequence of manager operations\<close>

lemma auth_auth_step: "db_step R d (snd (auth_auth H a h d))"
proof -
  have "snd (auth_auth H a h d) = snd (sm_get ''service_password'' [] d)"
    by (simp add: auth_auth_def case_prod_beta)
  then show ?thesis by (metis step_get_setting)
qed

lemma auth_set_step: "snd (auth_set_password H a p t d) = d \<or> db_step R d (snd (auth_set_password H a p t d))"
  using step_set_setting [of R d "''service_password''" p]
  by (auto simp: auth_set_password_def case_prod_beta Let_def)

lemma auth_remove_step: "db_step R d (snd (auth_remove_password a d))"
  by (simp add: auth_remove_password_def step_remove_setting)

text \<open>What a handler may do to the service: nothing, or one operation of a manager.\<close>

definition one_step :: "resolver \<Rightarrow> service \<Rightarrow> service \<Rightarrow> bool" where
  "one_step R s s' \<longleftrightarrow> sv_status s' = sv_status s \<and> (sv_db s' = sv_db s \<or> db_step R (sv_db s) (sv_db s'))"

lemma one_step_refl [simp]: "one_step R s s"
  by (simp add: one_step_def)

lemma one_step_db: "db_step R (sv_db s) d \<Longrightarrow> one_step R s (s\<lparr>sv_db := d\<rparr>)"
  by (simp add: one_step_def)

lemma handlers_one_step:
  "one_step (le_resolver E) s (snd (handle_block E data resp s))"
  "one_step (le_resolver E) s (snd (handle_unblock E data resp s))"
  "one_step (le_resolver E) s (snd (handle_import_domain_list E data resp s))"
  "one_step R s (snd (handle_get_domain_lists data resp s))"
  "one_step R s (snd (handle_get_domain_list E data resp s))"
  "one_step R s (snd (handle_get_domain E data resp s))"
  "one_step R s (snd (handle_get_domains E data resp s))"
proof -
  show "one_step (le_resolver E) s (snd (handle_block E data resp s))"
    using step_block [of "le_resolver E" "sv_db s" _ 0]
    by (auto simp: handle_block_def case_prod_beta intro!: one_step_db split: sum.split outcome.split)
  show "one_step (le_resolver E) s (snd (handle_unblock E data resp s))"
    using step_unblock [of "le_resolver E" "sv_db s"]
    by (auto simp: handle_unblock_def case_prod_beta Let_def intro!: one_step_db split: sum.split)
  show "one_step (le_resolver E) s (snd (handle_import_domain_list E data resp s))"
    using step_import [of "le_resolver E" "sv_db s"]
    by (auto simp: handle_import_domain_list_def case_prod_beta Let_def intro!: one_step_db
        split: sum.split outcome.split)
  show "one_step R s (snd (handle_get_domain_lists data resp s))"
    using step_get_lists [of R "sv_db s"]
    by (auto simp: handle_get_domain_lists_def case_prod_beta Let_def intro!: one_step_db)
  show "one_step R s (snd (handle_get_domain_list E data resp s))"
    using step_get_list [of R "sv_db s"]
    by (auto simp: handle_get_domain_list_def case_prod_beta Let_def intro!: one_step_db
        split: sum.split option.split)
  show "one_step R s (snd (handle_get_domain E data resp s))"
    using step_get_by_name [of R "sv_db s"]
    by (auto simp: handle_get_domain_def case_prod_beta Let_def intro!: one_step_db
        split: sum.split option.split)
  show "one_step R s (snd (handle_get_domains E data resp s))"
    using step_get_blocked [of R "sv_db s"] step_get_whitelisted [of R "sv_db s"]
      step_get [of R "sv_db s"]
    by (auto simp: handle_get_domains_def case_prod_beta Let_def intro!: one_step_db
        split: sum.split domains_query.split)
qed

lemma password_handlers_one_step:
  "one_step R s (snd (handle_set_service_password E a data resp s))"
  "one_step R s (snd (handle_remove_service_password a data resp s))"
proof -
  show "one_step R s (snd (handle_set_service_password E a data resp s))"
    using auth_set_step [of "le_digest E" a _ _ "sv_db s" R]
    by (auto simp: handle_set_service_password_def one_step_def case_prod_beta Let_def split: sum.split)
  show "one_step R s (snd (handle_remove_service_password a data resp s))"
    using auth_remove_step [of R "sv_db s" a]
    by (auto simp: handle_remove_service_password_def case_prod_beta Let_def intro!: one_step_db)
qed

lemma simple_handlers_one_step:
  "one_step R s (snd (handle_status data resp s))"
  "one_step R s (snd (handle_flush_dns data resp s))"
  "one_step R s (snd (handle_get_version data resp s))"
  "one_step R s (snd (handle_delete_domain_list data resp s))"
  "one_step R (snd cs) (snd (snd (handle_reload E data resp cs)))"
  by (simp_all add: handle_status_def handle_flush_dns_def handle_get_version_def
      handle_delete_domain_list_def handle_reload_def one_step_def case_prod_beta Let_def
      split: option.split)

lemma dispatch_authenticated_one_step:
  "one_step (le_resolver E) (snd cs) (snd (snd (dispatch_authenticated E cmd data resp cs)))"
  by (simp add: dispatch_authenticated_def on_service_def case_prod_beta Let_def handlers_one_step
      password_handlers_one_step simple_handlers_one_step)

lemma dispatch_one_step:
  "one_step (le_resolver E) (snd cs) (snd (snd (dispatch E cmd data resp cs)))"
  using dispatch_authenticated_one_step [of E cs cmd data resp]
    auth_auth_step [of "le_resolver E" "sv_db (snd cs)" "le_digest E" "cn_auth (fst cs)"]
  by (auto simp: dispatch_def case_prod_beta Let_def one_step_def split: sum.split)

lemma process_json_one_step:
  "one_step (le_resolver E) (snd cs) (snd (snd (process_json E request cs)))"
  using dispatch_one_step [of E cs _ _ "JObject []"]
  by (auto simp: process_json_def case_prod_beta Let_def split: sum.split)

lemma service_process_state: "snd (service_process E request cs) = snd (process_json E request cs)"
  by (auto simp: service_process_def split: prod.split outcome.split)

lemma service_process_reachable:
  "db_reachable (le_resolver E) (sv_db (snd cs)) \<Longrightarrow>
   db_reachable (le_resolver E) (sv_db (snd (snd (service_process E request cs))))"
  using process_json_one_step [of E cs request]
  by (auto simp: service_process_state one_step_def intro: reach_step)

interpretation service: request_handler "service_process E" "\<lambda>cs. cn_open (fst cs)"
  "\<lambda>cs. db_reachable (le_resolver E) (sv_db (snd cs))" for E
  by unfold_locales (rule service_process_reachable)

section \<open>Properties of the service\<close>

text \<open>Whatever a client sends over a connection, authenticated or not and well-formed or not,
  the database stays one that the managers can reach, so the schema holds.\<close>

theorem service_keeps_database:
  assumes "db_reachable (le_resolver E) (sv_db s)"
  shows "db_wf (sv_db (snd (snd (connection_run (service_process E) (\<lambda>cs. cn_open (fst cs)) debug es (c, s)))))"
proof -
  have "db_reachable (le_resolver E)
      (sv_db (snd (snd (connection_run (service_process E) (\<lambda>cs. cn_open (fst cs)) debug es (c, s)))))"
    using assms by (intro service.run_inv) simp
  then show ?thesis by (rule reachable_wf)
qed

subsection \<open>The authentication gate\<close>

definition gated :: "string \<Rightarrow> bool" where
  "gated cmd \<longleftrightarrow> cmd \<noteq> ''get_token'' \<and> cmd \<noteq> ''auth''"

lemma dispatch_gated:
  "\<not> cn_authenticated c \<Longrightarrow> gated cmd \<Longrightarrow>
   dispatch E cmd data resp (c, s) = (Throw (service_error ''Not authenticated''), c, s)"
  by (simp add: dispatch_def gated_def)

text \<open>C9: On a connection that is not authenticated every command but \<open>get_token\<close> and \<open>auth\<close>, known
  or unknown, is answered with the error "Not authenticated", and neither the connection nor the
  service changes.\<close>

theorem unauthenticated_refused:
  assumes "\<not> cn_authenticated c" and "parse_request (le_json E) request = Inr (cmd, data)"
    and "gated cmd"
  shows "process_json E request (c, s) =
    (Ok (JObject [(''error_message'', JString ''Not authenticated''), (''success'', JBool False)]), c, s)"
  using assms by (simp add: process_json_def dispatch_gated finish_request_def service_error_def Let_def)

text \<open>The hash that an \<open>auth\<close> request carries.\<close>

definition request_hash :: "jsoncpp \<Rightarrow> string \<Rightarrow> string option" where
  "request_hash J request =
     (case parse_request J request of
        Inl e \<Rightarrow> None
      | Inr (cmd, data) \<Rightarrow>
          if cmd = ''auth''
          then (case bindE (j_index J data ''hash'') (jc_as_string J) of Inl e \<Rightarrow> None | Inr h \<Rightarrow> Some h)
          else None)"

lemma process_wrong_hash:
  assumes "db_faults (sv_db s) = []" and "digest_ok (le_digest E)" and "password (sv_db s) \<noteq> []"
    and "\<not> cn_authenticated c"
    and "request_hash (le_json E) request \<noteq>
         Some (md5 (le_digest E) (password (sv_db s) @ auth_token (cn_auth c)))"
  shows "snd (process_json E request (c, s)) = (c, s)"
proof (cases "parse_request (le_json E) request")
  case (Inr cd)
  obtain cmd data where cd: "cd = (cmd, data)" by (cases cd)
  consider "gated cmd" | "cmd = ''get_token''" | "cmd = ''auth''" by (auto simp: gated_def)
  then show ?thesis
  proof cases
    case 3
    with Inr cd assms(3,5) show ?thesis
      by (auto simp: process_json_def dispatch_def request_hash_def Let_def
          auth_auth_iff [OF assms(1,2)] split: sum.splits)
  qed (use Inr cd assms(4) in \<open>simp_all add: process_json_def dispatch_gated, simp add: dispatch_def\<close>)
qed (simp add: process_json_def)

text \<open>As long as a password is stored and no request of a session carries the digest of it and
  this connection's token, the session has no effect at all: after any sequence of requests the
  database, the status, the stop flag and the connection are what they were when it was
  accepted.\<close>

theorem unauthenticated_session_harmless:
  assumes "db_faults (sv_db s) = []" and "digest_ok (le_digest E)" and "password (sv_db s) \<noteq> []"
    and "new_connection E token s = (c, s')"
    and "\<forall>request w. Received request w \<in> set es \<longrightarrow>
      request_hash (le_json E) request \<noteq> Some (md5 (le_digest E) (password (sv_db s) @ token))"
  shows "snd (connection_run (service_process E) (\<lambda>cs. cn_open (fst cs)) debug es (c, s')) = (c, s)"
proof -
  have c: "s' = s" "\<not> cn_authenticated c" "auth_token (cn_auth c) = token"
    using assms(3,4) md5_nonempty [OF assms(2), symmetric]
    by (auto simp: new_connection_def Let_def auth_auth_iff [OF assms(1,2)])
  have "snd (service_process E request (c, s)) = (c, s)" if "Received request w \<in> set es" for request w
    unfolding service_process_state
    using assms(5) that c(3) by (intro process_wrong_hash [OF assms(1-3) c(2)]) auto
  then show ?thesis
    unfolding c(1)
    using connection_run_invariant [where I = "\<lambda>cs. cs = (c, s)" and s = "(c, s)" and es = es
        and process_request = "service_process E"] by blast
qed

text \<open>A client that knows the password hash gets in: \<open>get_token\<close> tells it the connection's token,
  and \<open>auth\<close> with the digest of hash and token is answered with success and makes the connection
  authenticated; the service does not change.\<close>

theorem token_then_auth:
  assumes "db_faults (sv_db s) = []" and "digest_ok (le_digest E)"
    and "parse_request (le_json E) r1 = Inr (''get_token'', data1)"
    and "parse_request (le_json E) r2 = Inr (''auth'', data2)"
    and "bindE (j_index (le_json E) data2 ''hash'') (jc_as_string (le_json E)) =
         Inr (md5 (le_digest E) (password (sv_db s) @ auth_token (cn_auth c)))"
  shows "process_json E r1 (c, s) =
      (Ok (success_response (JObject [(''token'', JString (auth_token (cn_auth c)))])), c, s) \<and>
    process_json E r2 (c, s) =
      (Ok (success_response (JObject [])), c\<lparr>cn_authenticated := True\<rparr>, s)"
  using assms
  by (simp add: process_json_def dispatch_def finish_request_def auth_auth_iff Let_def)

subsection \<open>Responses\<close>


end
