(* ===== verification/Dbl_Client.thy ===== *)
theory Dbl_Client
  imports Dbl_Server
begin

text \<open>
  The client library (\<open>src/dblclient\<close>): requests and responses, the exchange of one request for one
  response over the connection, and the operations of \<open>Session\<close>.  The connection is the parameter
  \<open>wire\<close>, which takes the bytes written and gives what the socket delivers afterwards;
  \<open>server_wire\<close> connects it to the model of the server.
\<close>

section \<open>Exchanges\<close>

text \<open>How the stream ends after the bytes that arrived: closed, or any other error (a timeout).\<close>

datatype read_end = End_closed | End_other

record exchange =
  ex_write_error :: "string option"
  ex_bytes :: string
  ex_end :: read_end

type_synonym 's wire = "string \<Rightarrow> 's \<Rightarrow> exchange \<times> 's"

text \<open>The position of the first \<open>eof_marker_\<close>.\<close>

fun find_crlf :: "string \<Rightarrow> nat option" where
  "find_crlf (a # b # s) =
     (if a = CHR 0x0D \<and> b = CHR 0x0A then Some 0 else map_option Suc (find_crlf (b # s)))"
| "find_crlf s = None"

text \<open>
  \<open>read\<close>: the handler throws when the connection was closed; any other error leaves the length 0,
  from which the length of the marker is subtracted, and the copy runs out of the buffer.
\<close>

definition client_read :: "exchange \<Rightarrow> string outcome" where
  "client_read x =
     (case find_crlf (ex_bytes x) of
        Some n \<Rightarrow> Ok (take n (ex_bytes x))
      | None \<Rightarrow>
          (case ex_end x of
             End_closed \<Rightarrow> Throw (RuntimeError ''Read failed (connection closed)'')
           | End_other \<Rightarrow> Crash))"

text \<open>\<open>ServiceRequest::to_string\<close>; a request without parameters has null data.\<close>

definition request_json :: "string \<Rightarrow> json \<Rightarrow> json" where
  "request_json cmd params = j_set ''data'' params (j_set ''command'' (JString cmd) JNull)"

definition request_string :: "jsoncpp \<Rightarrow> string \<Rightarrow> json \<Rightarrow> string" where
  "request_string J cmd params = jc_styled J (request_json cmd params)"

record service_response =
  sr_is_ok :: bool
  sr_data :: json
  sr_error_msg :: string

definition service_response_of :: "jsoncpp \<Rightarrow> string \<Rightarrow> exn + service_response" where
  "service_response_of J raw =
     (case jc_parse J raw of
        Inl msgs \<Rightarrow> Inr \<lparr>sr_is_ok = False, sr_data = JNull, sr_error_msg = []\<rparr>
      | Inr data \<Rightarrow>
          bindE (bindE (j_index J data ''success'') (jc_as_bool J)) (\<lambda>ok.
          if ok then Inr \<lparr>sr_is_ok = True, sr_data = data, sr_error_msg = []\<rparr>
          else bindE (bindE (j_index J data ''error_message'') (jc_as_string J)) (\<lambda>m.
                 Inr \<lparr>sr_is_ok = False, sr_data = data, sr_error_msg = m\<rparr>)))"

definition get_data :: "jsoncpp \<Rightarrow> service_response \<Rightarrow> exn + json" where
  "get_data J r = j_index J (sr_data r) ''data''"

fun outcome_of :: "exn + 'a \<Rightarrow> 'a outcome" where
  "outcome_of (Inl e) = Throw e"
| "outcome_of (Inr x) = Ok x"

text \<open>
  \<open>execute\<close> may throw \<open>DBLClientError\<close> only, as its exception specification says: an exception of
  the JSON library, when the answer is no object or its members have the wrong kind, ends the
  client (\<open>std::unexpected\<close>).
\<close>

definition client_execute ::
  "jsoncpp \<Rightarrow> 's wire \<Rightarrow> string \<Rightarrow> json \<Rightarrow> 's \<Rightarrow> service_response outcome \<times> 's" where
  "client_execute J wire cmd params s =
     (let (x, s) = wire (request_string J cmd params) s in
      case ex_write_error x of
        Some m \<Rightarrow> (Throw (RuntimeError m), s)
      | None \<Rightarrow>
          (case client_read x of
             Ok raw \<Rightarrow>
               (case service_response_of J raw of Inl e \<Rightarrow> (Crash, s) | Inr r \<Rightarrow> (Ok r, s))
           | Throw e \<Rightarrow> (Throw e, s)
           | Crash \<Rightarrow> (Crash, s)))"

definition send_one_way :: "jsoncpp \<Rightarrow> 's wire \<Rightarrow> string \<Rightarrow> json \<Rightarrow> 's \<Rightarrow> unit outcome \<times> 's" where
  "send_one_way J wire cmd params s =
     (let (x, s) = wire (request_string J cmd params) s in
      case ex_write_error x of Some m \<Rightarrow> (Throw (RuntimeError m), s) | None \<Rightarrow> (Ok (), s))"

section \<open>Session\<close>

text \<open>A session keeps the last error beside the state of its connection.\<close>

type_synonym ('s, 'a) session = "string \<times> 's \<Rightarrow> 'a outcome \<times> (string \<times> 's)"

definition returnS :: "'a \<Rightarrow> ('s, 'a) session" where
  "returnS x es = (Ok x, es)"

definition bindS :: "('s, 'a) session \<Rightarrow> ('a \<Rightarrow> ('s, 'b) session) \<Rightarrow> ('s, 'b) session" where
  "bindS m f es =
     (case m es of
        (Ok x, es) \<Rightarrow> f x es
      | (Throw e, es) \<Rightarrow> (Throw e, es)
      | (Crash, es) \<Rightarrow> (Crash, es))"

definition liftS :: "exn + 'a \<Rightarrow> ('s, 'a) session" where
  "liftS r es = (outcome_of r, es)"

text \<open>\<open>execute\<close> followed by \<open>set_error\<close>, which every operation does.\<close>

definition call :: "jsoncpp \<Rightarrow> 's wire \<Rightarrow> string \<Rightarrow> json \<Rightarrow> ('s, service_response) session" where
  "call J wire cmd params es =
     (case client_execute J wire cmd params (snd es) of
        (Ok r, s) \<Rightarrow> (Ok r, (sr_error_msg r, s))
      | (Throw e, s) \<Rightarrow> (Throw e, (fst es, s))
      | (Crash, s) \<Rightarrow> (Crash, (fst es, s)))"

definition get_raw_data :: "jsoncpp \<Rightarrow> 's wire \<Rightarrow> string \<Rightarrow> ('s, string) session" where
  "get_raw_data J wire cmd es =
     bindS (call J wire cmd JNull) (\<lambda>r. liftS (bindE (get_data J r) (jc_as_string J))) ([], snd es)"

definition get_server_version :: "jsoncpp \<Rightarrow> 's wire \<Rightarrow> ('s, string) session" where
  "get_server_version J wire =
     bindS (call J wire ''get_version'' JNull) (\<lambda>r.
       if sr_is_ok r then liftS (bindE (get_data J r) (jc_as_string J)) else returnS [])"

text \<open>The token in the data of a \<open>get_token\<close> response.\<close>

definition token_of :: "jsoncpp \<Rightarrow> service_response \<Rightarrow> exn + string" where
  "token_of J r = bindE (get_data J r) (\<lambda>d. bindE (j_index J d ''token'') (jc_as_string J))"

definition authenticate :: "jsoncpp \<Rightarrow> digest \<Rightarrow> 's wire \<Rightarrow> string \<Rightarrow> ('s, bool) session" where
  "authenticate J H wire passwd =
     bindS (call J wire ''get_token'' JNull) (\<lambda>r.
       if sr_is_ok r then
         bindS (liftS (token_of J r)) (\<lambda>token.
           if token \<noteq> [] then
             bindS (call J wire ''auth''
                      (j_set ''hash'' (JString (md5 H (md5 H passwd @ token))) JNull))
               (\<lambda>r. returnS (sr_is_ok r))
           else returnS False)
       else returnS False)"

definition set_service_password :: "jsoncpp \<Rightarrow> digest \<Rightarrow> 's wire \<Rightarrow> string \<Rightarrow> ('s, bool) session" where
  "set_service_password J H wire passwd =
     bindS (call J wire ''get_token'' JNull) (\<lambda>r.
       if sr_is_ok r then
         bindS (liftS (token_of J r)) (\<lambda>token.
           if token \<noteq> [] then
             (let passwd_hash = md5 H passwd; hashed_token = md5 H (passwd_hash @ token)
              in bindS (call J wire ''set_service_password''
                          (j_set ''token_hash'' (JString hashed_token)
                          (j_set ''password_hash'' (JString passwd_hash) JNull)))
                   (\<lambda>r. returnS (sr_is_ok r)))
           else returnS False)
       else returnS False)"

definition import_domain_list :: "jsoncpp \<Rightarrow> 's wire \<Rightarrow> domain_list \<Rightarrow> ('s, bool) session" where
  "import_domain_list J wire lst =
     bindS (call J wire ''import_domain_list'' (j_set ''domain_list'' (domain_list_json lst) JNull))
       (\<lambda>r. returnS (sr_is_ok r))"

text \<open>The operations that fill an output parameter return it, with the flag, as a pair.\<close>

definition get_domain_lists ::
  "jsoncpp \<Rightarrow> resolver \<Rightarrow> 's wire \<Rightarrow> domain_list list \<Rightarrow> ('s, bool \<times> domain_list list) session" where
  "get_domain_lists J R wire acc =
     bindS (call J wire ''get_domain_lists'' JNull) (\<lambda>r.
       if sr_is_ok r
       then bindS (liftS (bindE (get_data J r) (\<lambda>d.
              mapE (\<lambda>x. domain_list_init_from_json J R x new_domain_list) (j_items d))))
              (\<lambda>ls. returnS (True, acc @ ls))
       else returnS (False, acc))"

definition get_domain_list ::
  "jsoncpp \<Rightarrow> resolver \<Rightarrow> 's wire \<Rightarrow> domain_list \<Rightarrow> ('s, bool \<times> domain_list) session" where
  "get_domain_list J R wire lst =
     bindS (call J wire ''get_domain_list''
              (j_set ''with_domains'' (JBool True) (j_set ''name'' (JString (dl_name lst)) JNull))) (\<lambda>r.
       if sr_is_ok r
       then bindS (liftS (bindE (get_data J r) (\<lambda>d. domain_list_init_from_json J R d lst)))
              (\<lambda>l. returnS (True, l))
       else returnS (False, lst))"

definition get_domain :: "jsoncpp \<Rightarrow> resolver \<Rightarrow> 's wire \<Rightarrow> domain \<Rightarrow> ('s, bool \<times> domain) session" where
  "get_domain J R wire domain =
     bindS (call J wire ''get_domain'' (j_set ''name'' (JString (d_name domain)) JNull)) (\<lambda>r.
       if sr_is_ok r
       then bindS (liftS (bindE (get_data J r) (\<lambda>d. domain_init_from_json J R d domain)))
              (\<lambda>x. returnS (True, x))
       else returnS (False, domain))"

definition get_domains ::
  "jsoncpp \<Rightarrow> resolver \<Rightarrow> 's wire \<Rightarrow> domain list \<Rightarrow> bool \<Rightarrow> ('s, bool \<times> domain list) session" where
  "get_domains J R wire acc of_blocked =
     bindS (call J wire ''get_domains''
              (j_set ''type'' (JString (if of_blocked then ''blocked'' else ''whitelisted'')) JNull)) (\<lambda>r.
       if sr_is_ok r
       then bindS (liftS (bindE (get_data J r) (\<lambda>d.
              mapE (\<lambda>x. domain_init_from_json J R x new_domain) (j_items d))))
              (\<lambda>ds. returnS (True, acc @ ds))
       else returnS (False, acc))"

definition get_blocked_domains ::
  "jsoncpp \<Rightarrow> resolver \<Rightarrow> 's wire \<Rightarrow> domain list \<Rightarrow> ('s, bool \<times> domain list) session" where
  "get_blocked_domains J R wire acc = get_domains J R wire acc True"

definition get_whitelisted_domains ::
  "jsoncpp \<Rightarrow> resolver \<Rightarrow> 's wire \<Rightarrow> domain list \<Rightarrow> ('s, bool \<times> domain list) session" where
  "get_whitelisted_domains J R wire acc = get_domains J R wire acc False"

definition manage_domains :: "jsoncpp \<Rightarrow> 's wire \<Rightarrow> string list \<Rightarrow> bool \<Rightarrow> ('s, bool) session" where
  "manage_domains J wire names block =
     bindS (call J wire (if block then ''block'' else ''unblock'')
              (j_set ''domains'' (JArray (map JString names)) JNull))
       (\<lambda>r. returnS (sr_is_ok r))"

definition block_domain :: "jsoncpp \<Rightarrow> 's wire \<Rightarrow> string \<Rightarrow> ('s, bool) session" where
  "block_domain J wire name = manage_domains J wire [name] True"

definition unblock_domain :: "jsoncpp \<Rightarrow> 's wire \<Rightarrow> string \<Rightarrow> ('s, bool) session" where
  "unblock_domain J wire name = manage_domains J wire [name] False"

definition send_reload :: "jsoncpp \<Rightarrow> 's wire \<Rightarrow> ('s, unit) session" where
  "send_reload J wire es =
     (let (r, s) = send_one_way J wire ''reload'' JNull (snd es) in (r, (fst es, s)))"

definition get_status :: "jsoncpp \<Rightarrow> 's wire \<Rightarrow> status \<Rightarrow> ('s, bool \<times> status) session" where
  "get_status J wire st =
     bindS (call J wire ''status'' JNull) (\<lambda>r.
       if sr_is_ok r
       then bindS (liftS (bindE (get_data J r) (\<lambda>d. status_init_from_json J d st)))
              (\<lambda>st. returnS (True, st))
       else returnS (False, st))"

section \<open>The client connected to the server\<close>

text \<open>
  The request arrives in one read and the client reads until the server waits again or has closed
  the connection.
\<close>

definition server_wire :: "libs \<Rightarrow> bool \<Rightarrow> (connection \<times> service) wire" where
  "server_wire E debug request cs =
     (let ((replies, e), cs) =
            connection_run (service_process E) (\<lambda>cs. cn_open (fst cs)) debug [Received request True] cs
      in (\<lparr>ex_write_error = None, ex_bytes = concat replies,
           ex_end = (if e = Waiting then End_other else End_closed)\<rparr>, cs))"

lemma find_crlf_reply: "CHR 0x0D \<notin> set s \<Longrightarrow> find_crlf (s @ CRLF) = Some (length s)"
  unfolding CRLF_eq
proof (induction s)
  case (Cons a s)
  then show ?case by (cases s) auto
qed simp

lemma plain_request: "plain_string cmd \<Longrightarrow> plain_json params \<Longrightarrow> plain_json (request_json cmd params)"
  unfolding request_json_def by (intro plain_json_set) (auto simp: assoc_sorted_def)

lemma parse_request_string:
  assumes "jsoncpp_ok J" and "jsoncpp_roundtrip J" and "plain_string cmd" and "plain_json params"
  shows "parse_request J (request_string J cmd params) = Inr (to_lower cmd, params)"
proof -
  have "jc_parse J (request_string J cmd params) = Inr (request_json cmd params)"
    using assms(2) plain_request [OF assms(3,4)]
    by (simp add: request_string_def jsoncpp_roundtrip_def)
  then show ?thesis
    using assms(1) by (simp add: parse_request_def request_json_def j_index_set jsoncpp_okD)
qed

text \<open>
  One call against the server: when the dispatcher gives a plain result and leaves the socket open,
  the client gets the result or the message.
\<close>

lemma call_server:
  assumes "jsoncpp_ok (le_json E)" and "jsoncpp_roundtrip (le_json E)"
    and "plain_string cmd" and "plain_json params"
    and "dispatch E (to_lower cmd) params (JObject []) cs = (r, cs')" and "cn_open (fst cs')"
    and "finish_request r = Ok j" and "plain_json j"
  shows "call (le_json E) (server_wire E debug) cmd params (err, cs) =
    (case service_response_of (le_json E) (jc_styled (le_json E) j) of
       Inl e \<Rightarrow> (Crash, (err, cs'))
     | Inr sr \<Rightarrow> (Ok sr, (sr_error_msg sr, cs')))"
proof -
  let ?J = "le_json E" and ?req = "request_string (le_json E) cmd params"
  have "process_json E ?req cs = (Ok j, cs')"
    using parse_request_string [OF assms(1-4)] assms(5,7) by (simp add: process_json_def)
  then have run: "server_wire E debug ?req cs =
      (\<lparr>ex_write_error = None, ex_bytes = jc_styled ?J j @ CRLF, ex_end = End_other\<rparr>, cs')"
    using assms(6) by (simp add: server_wire_def service_process_def reply_of_def)
  have "CHR 0x0D \<notin> set (jc_styled ?J j)"
    using assms(2,8) by (simp add: jsoncpp_roundtrip_def)
  then have "client_read (fst (server_wire E debug ?req cs)) = Ok (jc_styled ?J j)"
    by (simp add: run client_read_def find_crlf_reply)
  with run show ?thesis
    by (cases "service_response_of ?J (jc_styled ?J j)") (simp_all add: call_def client_execute_def)
qed

lemma plain_success: "plain_json data \<Longrightarrow> plain_json (success_response data)"
  unfolding success_response_def by (intro plain_json_set) (auto simp: assoc_sorted_def)

lemma plain_error: "plain_string (what e) \<Longrightarrow> is_runtime_error e \<Longrightarrow>
   (\<And>m es. e = ServiceOperationError m es \<Longrightarrow> \<forall>x \<in> set es. plain_string x) \<Longrightarrow> plain_json (error_response e)"
  by (cases e) (auto simp: Let_def assoc_sorted_def intro!: plain_json_set plain_json_array)

lemma call_ok:
  assumes "jsoncpp_ok (le_json E)" and "jsoncpp_roundtrip (le_json E)"
    and "plain_string cmd" and "plain_json params"
    and "dispatch E (to_lower cmd) params (JObject []) cs = (Ok data, cs')" and "cn_open (fst cs')"
    and "plain_json data"
  shows "call (le_json E) (server_wire E debug) cmd params (err, cs) =
    (Ok \<lparr>sr_is_ok = True, sr_data = success_response data, sr_error_msg = []\<rparr>, ([], cs'))"
proof -
  have "j_index (le_json E) (success_response data) ''success'' = Inr (JBool True)"
    by (simp add: success_response_def j_index_set)
  then show ?thesis
    using call_server [OF assms(1-6), of "success_response data" debug err] plain_success [OF assms(7)]
      assms(1,2)
    by (simp add: finish_request_def service_response_of_def jsoncpp_roundtrip_def jsoncpp_okD)
qed

lemma call_refused:
  assumes "jsoncpp_ok (le_json E)" and "jsoncpp_roundtrip (le_json E)"
    and "plain_string cmd" and "plain_json params"
    and "dispatch E (to_lower cmd) params (JObject []) cs = (Throw (ServiceOperationError m es), cs')"
    and "cn_open (fst cs')" and "plain_string m" and "\<forall>x \<in> set es. plain_string x"
  shows "\<exists>d. call (le_json E) (server_wire E debug) cmd params (err, cs) =
    (Ok \<lparr>sr_is_ok = False, sr_data = d, sr_error_msg = m\<rparr>, (m, cs'))"
proof -
  let ?j = "error_response (ServiceOperationError m es)"
  have "plain_json ?j" using assms(7,8) by (intro plain_error) auto
  moreover have "j_index (le_json E) ?j ''success'' = Inr (JBool False)"
    "j_index (le_json E) ?j ''error_message'' = Inr (JString m)"
    by (simp_all add: j_index_set Let_def)
  ultimately show ?thesis
    using call_server [OF assms(1-6), of ?j debug err] assms(1,2)
    by (simp add: finish_request_def service_response_of_def jsoncpp_roundtrip_def jsoncpp_okD
        del: error_response.simps)
qed

lemma get_data_success:
  "get_data J \<lparr>sr_is_ok = b, sr_data = success_response data, sr_error_msg = m\<rparr> = Inr data"
  by (simp add: get_data_def success_response_def j_index_set)

lemma bindS_Ok: "m es = (Ok x, es') \<Longrightarrow> bindS m f es = f x es'"
  by (simp add: bindS_def)

lemma liftS_Inr: "bindS (liftS (Inr x)) f es = f x es"
  by (simp add: bindS_def liftS_def)

lemma lower_commands:
  "to_lower ''get_token'' = ''get_token''" "to_lower ''auth'' = ''auth''"
  "to_lower ''set_service_password'' = ''set_service_password''" "to_lower ''block'' = ''block''"
  "to_lower ''unblock'' = ''unblock''" "to_lower ''get_domains'' = ''get_domains''"
  "to_lower ''status'' = ''status''" "to_lower ''get_version'' = ''get_version''"
  "to_lower ''get_domain_lists'' = ''get_domain_lists''"
  "to_lower ''import_domain_list'' = ''import_domain_list''"
  by code_simp+

section \<open>Answers that are no answers\<close>

text \<open>An answer that is JSON but no object, or whose \<open>success\<close> is no boolean, ends the client: the
  exception of the JSON library is not one \<open>execute\<close> may throw.  Text that is no JSON at all is a
  failed call with an empty message.\<close>

theorem malformed_answer_ends_client:
  assumes "wire (request_string J cmd params) s = (x, s')" and "ex_write_error x = None"
    and "client_read x = Ok raw"
  shows "(jc_parse J raw = Inr (JArray xs) \<longrightarrow> fst (call J wire cmd params (err, s)) = Crash) \<and>
    (jc_parse J raw = Inl msgs \<longrightarrow> call J wire cmd params (err, s) =
       (Ok \<lparr>sr_is_ok = False, sr_data = JNull, sr_error_msg = []\<rparr>, ([], s')))"
  using assms by (simp add: call_def client_execute_def service_response_of_def)

section \<open>Logging in\<close>

lemma call_get_token:
  assumes "jsoncpp_ok (le_json E)" and "jsoncpp_roundtrip (le_json E)" and "cn_open c"
    and "plain_string (auth_token (cn_auth c))"
  shows "\<exists>r. call (le_json E) (server_wire E debug) ''get_token'' JNull (err, c, s) = (Ok r, ([], c, s)) \<and>
    sr_is_ok r \<and> token_of (le_json E) r = Inr (auth_token (cn_auth c))"
proof -
  let ?data = "JObject [(''token'', JString (auth_token (cn_auth c)))]"
  have "dispatch E (to_lower ''get_token'') JNull (JObject []) (c, s) = (Ok ?data, c, s)"
    by (simp add: dispatch_def lower_commands)
  moreover have "plain_json ?data" using assms(4) by (simp add: assoc_sorted_def)
  moreover have "plain_string ''get_token''" by simp
  ultimately have "call (le_json E) (server_wire E debug) ''get_token'' JNull (err, c, s) =
      (Ok \<lparr>sr_is_ok = True, sr_data = success_response ?data, sr_error_msg = []\<rparr>, ([], c, s))"
    using assms by (intro call_ok) auto
  then show ?thesis using assms(1)
    by (simp add: token_of_def get_data_success jsoncpp_okD)
qed

lemma authenticate_server:
  fixes passwd :: string
  assumes "jsoncpp_ok (le_json E)" and "jsoncpp_roundtrip (le_json E)" and "digest_ok (le_digest E)"
    and "db_faults (sv_db s) = []" and "cn_open c"
    and "plain_string (auth_token (cn_auth c))" and "auth_token (cn_auth c) \<noteq> []"
  defines "ok \<equiv> password (sv_db s) = [] \<or>
    md5 (le_digest E) (md5 (le_digest E) passwd @ auth_token (cn_auth c)) =
      md5 (le_digest E) (password (sv_db s) @ auth_token (cn_auth c))"
  shows "authenticate (le_json E) (le_digest E) (server_wire E debug) passwd (err, c, s) =
    (Ok ok, (if ok then [] else ''Invalid auth'',
       if ok then c\<lparr>cn_authenticated := True\<rparr> else c, s))"
proof -
  let ?J = "le_json E" and ?H = "le_digest E" and ?t = "auth_token (cn_auth c)"
  let ?h = "md5 ?H (md5 ?H passwd @ ?t)"
  let ?params = "j_set ''hash'' (JString ?h) JNull"
  obtain r where r: "call ?J (server_wire E debug) ''get_token'' JNull (err, c, s) = (Ok r, ([], c, s))"
    "sr_is_ok r" "token_of ?J r = Inr ?t"
    using call_get_token [OF assms(1,2,5,6)] by metis
  have plain: "plain_json ?params" "plain_string ''auth''"
    by (simp_all add: assoc_sorted_def plain_md5)
  have idx: "bindE (j_index ?J ?params ''hash'') (jc_as_string ?J) = Inr ?h"
    using assms(1) by (simp add: jsoncpp_okD)
  have disp: "dispatch E (to_lower ''auth'') ?params (JObject []) (c, s) =
      (if ok then (Ok (JObject []), c\<lparr>cn_authenticated := True\<rparr>, s)
       else (Throw (service_error ''Invalid auth''), c, s))"
    unfolding lower_commands using idx
    by (simp add: dispatch_def auth_auth_iff [OF assms(4,3)] ok_def Let_def del: j_set.simps)
  show ?thesis
  proof (cases ok)
    case True
    with call_ok [OF assms(1,2) plain(2,1), of "(c, s)" "JObject []" "(c\<lparr>cn_authenticated := True\<rparr>, s)" debug "[]"]
      disp assms(5)
    have "call ?J (server_wire E debug) ''auth'' ?params ([], c, s) =
        (Ok \<lparr>sr_is_ok = True, sr_data = success_response (JObject []), sr_error_msg = []\<rparr>,
          ([], c\<lparr>cn_authenticated := True\<rparr>, s))"
      by (simp add: assoc_sorted_def del: j_set.simps)
    with True r assms(7) show ?thesis
      by (simp add: authenticate_def bindS_Ok liftS_Inr returnS_def del: j_set.simps)
  next
    case False
    have "plain_string ''Invalid auth''" by simp
    with False call_refused [OF assms(1,2) plain(2,1), of "(c, s)" "''Invalid auth''" "[]" "(c, s)" debug "[]"]
      disp assms(5)
    obtain d where "call ?J (server_wire E debug) ''auth'' ?params ([], c, s) =
        (Ok \<lparr>sr_is_ok = False, sr_data = d, sr_error_msg = ''Invalid auth''\<rparr>, (''Invalid auth'', c, s))"
      by (auto simp: service_error_def simp del: j_set.simps)
    with False r assms(7) show ?thesis
      by (simp add: authenticate_def bindS_Ok liftS_Inr returnS_def del: j_set.simps)
  qed
qed

text \<open>\<open>Session::authenticate\<close> against the service: with a stored password it succeeds and
  authenticates the connection exactly when the given password has the stored hash (up to a digest
  collision with this connection's token); otherwise it returns false, keeps the message
  "Invalid auth" and changes nothing.\<close>

theorem client_authenticates:
  assumes "jsoncpp_ok (le_json E)" and "jsoncpp_roundtrip (le_json E)" and "digest_ok (le_digest E)"
    and "db_faults (sv_db s) = []" and "cn_open c"
    and "plain_string (auth_token (cn_auth c))" and "auth_token (cn_auth c) \<noteq> []"
    and "password (sv_db s) \<noteq> []"
    and "inj_on (le_digest E) {md5 (le_digest E) passwd @ auth_token (cn_auth c),
                               password (sv_db s) @ auth_token (cn_auth c)}"
  shows "authenticate (le_json E) (le_digest E) (server_wire E debug) passwd (err, c, s) =
    (if md5 (le_digest E) passwd = password (sv_db s)
     then (Ok True, ([], c\<lparr>cn_authenticated := True\<rparr>, s))
     else (Ok False, (''Invalid auth'', c, s)))"
proof -
  have "md5 (le_digest E) a = md5 (le_digest E) b \<longleftrightarrow> le_digest E a = le_digest E b" for a b
    using md5_take [OF assms(3)] concat_hex_inject by metis
  with assms(8,9) show ?thesis
    by (auto simp: authenticate_server [OF assms(1-7)] inj_on_def)
qed

section \<open>Changing the password\<close>

lemma set_service_password_server:
  fixes passwd :: string
  assumes "jsoncpp_ok (le_json E)" and "jsoncpp_roundtrip (le_json E)" and "digest_ok (le_digest E)"
    and "db_faults (sv_db s) = []" and "cn_open c" and "cn_authenticated c"
    and "plain_string (auth_token (cn_auth c))" and "auth_token (cn_auth c) \<noteq> []"
  obtains d where "set_service_password (le_json E) (le_digest E) (server_wire E debug) passwd (err, c, s) =
      (Ok True, ([], c, s\<lparr>sv_db := d\<rparr>))" "db_faults d = []" "password d = md5 (le_digest E) passwd"
proof -
  let ?J = "le_json E" and ?H = "le_digest E" and ?t = "auth_token (cn_auth c)"
  let ?p = "md5 ?H passwd" and ?h = "md5 ?H (md5 ?H passwd @ ?t)"
  let ?params = "j_set ''token_hash'' (JString ?h) (j_set ''password_hash'' (JString ?p) JNull)"
  obtain r where r: "call ?J (server_wire E debug) ''get_token'' JNull (err, c, s) = (Ok r, ([], c, s))"
    "sr_is_ok r" "token_of ?J r = Inr ?t"
    using call_get_token [OF assms(1,2,5,7)] by metis
  obtain d where d: "auth_set_password ?H (cn_auth c) ?p ?h (sv_db s) = ((True, []), d)"
    "db_faults d = []" "password d = ?p"
    using set_password_run [OF assms(4) md5_nonempty [OF assms(3)] _ refl] md5_take [OF assms(3)]
    by (metis length_concat_hex mult_2 numeral_Bit0)
  have idx: "bindE (j_index ?J ?params ''password_hash'') (jc_as_string ?J) = Inr ?p"
    "bindE (j_index ?J ?params ''token_hash'') (jc_as_string ?J) = Inr ?h"
    using assms(1) by (simp_all add: jsoncpp_okD j_index_set del: j_set.simps)
  have "handle_set_service_password E (cn_auth c) ?params (JObject []) s =
      (Ok (JObject []), s\<lparr>sv_db := d\<rparr>)"
    using idx d(1) by (simp add: handle_set_service_password_def Let_def del: j_set.simps)
  then have "dispatch E (to_lower ''set_service_password'') ?params (JObject []) (c, s) =
      (Ok (JObject []), c, s\<lparr>sv_db := d\<rparr>)"
    unfolding lower_commands using assms(6)
    by (simp add: dispatch_def dispatch_authenticated_def on_service_def Let_def del: j_set.simps)
  moreover have "plain_json ?params"
    by (simp add: assoc_sorted_def plain_md5)
  moreover have "plain_string ''set_service_password''" by simp
  ultimately have "call ?J (server_wire E debug) ''set_service_password'' ?params ([], c, s) =
      (Ok \<lparr>sr_is_ok = True, sr_data = success_response (JObject []), sr_error_msg = []\<rparr>,
        ([], c, s\<lparr>sv_db := d\<rparr>))"
    using assms(1,2,5) by (intro call_ok) (simp_all add: assoc_sorted_def del: j_set.simps)
  with r assms(8) have "set_service_password ?J ?H (server_wire E debug) passwd (err, c, s) =
      (Ok True, ([], c, s\<lparr>sv_db := d\<rparr>))"
    by (simp add: set_service_password_def bindS_Ok liftS_Inr returnS_def Let_def del: j_set.simps)
  with d that show ?thesis by blast
qed

text \<open>C10: A password set by one client locks the others out: after \<open>Session::set_service_password\<close>
  over an authenticated connection, a connection opened later starts unauthenticated, and
  \<open>Session::authenticate\<close> with the same password lets it in.\<close>

theorem password_set_over_network:
  assumes "jsoncpp_ok (le_json E)" and "jsoncpp_roundtrip (le_json E)" and "digest_ok (le_digest E)"
    and "db_faults (sv_db s) = []" and "cn_open c" and "cn_authenticated c"
    and "plain_string (auth_token (cn_auth c))" and "auth_token (cn_auth c) \<noteq> []"
    and "plain_string token" and "token \<noteq> []"
  shows "\<exists>s1 c2. set_service_password (le_json E) (le_digest E) (server_wire E debug) passwd (err, c, s) =
      (Ok True, ([], c, s1)) \<and>
    new_connection E token s1 = (c2, s1) \<and> \<not> cn_authenticated c2 \<and>
    authenticate (le_json E) (le_digest E) (server_wire E debug) passwd (err', c2, s1) =
      (Ok True, ([], c2\<lparr>cn_authenticated := True\<rparr>, s1))"
proof -
  obtain d where d: "set_service_password (le_json E) (le_digest E) (server_wire E debug) passwd (err, c, s) =
      (Ok True, ([], c, s\<lparr>sv_db := d\<rparr>))" "db_faults d = []" "password d = md5 (le_digest E) passwd"
    by (rule set_service_password_server [OF assms(1-8)])
  let ?s1 = "s\<lparr>sv_db := d\<rparr>"
  let ?c2 = "\<lparr>cn_auth = \<lparr>auth_token = token\<rparr>, cn_authenticated = False, cn_open = True\<rparr>"
  have new: "new_connection E token ?s1 = (?c2, ?s1)"
    using d(3) md5_nonempty [OF assms(3)] md5_nonempty [OF assms(3), symmetric]
    by (simp add: new_connection_def auth_auth_iff [OF d(2) assms(3)])
  have "authenticate (le_json E) (le_digest E) (server_wire E debug) passwd (err', ?c2, ?s1) =
      (Ok True, ([], ?c2\<lparr>cn_authenticated := True\<rparr>, ?s1))"
    using authenticate_server [OF assms(1-3), of ?s1 ?c2] d assms(9,10) by simp
  with d(1) new show ?thesis by (intro exI [of _ ?s1] exI [of _ ?c2]) simp
qed

section \<open>Blocking and listing domains\<close>

text \<open>A database whose text survives the wire.\<close>

definition plain_db :: "db \<Rightarrow> bool" where
  "plain_db d \<longleftrightarrow> (\<forall>r \<in> set (db_domains d). plain_string (dr_name r) \<and> is_int32 (dr_list_id r)) \<and>
     (\<forall>l \<in> set (db_lists d). plain_string (lr_name l))"

lemma join_lists_mem:
  "x \<in> set (join_lists P d) \<longleftrightarrow> (\<exists>r \<in> set (db_domains d). \<exists>l \<in> set (db_lists d).
     P l \<and> lr_id l = dr_list_id r \<and> x = \<lparr>d_name = dr_name r, d_list_id = dr_list_id r, d_list_name = Some (lr_name l)\<rparr>)"
  by (auto simp: join_lists_def)

lemma plain_blocked:
  assumes "plain_db d" and "x \<in> set (sql_get_blocked_domains d)"
  shows "plain_json (domain_json x) \<and> is_int32 (d_list_id x)"
proof -
  from assms(2) obtain r l where "r \<in> set (db_domains d)" "l \<in> set (db_lists d)"
    "x = \<lparr>d_name = dr_name r, d_list_id = dr_list_id r, d_list_name = Some (lr_name l)\<rparr>"
    by (auto simp: sql_get_blocked_domains_def order_by_name_props join_lists_mem)
  with assms(1) show ?thesis by (auto simp: plain_db_def intro!: plain_domain_json)
qed

definition received :: "resolver \<Rightarrow> domain \<Rightarrow> domain" where
  "received R x = \<lparr>d_name = (if valid_name R (d_name x) then d_name x else []),
     d_list_id = d_list_id x, d_list_name = (case d_list_name x of None \<Rightarrow> Some [] | Some l \<Rightarrow> Some l)\<rparr>"

lemma read_domains:
  assumes "jsoncpp_ok J" and "\<And>x. x \<in> set ds \<Longrightarrow> is_int32 (d_list_id x)"
  shows "mapE (\<lambda>x. domain_init_from_json J R x new_domain) (map domain_json ds) = Inr (map (received R) ds)"
  using assms(2)
proof (induction ds)
  case (Cons x ds)
  then show ?case
    by (simp add: domain_json_read [OF assms(1)] received_def new_domain_def split: option.split)
qed simp

lemma get_blocked_server:
  assumes "jsoncpp_ok (le_json E)" and "jsoncpp_roundtrip (le_json E)"
    and "db_faults (sv_db s) = []" and "plain_db (sv_db s)" and "cn_open c" and "cn_authenticated c"
  shows "get_blocked_domains (le_json E) R (server_wire E debug) acc (err, c, s) =
    (Ok (True, acc @ map (received R) (sql_get_blocked_domains (sv_db s))), ([], c, s))"
proof -
  let ?J = "le_json E" and ?params = "j_set ''type'' (JString ''blocked'') JNull"
  let ?ds = "sql_get_blocked_domains (sv_db s)"
  have "domains_query_of ?J ?params = Inr Q_blocked"
    using assms(1) by (simp add: domains_query_of_def jsoncpp_okD)
  then have "dispatch E (to_lower ''get_domains'') ?params (JObject []) (c, s) =
      (Ok (JArray (map domain_json ?ds)), c, s)"
    unfolding lower_commands using assms(3,6)
    by (simp add: dispatch_def dispatch_authenticated_def on_service_def handle_get_domains_def
        dm_get_blocked_def query_ok Let_def del: j_set.simps)
  moreover have "plain_json ?params" and "plain_string ''get_domains''"
    by (simp_all add: assoc_sorted_def)
  moreover have "plain_json (JArray (map domain_json ?ds))"
    by (rule plain_json_array) (use plain_blocked [OF assms(4)] in blast)
  ultimately have "call ?J (server_wire E debug) ''get_domains'' ?params (err, c, s) =
      (Ok \<lparr>sr_is_ok = True, sr_data = success_response (JArray (map domain_json ?ds)), sr_error_msg = []\<rparr>,
        ([], c, s))"
    using assms(1,2,5) by (intro call_ok) (simp_all del: j_set.simps plain_json.simps)
  moreover have "mapE (\<lambda>x. domain_init_from_json ?J R x new_domain) (map domain_json ?ds) =
      Inr (map (received R) ?ds)"
    by (rule read_domains [OF assms(1)]) (use plain_blocked [OF assms(4)] in blast)
  ultimately show ?thesis
    by (simp add: get_blocked_domains_def get_domains_def bindS_Ok get_data_success liftS_Inr
        returnS_def del: j_set.simps)
qed

lemma manage_server:
  assumes "jsoncpp_ok (le_json E)" and "jsoncpp_roundtrip (le_json E)"
    and "cn_open c" and "cn_authenticated c" and "\<forall>n \<in> set names. plain_string n"
    and "dm_block_domains (le_resolver E) names 0 (sv_db s) = (Ok b, d)"
  shows "manage_domains (le_json E) (server_wire E debug) names True (err, c, s) =
    (Ok True, ([], c, s\<lparr>sv_db := d\<rparr>))"
proof -
  let ?J = "le_json E" and ?params = "j_set ''domains'' (JArray (map JString names)) JNull"
  have "mapE (jc_as_string ?J) (map JString names) = Inr names"
    using assms(1) by (induction names) (simp_all add: jsoncpp_okD)
  then have "request_domains ?J ''Domains must be an array'' ?params = Inr names"
    by (simp add: request_domains_def)
  then have "dispatch E (to_lower ''block'') ?params (JObject []) (c, s) =
      (Ok (JObject []), c, s\<lparr>sv_db := d\<rparr>)"
    unfolding lower_commands using assms(4,6)
    by (simp add: dispatch_def dispatch_authenticated_def on_service_def handle_block_def Let_def
        del: j_set.simps)
  moreover have "plain_json ?params" and "plain_string ''block''"
    using assms(5) by (auto simp: assoc_sorted_def)
  ultimately have "call ?J (server_wire E debug) ''block'' ?params (err, c, s) =
      (Ok \<lparr>sr_is_ok = True, sr_data = success_response (JObject []), sr_error_msg = []\<rparr>,
        ([], c, s\<lparr>sv_db := d\<rparr>))"
    using assms(1-3) by (intro call_ok) (simp_all add: assoc_sorted_def del: j_set.simps)
  then show ?thesis
    by (simp add: manage_domains_def bindS_Ok returnS_def del: j_set.simps)
qed

lemma plain_db_rows:
  assumes "db_wf d" and "plain_db d" and "domains_only d d'" and "db_wf d'"
    and "domain_map d' = (\<lambda>k. if k \<in> ns then Some i else domain_map d k)"
    and "\<forall>n \<in> ns. plain_string n" and "is_int32 i"
  shows "plain_db d'"
proof -
  have "plain_string (dr_name r) \<and> is_int32 (dr_list_id r)" if "r \<in> set (db_domains d')" for r
  proof -
    have eq: "\<lparr>dr_name = dr_name r, dr_list_id = dr_list_id r\<rparr> = r" by simp
    have "domain_map d' (dr_name r) = Some (dr_list_id r)"
      by (simp only: domain_map_row [OF assms(4)] eq that)
    then have cond: "(if dr_name r \<in> ns then Some i else domain_map d (dr_name r)) = Some (dr_list_id r)"
      by (simp only: assms(5))
    show ?thesis
    proof (cases "dr_name r \<in> ns")
      case True
      with cond assms(6,7) show ?thesis by simp
    next
      case False
      with cond have "domain_map d (dr_name r) = Some (dr_list_id r)" by simp
      then have "r \<in> set (db_domains d)" by (simp only: domain_map_row [OF assms(1)] eq)
      with assms(2) show ?thesis by (simp add: plain_db_def)
    qed
  qed
  with assms(2,3) show ?thesis by (auto simp: plain_db_def frame)
qed

lemma blocked_after:
  assumes "db_wf d" and "domains_only d d'" and "l \<in> set (db_lists d)" and "blocks l"
    and "domain_map d' = (\<lambda>k. if k = n then Some (lr_id l) else domain_map d k)"
  shows "{k. blocked d' k} = insert n {k. blocked d k}"
  using assms(3-5) by (auto simp: blocked_def listed_def domains_only_frame [OF assms(2)] split: if_splits)

text \<open>End to end: when an authenticated client blocks a name that both validators accept and
  that is on no whitelist, the call succeeds, and the next \<open>get_blocked_domains\<close> of the client
  contains the name together with every domain that was blocked before.\<close>

theorem client_block_then_listed:
  assumes "jsoncpp_ok (le_json E)" and "jsoncpp_roundtrip (le_json E)"
    and "cn_open c" and "cn_authenticated c"
    and "db_wf (sv_db s)" and "db_faults (sv_db s) = []" and "plain_db (sv_db s)"
    and "l \<in> set (db_lists (sv_db s))" and "lr_name l = ''CUSTOM''" and "blocks l" and "is_int32 (lr_id l)"
    and "plain_string n" and "valid_name (le_resolver E) n" and "\<not> on_whitelist (sv_db s) n"
    and "\<forall>k. blocked (sv_db s) k \<or> k = n \<longrightarrow> valid_name R k"
  shows "\<exists>s' ds. block_domain (le_json E) (server_wire E debug) n (err, c, s) = (Ok True, ([], c, s')) \<and>
    get_blocked_domains (le_json E) R (server_wire E debug) [] ([], c, s') = (Ok (True, ds), ([], c, s')) \<and>
    d_name ` set ds = insert n {k. blocked (sv_db s) k}"
proof -
  let ?d = "sv_db s"
  have fv: "filter_valid (le_resolver E) [n] \<noteq> []" using assms(13) by (simp add: filter_valid_def)
  have same: "sql_insert_or_ignore_list ''CUSTOM'' [] ''Custom list'' 1 ?d = ?d"
    using assms(8,9) by (force simp: sql_insert_or_ignore_list_def has_list_def)
  obtain i d' where d': "dm_block_domains (le_resolver E) [n] 0 ?d = (Ok True, d')" "db_wf d'"
    "domains_only (sql_insert_or_ignore_list ''CUSTOM'' [] ''Custom list'' 1 ?d) d'"
    "list_id_of ''CUSTOM'' d' = Some i"
    "domain_map d' = (\<lambda>k. if k \<in> set [n] \<and> valid_name (le_resolver E) k \<and> \<not> on_whitelist ?d k
       then Some i else domain_map ?d k)"
    by (rule block_custom_run [OF assms(5,6) fv])
  have "l \<in> set (db_lists d')" using d'(3) assms(8) by (simp add: same frame)
  with d'(4) assms(9) have i: "i = lr_id l"
    using list_id_of_row [OF d'(2), of "''CUSTOM''"] list_by_name_unique [OF d'(2)] by metis
  have map': "domain_map d' = (\<lambda>k. if k = n then Some (lr_id l) else domain_map ?d k)"
    using d'(5) assms(13,14) i by (auto simp: fun_eq_iff)
  have only: "domains_only ?d d'" using d'(3) by (simp add: same)
  have blocked': "{k. blocked d' k} = insert n {k. blocked ?d k}"
    by (rule blocked_after [OF assms(5) only assms(8,10) map'])
  have plain': "plain_db d'"
    by (rule plain_db_rows [OF assms(5,7) only d'(2), of "{n}" "lr_id l"])
      (use map' assms(11,12) in auto)
  let ?s' = "s\<lparr>sv_db := d'\<rparr>" and ?ds = "map (received R) (sql_get_blocked_domains d')"
  have "block_domain (le_json E) (server_wire E debug) n (err, c, s) = (Ok True, ([], c, ?s'))"
    unfolding block_domain_def
    by (rule manage_server [OF assms(1-4) _ d'(1)]) (use assms(12) in simp)
  moreover have "get_blocked_domains (le_json E) R (server_wire E debug) [] ([], c, ?s') =
      (Ok (True, ?ds), ([], c, ?s'))"
    using get_blocked_server [OF assms(1,2), of ?s' c R debug "[]" "[]"] plain' assms(3,4,6) only
    by (simp add: frame)
  moreover have "d_name ` set ?ds = insert n {k. blocked ?d k}"
  proof -
    have names: "d_name ` set (sql_get_blocked_domains d') = insert n {k. blocked ?d k}"
      using blocked_names [OF d'(2)] blocked' by simp
    have "d_name (received R x) = d_name x" if "x \<in> set (sql_get_blocked_domains d')" for x
      using names that assms(15) by (auto simp: received_def)
    then have "d_name ` set ?ds = d_name ` set (sql_get_blocked_domains d')"
      by (simp add: image_image)
    with names show ?thesis by simp
  qed
  ultimately show ?thesis by blast
qed

end
