(* ===== verification/Dbl_Remote.thy ===== *)
theory Dbl_Remote
  imports Dbl_Client Dbl_Policy
begin

text \<open>
  The commands of the client library end to end: whatever an authenticated client sends over the
  wire, the server does to its database what the same commands do to the policy, and what the
  client reads back is what the policy says.
\<close>

section \<open>Scripts of a client\<close>

datatype remote = R_block "string list" | R_unblock "string list" | R_import domain_list

fun remote_call :: "jsoncpp \<Rightarrow> 's wire \<Rightarrow> remote \<Rightarrow> ('s, bool) session" where
  "remote_call J wire (R_block ns) = manage_domains J wire ns True"
| "remote_call J wire (R_unblock ns) = manage_domains J wire ns False"
| "remote_call J wire (R_import l) = import_domain_list J wire l"

fun remote_run :: "jsoncpp \<Rightarrow> 's wire \<Rightarrow> remote list \<Rightarrow> ('s, bool list) session" where
  "remote_run J wire [] = returnS []"
| "remote_run J wire (r # rs) =
     bindS (remote_call J wire r) (\<lambda>b. bindS (remote_run J wire rs) (\<lambda>bs. returnS (b # bs)))"

text \<open>The list the server makes of the one the client sends.\<close>

definition sent_list :: "resolver \<Rightarrow> domain_list \<Rightarrow> domain_list" where
  "sent_list R l = new_domain_list\<lparr>dl_name := dl_name l, dl_url := dl_url l,
     dl_description := Some (case dl_description l of None \<Rightarrow> [] | Some s \<Rightarrow> s),
     dl_domains := named_domains R (map d_name (dl_domains l))\<rparr>"

fun command_of :: "resolver \<Rightarrow> remote \<Rightarrow> command" where
  "command_of R (R_block ns) = Block ns"
| "command_of R (R_unblock ns) = Unblock ns"
| "command_of R (R_import l) = Import (sent_list R l) False"

text \<open>What fits on the wire.\<close>

definition plain_list :: "domain_list \<Rightarrow> bool" where
  "plain_list l \<longleftrightarrow> plain_string (dl_name l) \<and> plain_string (dl_url l) \<and>
     (\<forall>s. dl_description l = Some s \<longrightarrow> plain_string s) \<and>
     (\<forall>x \<in> set (dl_domains l). plain_string (d_name x) \<and> is_int32 (d_list_id x) \<and>
        (\<forall>s. d_list_name x = Some s \<longrightarrow> plain_string s))"

fun plain_remote :: "remote \<Rightarrow> bool" where
  "plain_remote (R_block ns) \<longleftrightarrow> (\<forall>n \<in> set ns. plain_string n)"
| "plain_remote (R_unblock ns) \<longleftrightarrow> (\<forall>n \<in> set ns. plain_string n)"
| "plain_remote (R_import l) \<longleftrightarrow> plain_list l"

lemma plain_list_json: "plain_list l \<Longrightarrow> plain_json (domain_list_json l)"
  by (rule plain_domain_list_json) (auto simp: plain_list_def intro!: plain_domain_json)

section \<open>One call\<close>

text \<open>No command of a client ends the server while no session fails.\<close>

lemma block_outcome_ok:
  assumes "settled d"
  shows "\<exists>b. dm_block_domains R ns 0 d = (Ok b, perform R (Block ns) d)"
  using assms
proof (cases rule: settled_cases)
  case 1
  show ?thesis
  proof (cases "filter_valid R ns = []")
    case True
    then show ?thesis by (auto simp: dm_block_domains_def)
  next
    case False
    then obtain d' where "dm_block_domains R ns 0 d = (Ok True, d')"
      using block_custom_run [OF calmD(1,3) [OF 1(1)]] by blast
    then show ?thesis by auto
  qed
next
  case 2
  then show ?thesis by (auto simp: transact_stuck dm_block_domains_def dlm_create_def Let_def)
qed

lemma import_outcome_ok:
  assumes "settled d"
  shows "\<exists>b. dlm_import l c d = (Ok b, perform R (Import l c) d)"
  using assms
proof (cases rule: settled_cases)
  case 1
  then obtain d' where "dlm_import l c d = (Ok True, d')"
    using dlm_import_ok [OF calmD(1,3) [OF 1(1)]] by blast
  then show ?thesis by auto
next
  case 2
  then show ?thesis by (auto simp: transact_stuck dlm_import_def dlm_create_def Let_def)
qed

lemma names_params:
  assumes "jsoncpp_ok J"
  shows "request_domains J msg (j_set ''domains'' (JArray (map JString names)) JNull) = Inr names"
proof -
  have "mapE (jc_as_string J) (map JString names) = Inr names"
    using assms by (induction names) (simp_all add: jsoncpp_okD)
  then show ?thesis by (simp add: request_domains_def)
qed

lemma import_params:
  assumes "jsoncpp_ok J"
  shows "bindE (j_index J (j_set ''domain_list'' (domain_list_json l) JNull) ''domain_list'') (\<lambda>dl.
      if \<not> is_object dl then Inl (service_error ''Invalid data.'')
      else bindE (domain_list_init_from_json J R dl new_domain_list) (\<lambda>lst.
           bindE (bindE (j_index J (j_set ''domain_list'' (domain_list_json l) JNull) ''custom'') (jc_as_bool J))
             (\<lambda>custom. Inr (lst, custom)))) = Inr (sent_list R l, False)"
  using assms
  by (simp add: domain_list_read jsoncpp_okD sent_list_def new_domain_list_def split: option.split)

text \<open>Every command is answered with success, and leaves the database as the manager does.\<close>

lemma remote_call_server:
  assumes "jsoncpp_ok (le_json E)" and "jsoncpp_roundtrip (le_json E)"
    and "cn_open c" and "cn_authenticated c" and "settled (sv_db s)" and "plain_remote r"
  shows "remote_call (le_json E) (server_wire E debug) r (err, c, s) =
    (Ok True, ([], c, s\<lparr>sv_db := perform (le_resolver E) (command_of (le_resolver E) r) (sv_db s)\<rparr>))"
proof -
  let ?J = "le_json E" and ?R = "le_resolver E"
  let ?s' = "s\<lparr>sv_db := perform ?R (command_of ?R r) (sv_db s)\<rparr>"
  have call: "call ?J (server_wire E debug) cmd params (err, c, s) =
      (Ok \<lparr>sr_is_ok = True, sr_data = success_response (JObject []), sr_error_msg = []\<rparr>, ([], c, ?s'))"
    if "plain_string cmd" "plain_json params"
      "dispatch_authenticated E (to_lower cmd) params (JObject []) (c, s) = (Ok (JObject []), c, ?s')"
      "to_lower cmd \<notin> {''get_token'', ''auth''}" for cmd params
    using that assms(1-4)
    by (intro call_ok) (auto simp: dispatch_def assoc_sorted_def)
  show ?thesis
  proof (cases r)
    case (R_block ns)
    let ?params = "j_set ''domains'' (JArray (map JString ns)) JNull"
    obtain b where b: "dm_block_domains ?R ns 0 (sv_db s) = (Ok b, perform ?R (Block ns) (sv_db s))"
      using block_outcome_ok [OF assms(5)] by blast
    have "dispatch_authenticated E (to_lower ''block'') ?params (JObject []) (c, s) =
        (Ok (JObject []), c, ?s')"
      unfolding lower_commands
      by (simp add: dispatch_authenticated_def on_service_def handle_block_def R_block b
        names_params [OF assms(1)] Let_def del: j_set.simps perform.simps)
    moreover have "plain_json ?params" and "plain_string ''block''"
      using assms(6) by (auto simp: R_block assoc_sorted_def)
    ultimately show ?thesis
      using call [of "''block''" ?params] R_block
      by (simp add: manage_domains_def bindS_Ok returnS_def lower_commands del: j_set.simps perform.simps)
  next
    case (R_unblock ns)
    let ?params = "j_set ''domains'' (JArray (map JString ns)) JNull"
    have "dispatch_authenticated E (to_lower ''unblock'') ?params (JObject []) (c, s) =
        (Ok (JObject []), c, ?s')"
      unfolding lower_commands
      by (simp add: dispatch_authenticated_def on_service_def handle_unblock_def R_unblock
        names_params [OF assms(1)] case_prod_beta Let_def del: j_set.simps)
    moreover have "plain_json ?params" and "plain_string ''unblock''"
      using assms(6) by (auto simp: R_unblock assoc_sorted_def)
    ultimately show ?thesis
      using call [of "''unblock''" ?params] R_unblock
      by (simp add: manage_domains_def bindS_Ok returnS_def lower_commands del: j_set.simps perform.simps)
  next
    case (R_import l)
    let ?params = "j_set ''domain_list'' (domain_list_json l) JNull"
    obtain b where b: "dlm_import (sent_list ?R l) False (sv_db s) =
        (Ok b, perform ?R (Import (sent_list ?R l) False) (sv_db s))"
      using import_outcome_ok [OF assms(5)] by blast
    have "dispatch_authenticated E (to_lower ''import_domain_list'') ?params (JObject []) (c, s) =
        (Ok (JObject []), c, ?s')"
      unfolding lower_commands
      by (simp add: dispatch_authenticated_def on_service_def handle_import_domain_list_def R_import b
        import_params [OF assms(1)] Let_def del: j_set.simps j_index.simps perform.simps)
    moreover have "plain_json ?params" and "plain_string ''import_domain_list''"
      using assms(6) plain_list_json [of l] by (auto simp: R_import assoc_sorted_def)
    ultimately show ?thesis
      using call [of "''import_domain_list''" ?params] R_import
      by (simp add: import_domain_list_def bindS_Ok returnS_def lower_commands
        del: j_set.simps perform.simps)
  qed
qed

section \<open>Text that fits on the wire\<close>

text \<open>
  Every text of the tables is printable, and every list id is small enough that \<open>k\<close> lists more fit
  into 32 bits.
\<close>

definition wire_safe :: "nat \<Rightarrow> db \<Rightarrow> bool" where
  "wire_safe k d \<longleftrightarrow> (\<forall>r \<in> set (db_domains d). plain_string (dr_name r)) \<and>
     (\<forall>l \<in> set (db_lists d). plain_string (lr_name l) \<and> plain_string (lr_url l) \<and>
        plain_string (lr_description l)) \<and>
     next_list_id d + int k \<le> 2 ^ 31"

lemma wire_safe_mono: "wire_safe (Suc k) d \<Longrightarrow> wire_safe k d"
  by (auto simp: wire_safe_def)

lemma wire_safe_faults [simp]: "wire_safe k (d\<lparr>db_faults := fs\<rparr>) = wire_safe k d"
  by (simp add: wire_safe_def next_list_id_def)

lemma wire_safe_plain:
  assumes "wire_safe k d" and "db_wf d"
  shows "plain_db d"
proof -
  have "is_int32 (dr_list_id r)" if r: "r \<in> set (db_domains d)" for r
  proof -
    from r assms(2) obtain l where l: "l \<in> set (db_lists d)" "lr_id l = dr_list_id r"
      by (auto simp: db_wf_def list_ids_def image_iff)
    moreover have "0 < lr_id l" using l(1) assms(2) by (simp add: db_wf_def)
    moreover have "lr_id l < 2 ^ 31"
      using next_list_id_fresh [OF l(1)] assms(1) by (simp add: wire_safe_def)
    ultimately show ?thesis by (simp add: is_int32_def)
  qed
  with assms(1) show ?thesis by (simp add: wire_safe_def plain_db_def)
qed

lemma wire_safe_insert_list:
  assumes "wire_safe (Suc k) d" and "plain_string n" and "plain_string u" and "plain_string de"
  shows "wire_safe k (sql_insert_or_ignore_list n u de c d)"
proof -
  have "next_list_id (add_list_row n u de c 0 d) = next_list_id d + 1"
    by (simp add: add_list_row_def next_list_id_def)
  with assms show ?thesis
    by (auto simp: sql_insert_or_ignore_list_def wire_safe_def add_list_row_def)
qed

lemma wire_safe_moved:
  assumes "wire_safe k d" and "db_wf d'" and "domains_only d d'"
    and "\<And>x i. domain_map d' x = Some i \<Longrightarrow> domain_map d x = None \<Longrightarrow> plain_string x"
  shows "wire_safe k d'"
proof -
  have "plain_string (dr_name r)" if r: "r \<in> set (db_domains d')" for r
  proof -
    have "\<lparr>dr_name = dr_name r, dr_list_id = dr_list_id r\<rparr> = r" by simp
    then have m: "domain_map d' (dr_name r) = Some (dr_list_id r)"
      by (simp only: domain_map_row [OF assms(2)] r)
    show ?thesis
    proof (cases "domain_map d (dr_name r)")
      case (Some i)
      with assms(1) domain_map_Some_row [OF Some] show ?thesis by (auto simp: wire_safe_def)
    qed (rule assms(4) [OF m])
  qed
  with assms(1,3) show ?thesis by (auto simp: wire_safe_def next_list_id_def frame)
qed

lemma wire_safe_touch [simp]: "wire_safe k (sql_touch_list i d) = wire_safe k d"
proof -
  have ids: "map lr_id (db_lists (sql_touch_list i d)) = map lr_id (db_lists d)"
    by (simp add: sql_touch_list_def)
  have "(\<forall>l \<in> set (db_lists (sql_touch_list i d)). P (lr_name l) (lr_url l) (lr_description l)) \<longleftrightarrow>
      (\<forall>l \<in> set (db_lists d). P (lr_name l) (lr_url l) (lr_description l))" for P
    by (auto simp: sql_touch_list_def simp del: if_image_distrib)
  from this [of "\<lambda>n u de. plain_string n \<and> plain_string u \<and> plain_string de"] show ?thesis
    by (simp add: wire_safe_def next_list_id_def ids) (simp add: sql_touch_list_def)
qed

lemma wire_safe_command:
  assumes "settled d" and "wire_safe (Suc k) d" and "plain_remote r"
  shows "wire_safe k (perform R (command_of R r) d)"
  using assms(1)
proof (cases rule: settled_cases)
  case 1
  note d = calmD(1,3) [OF 1(1)]
  show ?thesis
  proof (cases r)
    case (R_block ns)
    show ?thesis
    proof (cases "filter_valid R ns = []")
      case True
      then show ?thesis using assms(2) by (simp add: R_block dm_block_domains_def wire_safe_mono)
    next
      case False
      let ?d1 = "sql_insert_or_ignore_list ''CUSTOM'' [] ''Custom list'' 1 d"
      obtain i d' where run: "dm_block_domains R ns 0 d = (Ok True, d')" "db_wf d'" "domains_only ?d1 d'"
        and map: "domain_map d' = (\<lambda>k. if k \<in> set ns \<and> valid_name R k \<and> \<not> on_whitelist d k then Some i
           else domain_map d k)"
        using d False by (rule block_custom_run)
      have "wire_safe k ?d1" using assms(2) by (rule wire_safe_insert_list) simp_all
      then have "wire_safe k d'" using run(2,3)
        by (rule wire_safe_moved) (use assms(3) in \<open>auto simp: map R_block split: if_splits\<close>)
      then show ?thesis using run(1) by (simp add: R_block)
    qed
  next
    case (R_unblock ns)
    show ?thesis
    proof (cases "filter_valid R ns = [] \<or> sql_whitelist_id d = None")
      case True
      with assms(2) d(2) show ?thesis
        by (auto simp: R_unblock dm_unblock_domains_def transact_ok unblock_rows_no_whitelist
            wire_safe_mono Let_def)
    next
      case False
      then obtain w where w: "sql_whitelist_id d = Some w" and valid: "filter_valid R ns \<noteq> []" by auto
      obtain d' where run: "dm_unblock_domains R ns d = (True, d')" "db_wf d'" "domains_only d d'"
        and map: "domain_map d' = (\<lambda>k. if k \<in> set ns \<and> valid_name R k then Some w else domain_map d k)"
        by (rule unblock_run [OF d valid w])
      have "wire_safe k d'" using wire_safe_mono [OF assms(2)] run(2,3)
        by (rule wire_safe_moved) (use assms(3) in \<open>auto simp: map R_unblock split: if_splits\<close>)
      then show ?thesis using run(1) by (simp add: R_unblock)
    qed
  next
    case (R_import l)
    let ?l = "sent_list R l"
    let ?d1 = "sql_insert_or_ignore_list (custom_name (dl_name ?l)) (dl_url ?l)
      (case dl_description ?l of None \<Rightarrow> [] | Some s \<Rightarrow> s) (if False then 1 else 0) d"
    obtain i d2 where run: "dlm_import ?l False d = (Ok True, sql_touch_list i d2)" "db_wf d2"
      "domains_only ?d1 d2"
      and map: "domain_map d2 = (\<lambda>k. if k \<in> d_name ` set (dl_domains ?l) then Some i else domain_map d k)"
      by (rule dlm_import_run [OF d])
    have plain: "plain_list l" using assms(3) R_import by simp
    then have "wire_safe k ?d1"
      by (intro wire_safe_insert_list [OF assms(2)])
        (auto simp: sent_list_def plain_list_def custom_name_def split: option.splits)
    then have "wire_safe k d2" using run(2,3)
      by (rule wire_safe_moved)
        (use plain in \<open>auto simp: map plain_list_def sent_list_def named_domains_def split: if_splits\<close>)
    then show ?thesis using run(1) by (simp add: R_import)
  qed
next
  case 2
  then show ?thesis using frozen_perform [OF 2(1)] assms(2) by (simp add: wire_safe_mono)
qed

text \<open>What else the commands of a client leave alone: the settings, and the texts of the lists.\<close>

definition list_texts :: "db \<Rightarrow> (string \<times> string \<times> string) list" where
  "list_texts d = map (\<lambda>l. (lr_name l, lr_url l, lr_description l)) (db_lists d)"

lemma list_texts_ops [simp]:
  "list_texts (sql_touch_list i d) = list_texts d"
  "list_texts (sql_insert_or_ignore_list n u de c d) =
     list_texts d @ (if has_list n d then [] else [(n, u, de)])"
  by (simp_all add: list_texts_def sql_touch_list_def sql_insert_or_ignore_list_def add_list_row_def
      comp_def if_distrib [of lr_name] if_distrib [of lr_url] if_distrib [of lr_description])

lemma settings_insert_list [simp]: "db_settings (sql_insert_or_ignore_list n u de c d) = db_settings d"
  by (simp add: sql_insert_or_ignore_list_def add_list_row_def)

lemma list_texts_only: "domains_only d d' \<Longrightarrow> list_texts d' = list_texts d"
  by (simp add: list_texts_def frame)

definition new_texts :: "resolver \<Rightarrow> remote \<Rightarrow> db \<Rightarrow> (string \<times> string \<times> string) list" where
  "new_texts R r d =
     (case command_of R r of
        Block ns \<Rightarrow> if filter_valid R ns = [] \<or> has_list ''CUSTOM'' d then []
                    else [(''CUSTOM'', [], ''Custom list'')]
      | Import l c \<Rightarrow> if has_list (custom_name (dl_name l)) d then []
                    else [(custom_name (dl_name l), dl_url l, case dl_description l of None \<Rightarrow> [] | Some s \<Rightarrow> s)]
      | _ \<Rightarrow> [])"

lemma remote_frame:
  assumes "calm d"
  shows "db_settings (perform R (command_of R r) d) = db_settings d \<and>
    list_texts (perform R (command_of R r) d) = list_texts d @ new_texts R r d"
proof -
  note d = calmD(1,3) [OF assms]
  show ?thesis
  proof (cases r)
    case (R_block ns)
    show ?thesis
    proof (cases "filter_valid R ns = []")
      case True
      then show ?thesis by (simp add: R_block dm_block_domains_def new_texts_def)
    next
      case False
      obtain d' where run: "dm_block_domains R ns 0 d = (Ok True, d')"
        "domains_only (sql_insert_or_ignore_list ''CUSTOM'' [] ''Custom list'' 1 d) d'"
        by (rule block_custom_run [OF d False])
      with False show ?thesis
        by (simp add: R_block frame list_texts_only [OF run(2)] new_texts_def)
    qed
  next
    case (R_unblock ns)
    show ?thesis
    proof (cases "filter_valid R ns = [] \<or> sql_whitelist_id d = None")
      case True
      with d(2) show ?thesis
        by (auto simp: R_unblock dm_unblock_domains_def transact_ok unblock_rows_no_whitelist
            new_texts_def list_texts_def Let_def)
    next
      case False
      then obtain w where w: "sql_whitelist_id d = Some w" and valid: "filter_valid R ns \<noteq> []" by auto
      obtain d' where run: "dm_unblock_domains R ns d = (True, d')" "domains_only d d'"
        by (rule unblock_run [OF d valid w])
      then show ?thesis by (simp add: R_unblock frame list_texts_only [OF run(2)] new_texts_def)
    qed
  next
    case (R_import l)
    let ?l = "sent_list R l"
    obtain i d2 where run: "dlm_import ?l False d = (Ok True, sql_touch_list i d2)"
      "domains_only (sql_insert_or_ignore_list (custom_name (dl_name ?l)) (dl_url ?l)
        (case dl_description ?l of None \<Rightarrow> [] | Some s \<Rightarrow> s) (if False then 1 else 0) d) d2"
      by (rule dlm_import_run [OF d])
    then show ?thesis
      by (simp add: R_import frame list_texts_only [OF run(2)] new_texts_def)
        (simp add: sql_touch_list_def frame)
  qed
qed

section \<open>Scripts\<close>

lemma remote_run_server:
  assumes "jsoncpp_ok (le_json E)" and "jsoncpp_roundtrip (le_json E)"
    and "cn_open c" and "cn_authenticated c" and "settled (sv_db s)"
    and "\<forall>r \<in> set rs. plain_remote r"
  shows "remote_run (le_json E) (server_wire E debug) rs (err, c, s) =
    (Ok (replicate (length rs) True), (if rs = [] then err else [], c,
       s\<lparr>sv_db := fold (perform (le_resolver E)) (map (command_of (le_resolver E)) rs) (sv_db s)\<rparr>))"
  using assms(5,6)
proof (induction rs arbitrary: s err)
  case Nil
  then show ?case by (simp add: returnS_def)
next
  case (Cons r rs)
  let ?s' = "s\<lparr>sv_db := perform (le_resolver E) (command_of (le_resolver E) r) (sv_db s)\<rparr>"
  have "settled (sv_db ?s')" using command_simulates [OF Cons.prems(1)] by simp
  with Cons.IH [of ?s' "[]"] Cons.prems remote_call_server [OF assms(1-4), of s r debug err]
  show ?case by (simp add: bindS_Ok returnS_def)
qed

lemma wire_safe_run:
  assumes "settled d" and "wire_safe (k + length rs) d" and "\<forall>r \<in> set rs. plain_remote r"
  shows "wire_safe k (fold (perform R) (map (command_of R) rs) d)"
  using assms
proof (induction rs arbitrary: d)
  case (Cons r rs)
  let ?d = "perform R (command_of R r) d"
  have "settled ?d" using command_simulates [OF Cons.prems(1)] by simp
  moreover have "wire_safe (k + length rs) ?d"
    by (rule wire_safe_command [OF Cons.prems(1)]) (use Cons.prems(2,3) in simp_all)
  ultimately show ?case using Cons.IH Cons.prems(3) by simp
qed simp

section \<open>What the client reads\<close>

lemma plain_whitelisted:
  assumes "plain_db d" and "x \<in> set (sql_get_all_whitelisted_domains d)"
  shows "plain_json (domain_json x) \<and> is_int32 (d_list_id x)"
proof -
  from assms(2) obtain r l where "r \<in> set (db_domains d)" "l \<in> set (db_lists d)"
    "x = \<lparr>d_name = dr_name r, d_list_id = dr_list_id r, d_list_name = Some (lr_name l)\<rparr>"
    by (auto simp: sql_get_all_whitelisted_domains_def join_lists_mem)
  with assms(1) show ?thesis by (auto simp: plain_db_def intro!: plain_domain_json)
qed

definition listing :: "bool \<Rightarrow> db \<Rightarrow> domain list" where
  "listing of_blocked d =
     (if of_blocked then sql_get_blocked_domains d else sql_get_all_whitelisted_domains d)"

lemma listing_names:
  assumes "settled d"
  shows "d_name ` set (listing b d) =
    {k. verdict (policy_of d) k = (if b then Blocked else Whitelisted)}"
  using blocked_names [OF settledD(1) [OF assms]] whitelisted_names [OF settledD(1) [OF assms]]
    verdict_listed(1,2) [OF settledD [OF assms]]
  by (simp add: listing_def)

lemma get_domains_server:
  assumes "jsoncpp_ok (le_json E)" and "jsoncpp_roundtrip (le_json E)"
    and "cn_open c" and "cn_authenticated c" and "settled (sv_db s)" and "plain_db (sv_db s)"
  shows "get_domains (le_json E) R (server_wire E debug) acc b (err, c, s) =
    (Ok (True, acc @ map (received R) (listing b (sv_db s))), ([], c, s))"
proof -
  let ?J = "le_json E" and ?ds = "listing b (sv_db s)"
  let ?params = "j_set ''type'' (JString (if b then ''blocked'' else ''whitelisted'')) JNull"
  have q: "domains_query_of ?J ?params = Inr (if b then Q_blocked else Q_whitelisted)"
    using assms(1) by (simp add: domains_query_of_def jsoncpp_okD)
  have "query f (sv_db s) = (Inr (f (sv_db s)), sv_db s)" for f :: "db \<Rightarrow> domain list"
    using assms(5) by (auto simp: settled_def query_ok query_stuck)
  then have "dispatch E (to_lower ''get_domains'') ?params (JObject []) (c, s) =
      (Ok (JArray (map domain_json ?ds)), c, s)"
    unfolding lower_commands using assms(4) q
    by (simp add: dispatch_def dispatch_authenticated_def on_service_def handle_get_domains_def
        dm_get_blocked_def dm_get_whitelisted_def listing_def Let_def del: j_set.simps)
  moreover have "plain_json ?params" and "plain_string ''get_domains''"
    by (simp_all add: assoc_sorted_def)
  moreover have plain: "plain_json (domain_json x) \<and> is_int32 (d_list_id x)" if "x \<in> set ?ds" for x
    using that plain_blocked [OF assms(6)] plain_whitelisted [OF assms(6)]
    by (cases b) (simp_all add: listing_def)
  then have "plain_json (JArray (map domain_json ?ds))"
    by (intro plain_json_array) blast
  ultimately have "call ?J (server_wire E debug) ''get_domains'' ?params (err, c, s) =
      (Ok \<lparr>sr_is_ok = True, sr_data = success_response (JArray (map domain_json ?ds)), sr_error_msg = []\<rparr>,
        ([], c, s))"
    using assms(1-3) by (intro call_ok) (simp_all del: j_set.simps plain_json.simps)
  moreover have "mapE (\<lambda>x. domain_init_from_json ?J R x new_domain) (map domain_json ?ds) =
      Inr (map (received R) ?ds)"
    by (rule read_domains [OF assms(1)]) (use plain in blast)
  ultimately show ?thesis
    by (simp add: get_domains_def bindS_Ok get_data_success liftS_Inr returnS_def del: j_set.simps)
qed

lemma settled_query:
  assumes "settled d"
  shows "query f d = (Inr (f d), d)"
  using assms by (auto simp: settled_def query_ok query_stuck)

text \<open>\<open>get_domain\<close>: the row of the name if its list is active, else a domain without a name.\<close>

definition row_or_new :: "string \<Rightarrow> db \<Rightarrow> domain" where
  "row_or_new n d = (case find (\<lambda>y. d_name y = n) (sql_get_domains d) of None \<Rightarrow> new_domain | Some y \<Rightarrow> y)"

lemma plain_row_or_new:
  assumes "plain_db d"
  shows "plain_json (domain_json (row_or_new n d)) \<and> is_int32 (d_list_id (row_or_new n d))"
proof (cases "find (\<lambda>y. d_name y = n) (sql_get_domains d)")
  case None
  then show ?thesis
    by (auto simp: row_or_new_def new_domain_def is_int32_def intro!: plain_domain_json)
next
  case (Some x)
  then obtain r l where "r \<in> set (db_domains d)" "l \<in> set (db_lists d)"
    "x = \<lparr>d_name = dr_name r, d_list_id = dr_list_id r, d_list_name = Some (lr_name l)\<rparr>"
    by (auto simp: sql_get_domains_def join_lists_mem dest!: find_Some_mem)
  with assms Some show ?thesis
    by (auto simp: row_or_new_def plain_db_def intro!: plain_domain_json)
qed

lemma get_domain_server:
  assumes "jsoncpp_ok (le_json E)" and "jsoncpp_roundtrip (le_json E)"
    and "cn_open c" and "cn_authenticated c" and "settled (sv_db s)" and "plain_db (sv_db s)"
    and "plain_string (d_name x)" and "d_name x \<noteq> []"
  shows "get_domain (le_json E) R (server_wire E debug) x (err, c, s) =
    (let y = row_or_new (d_name x) (sv_db s)
     in (Ok (True, \<lparr>d_name = (if valid_name R (d_name y) then d_name y else d_name x),
       d_list_id = d_list_id y,
       d_list_name = (case d_list_name y of None \<Rightarrow> d_list_name x | Some l \<Rightarrow> Some l)\<rparr>), ([], c, s)))"
proof -
  let ?J = "le_json E" and ?params = "j_set ''name'' (JString (d_name x)) JNull"
  let ?y = "row_or_new (d_name x) (sv_db s)"
  have run: "dm_get_by_name (d_name x) (sv_db s) = (Some ?y, sv_db s)"
    by (simp add: dm_get_by_name_def settled_query [OF assms(5)] row_or_new_def split: option.split)
  have low: "to_lower ''get_domain'' = ''get_domain''" by code_simp
  have idx: "bindE (j_index ?J ?params ''name'') (jc_as_string ?J) = Inr (d_name x)"
    using assms(1) by (simp add: jsoncpp_okD)
  have "dispatch E (to_lower ''get_domain'') ?params (JObject []) (c, s) = (Ok (domain_json ?y), c, s)"
    unfolding low using assms(4,8) run idx
    by (simp add: dispatch_def dispatch_authenticated_def on_service_def handle_get_domain_def Let_def
      del: j_set.simps)
  moreover have "plain_json ?params" and "plain_string ''get_domain''"
    using assms(7) by (simp_all add: assoc_sorted_def)
  moreover have y: "plain_json (domain_json ?y)" "is_int32 (d_list_id ?y)"
    using plain_row_or_new [OF assms(6)] by simp_all
  ultimately have "call ?J (server_wire E debug) ''get_domain'' ?params (err, c, s) =
      (Ok \<lparr>sr_is_ok = True, sr_data = success_response (domain_json ?y), sr_error_msg = []\<rparr>, ([], c, s))"
    using assms(1-3) by (intro call_ok) (simp_all del: j_set.simps)
  then show ?thesis
    by (simp add: get_domain_def bindS_Ok get_data_success liftS_Inr returnS_def
      domain_json_read [OF assms(1) y(2)] Let_def del: j_set.simps)
qed

text \<open>The lists, without their domains.\<close>

lemma plain_row:
  assumes "wire_safe k d" and "l \<in> set (db_lists d)"
  shows "plain_json (domain_list_json (list_from_row l))"
  by (rule plain_list_json) (use assms in \<open>simp add: plain_list_def list_from_row_def wire_safe_def\<close>)

lemma read_list:
  "jsoncpp_ok J \<Longrightarrow> domain_list_init_from_json J R (domain_list_json l) new_domain_list = Inr (sent_list R l)"
  by (simp add: domain_list_read sent_list_def new_domain_list_def split: option.split)

lemma get_domain_lists_server:
  assumes "jsoncpp_ok (le_json E)" and "jsoncpp_roundtrip (le_json E)"
    and "cn_open c" and "cn_authenticated c" and "settled (sv_db s)" and "wire_safe k (sv_db s)"
  shows "get_domain_lists (le_json E) R (server_wire E debug) acc (err, c, s) =
    (Ok (True, acc @ map (\<lambda>l. sent_list R (list_from_row l)) (db_lists (sv_db s))), ([], c, s))"
proof -
  let ?J = "le_json E" and ?ls = "map list_from_row (db_lists (sv_db s))"
  have "dispatch E (to_lower ''get_domain_lists'') JNull (JObject []) (c, s) =
      (Ok (JArray (map domain_list_json ?ls)), c, s)"
    unfolding lower_commands using assms(4)
    by (simp add: dispatch_def dispatch_authenticated_def on_service_def handle_get_domain_lists_def
        dlm_get_all_def settled_query [OF assms(5)] sql_get_domain_lists_def)
  moreover have "plain_json (JArray (map domain_list_json ?ls))"
    by (rule plain_json_array) (use plain_row [OF assms(6)] in auto)
  moreover have "plain_string ''get_domain_lists''" by simp
  ultimately have "call ?J (server_wire E debug) ''get_domain_lists'' JNull (err, c, s) =
      (Ok \<lparr>sr_is_ok = True, sr_data = success_response (JArray (map domain_list_json ?ls)), sr_error_msg = []\<rparr>,
        ([], c, s))"
    using assms(1-3) by (intro call_ok) (simp_all del: plain_json.simps(6))
  moreover have "mapE (\<lambda>x. domain_list_init_from_json ?J R x new_domain_list)
      (map (\<lambda>l. domain_list_json (list_from_row l)) rs) = Inr (map (\<lambda>l. sent_list R (list_from_row l)) rs)"
    for rs
    by (induction rs) (simp_all add: read_list [OF assms(1)])
  ultimately show ?thesis
    by (simp add: get_domain_lists_def bindS_Ok get_data_success liftS_Inr returnS_def comp_def)
qed

text \<open>One list with the domains of it that an active list has.\<close>

definition members :: "int \<Rightarrow> db \<Rightarrow> domain list" where
  "members i d = order_by_name (filter (\<lambda>x. i = 0 \<or> d_list_id x = i) (sql_get_domains d))"

lemma members_names:
  assumes "db_wf d" and "list_id_of n d = Some i" and "list_kinds d n = Some (True, w)"
  shows "distinct (map d_name (members i d)) \<and> d_name ` set (members i d) = {k. place d k = Some n}"
proof
  have "distinct (map d_name (sql_get_domains d))"
    unfolding sql_get_domains_def using assms(1) by (rule distinct_join)
  then show "distinct (map d_name (members i d))"
    by (simp add: members_def order_by_name_props distinct_map_filter)
  from assms(2) obtain l where l: "l \<in> set (db_lists d)" "lr_name l = n" "lr_id l = i"
    using list_id_of_row [OF assms(1)] by blast
  have i: "i \<noteq> 0" using l assms(1) by (auto simp: db_wf_def)
  have active: "lr_active l = 1"
  proof -
    from assms(3) obtain m where m: "m \<in> set (db_lists d)" "lr_name m = n" "lr_active m = 1"
      unfolding list_kinds_row [OF assms(1)] by auto
    with l have "m = l" using list_by_name_unique [OF assms(1)] by blast
    with m show ?thesis by simp
  qed
  have "k \<in> d_name ` set (members i d) \<longleftrightarrow> \<lparr>dr_name = k, dr_list_id = i\<rparr> \<in> set (db_domains d)" for k
  proof
    assume "k \<in> d_name ` set (members i d)"
    then obtain r where "r \<in> set (db_domains d)" "dr_name r = k" "dr_list_id r = i"
      using i by (auto simp: members_def order_by_name_props sql_get_domains_def join_lists_mem)
    moreover have "r = \<lparr>dr_name = dr_name r, dr_list_id = dr_list_id r\<rparr>" by simp
    ultimately show "\<lparr>dr_name = k, dr_list_id = i\<rparr> \<in> set (db_domains d)" by metis
  next
    assume "\<lparr>dr_name = k, dr_list_id = i\<rparr> \<in> set (db_domains d)"
    then have "\<lparr>d_name = k, d_list_id = i, d_list_name = Some n\<rparr> \<in> set (members i d)"
      using l active by (force simp: members_def order_by_name_props sql_get_domains_def join_lists_mem)
    then show "k \<in> d_name ` set (members i d)" by force
  qed
  then show "d_name ` set (members i d) = {k. place d k = Some n}"
    using assms(2) by (auto simp: place_iff [OF assms(1)] domain_map_row [OF assms(1)])
qed

definition named_list :: "string \<Rightarrow> db \<Rightarrow> domain_list" where
  "named_list n d = (case sql_get_list_by_name n d of None \<Rightarrow> new_domain_list
     | Some l \<Rightarrow> l\<lparr>dl_domains := members (dl_id l) d\<rparr>)"

lemma dlm_get_by_name_settled:
  assumes "settled d"
  shows "dlm_get_by_name n True d = (Some (named_list n d), d)"
proof (cases "sql_get_list_by_name n d")
  case None
  then show ?thesis
    by (simp add: dlm_get_by_name_def named_list_def settled_query [OF assms] new_domain_list_def Let_def)
next
  case (Some l)
  then obtain r where r: "r \<in> set (db_lists d)" "l = list_from_row r"
    by (auto simp: sql_get_list_by_name_def dest!: find_Some_mem)
  then have "dl_id l \<noteq> 0" "dl_domains l = []"
    using settledD(1) [OF assms] by (auto simp: db_wf_def list_from_row_def)
  with Some show ?thesis
    by (simp add: dlm_get_by_name_def dm_get_def named_list_def members_def settled_query [OF assms] Let_def)
qed

lemma list_json_onto_object: "domain_list_to_json l (JObject []) = domain_list_json l"
  by (simp add: domain_list_json_def domain_list_to_json_def Let_def)

lemma plain_members:
  assumes "plain_db d" and "x \<in> set (members i d)"
  shows "plain_string (d_name x) \<and> is_int32 (d_list_id x) \<and> (\<forall>s. d_list_name x = Some s \<longrightarrow> plain_string s)"
proof -
  from assms(2) obtain r l where "r \<in> set (db_domains d)" "l \<in> set (db_lists d)"
    "x = \<lparr>d_name = dr_name r, d_list_id = dr_list_id r, d_list_name = Some (lr_name l)\<rparr>"
    by (auto simp: members_def order_by_name_props sql_get_domains_def join_lists_mem)
  with assms(1) show ?thesis by (auto simp: plain_db_def)
qed

lemma plain_named_list:
  assumes "wire_safe k d" and "db_wf d"
  shows "plain_list (named_list n d)"
proof (cases "sql_get_list_by_name n d")
  case None
  then show ?thesis by (simp add: named_list_def plain_list_def new_domain_list_def)
next
  case (Some l)
  then obtain r where "r \<in> set (db_lists d)" "l = list_from_row r"
    by (auto simp: sql_get_list_by_name_def dest!: find_Some_mem)
  with Some assms(1) plain_members [OF wire_safe_plain [OF assms]] show ?thesis
    by (auto simp: named_list_def plain_list_def list_from_row_def wire_safe_def)
qed

lemma get_domain_list_server:
  assumes "jsoncpp_ok (le_json E)" and "jsoncpp_roundtrip (le_json E)"
    and "cn_open c" and "cn_authenticated c" and "settled (sv_db s)" and "wire_safe k (sv_db s)"
    and "plain_string (dl_name l)" and "dl_name l \<noteq> []"
  shows "get_domain_list (le_json E) R (server_wire E debug) l (err, c, s) =
    (let x = named_list (dl_name l) (sv_db s)
     in (Ok (True, l\<lparr>dl_name := dl_name x, dl_url := dl_url x,
          dl_description := (case dl_description x of None \<Rightarrow> dl_description l | Some s \<Rightarrow> Some s),
          dl_domains := dl_domains l @ named_domains R (map d_name (dl_domains x))\<rparr>), ([], c, s)))"
proof -
  let ?J = "le_json E" and ?x = "named_list (dl_name l) (sv_db s)"
  let ?params = "j_set ''with_domains'' (JBool True) (j_set ''name'' (JString (dl_name l)) JNull)"
  have low: "to_lower ''get_domain_list'' = ''get_domain_list''" by code_simp
  have idx: "bindE (j_index ?J ?params ''name'') (jc_as_string ?J) = Inr (dl_name l)"
    "bindE (j_index ?J ?params ''with_domains'') (jc_as_bool ?J) = Inr True"
    using assms(1) by (simp_all add: jsoncpp_okD j_index_set del: j_set.simps)
  have "dispatch E (to_lower ''get_domain_list'') ?params (JObject []) (c, s) =
      (Ok (domain_list_json ?x), c, s)"
    unfolding low using assms(4,8) idx
    by (simp add: dispatch_def dispatch_authenticated_def on_service_def handle_get_domain_list_def
      dlm_get_by_name_settled [OF assms(5)] list_json_onto_object Let_def del: j_set.simps)
  moreover have "plain_json ?params" and "plain_string ''get_domain_list''"
    using assms(7) by (simp_all add: assoc_sorted_def)
  moreover have "plain_json (domain_list_json ?x)"
    by (rule plain_list_json) (rule plain_named_list [OF assms(6) settledD(1) [OF assms(5)]])
  ultimately have "call ?J (server_wire E debug) ''get_domain_list'' ?params (err, c, s) =
      (Ok \<lparr>sr_is_ok = True, sr_data = success_response (domain_list_json ?x), sr_error_msg = []\<rparr>, ([], c, s))"
    using assms(1-3) by (intro call_ok) (simp_all del: j_set.simps)
  then show ?thesis
    by (simp add: get_domain_list_def bindS_Ok get_data_success liftS_Inr returnS_def
      domain_list_read [OF assms(1)] Let_def del: j_set.simps)
qed

text \<open>The name a client shows for a name it reads: its own validator drops some.\<close>

definition shown :: "resolver \<Rightarrow> string \<Rightarrow> string" where
  "shown R k = (if valid_name R k then k else [])"

lemma received_names: "d_name ` set (map (received R) ds) = shown R ` d_name ` set ds"
  by (simp add: image_image received_def shown_def del: if_image_distrib)


end
