(* ===== verification/Dbl_Enforcement.thy ===== *)
theory Dbl_Enforcement
  imports Dbl_Remote Dbl_Main
begin

text \<open>
  From the client to the resolver: what a client asks the server for is what the next pass of the
  program writes into the configuration of the DNS proxy.  The theory puts together the client, the
  server, the managers, the start of a pass (\<open>src/dbl/main.cxx\<close>) and the generators of the configuration.
\<close>

section \<open>Opening the database again\<close>

lemma reopen_settled:
  assumes "settled d"
  shows "calm (reopen d)" "policy_of (reopen d) = policy_of d"
proof -
  have "reopen d = d\<lparr>db_faults := []\<rparr>"
    using assms by (auto simp: settled_def reopen_def)
  moreover have "list_flags (d\<lparr>db_faults := []\<rparr>) = list_flags d"
    by (rule list_flags_lists) simp
  ultimately show "calm (reopen d)" "policy_of (reopen d) = policy_of d"
    using assms by (simp_all add: calm_def settled_def)
qed

lemma no_lists_no_verdict:
  assumes "db_wf d" and "db_lists d = []"
  shows "db_domains d = []" "verdict (policy_of d) k = Unlisted"
proof -
  show none: "db_domains d = []"
    using assms by (cases "db_domains d") (auto simp: db_wf_def Dbl_Store.list_ids_def)
  show "verdict (policy_of d) k = Unlisted"
    using none by (simp add: verdict_def policy_of_def place_def domain_map_def)
qed

text \<open>A pass that opens the database frees it of an open transaction, and changes no verdict; only a
  database without any list gets the initial ones.\<close>

lemma db_init_settled:
  assumes "settled d"
  obtains d' where "db_init d = (Inr (), d')" "calm d'" "verdict (policy_of d') = verdict (policy_of d)"
proof (cases "db_lists d = []")
  case False
  then have "db_init d = (Inr (), reopen d)"
    using db_init_has_lists [of "reopen d"] calmD(3) [OF reopen_settled(1) [OF assms]]
    by (simp add: reopen_def db_init_def)
  then show thesis
    using that reopen_settled [OF assms] by simp
next
  case True
  let ?r = "reopen d"
  have r: "calm ?r" "db_lists ?r = []"
    using reopen_settled(1) [OF assms] True by (simp_all add: reopen_def)
  obtain d' where d': "db_init d = (Inr (), d')" "db_faults d' = []" "db_domains d' = db_domains ?r"
    "list_flags d'"
    using db_init_no_lists [OF calmD(3) [OF r(1)] r(2)] calmD(3) [OF r(1)]
    by (simp add: db_init_def list_flags_def)
  have wf: "db_wf d'" using wf_db_init [OF settledD(1) [OF assms]] d'(1) by simp
  have "verdict (policy_of d') k = verdict (policy_of d) k" for k
    using no_lists_no_verdict [OF settledD(1) [OF assms] True] d'(3)
    by (simp add: verdict_def policy_of_def place_def domain_map_def reopen_def)
  with d' wf show thesis by (intro that [of d']) (auto simp: calm_def)
qed

lemma verdict_names:
  assumes "calm d"
  shows "set (active_names d) = {k. verdict (policy_of d) k \<noteq> Unlisted}"
proof -
  have "listed (\<lambda>l. lr_active l = 1) d k \<longleftrightarrow> blocked d k \<or> whitelisted d k" for k
    using calmD(2) [OF assms]
    by (auto simp: blocked_def whitelisted_def listed_def blocks_def whitelists_def list_flags_def)
  moreover have "verdict (policy_of d) k \<noteq> Unlisted \<longleftrightarrow> blocked d k \<or> whitelisted d k" for k
    using verdict_listed(1,2) [OF calmD(1,2) [OF assms], of k]
    by (cases "verdict (policy_of d) k") auto
  ultimately show ?thesis by (simp add: active_names_spec [OF calmD(1) [OF assms]])
qed

section \<open>The pass that follows\<close>

text \<open>The include file of the proxy of the system.\<close>

definition config_path :: "config \<Rightarrow> string" where
  "config_path c = path_append (dns_proxy_include_dir c) ''dnsblocker.conf''"

text \<open>What the start of a pass needs of its environment to succeed with the proxy of the system.\<close>

definition starts_with_system_proxy :: "'w main_env \<Rightarrow> filesystem \<Rightarrow> dnsproxy \<Rightarrow> bool" where
  "starts_with_system_proxy M F p \<longleftrightarrow>
     fs_exists F (service_db (me_config M)) \<and>
     create_dnsproxy (me_config M) = Inr p \<and>
     \<not> is_already_running (me_config M) (me_os M) (me_garbage M) F \<and>
     fst (configure (me_config M) (me_net M) new_configurator p) = Inr () \<and>
     dns_proxy_config (me_config M) = [] \<and> dns_proxy_generate_config (me_config M) \<and>
     \<not> no_system_dns_proxy (me_config M) \<and>
     fs_dirs F (dns_proxy_include_dir (me_config M)) \<and>
     fs_writable F (config_path (me_config M))"

lemma new_proxy_empty: "create_dnsproxy c = Inr p \<Longrightarrow> px_domains p = []"
  by (auto simp: create_dnsproxy_def new_dnsproxy_def Let_def split: if_splits)

lemma configured_proxy:
  assumes "fst (configure c N f p) = Inr ()"
  obtains f' calls where "configure c N f p = (Inr (), f', configure_dns_proxy c p, calls)"
  using assms
  by (auto simp: configure_def Let_def prod_eq_iff configure_interface_fails
      split: sum.splits option.splits prod.splits if_splits)

lemma configured_proxy_sel [simp]:
  "px_domains (configure_dns_proxy c p) = px_domains p" "px_kind (configure_dns_proxy c p) = px_kind p"
  by (simp_all add: configure_dns_proxy_def set_value_def)

text \<open>The opening of the database and the start of the service, in a pass without tools to run.\<close>

definition start_pass :: "'w main_env \<Rightarrow> 'w main_state \<Rightarrow> start_end \<times> 'w main_state" where
  "start_pass M st =
     (case open_database M st of
        (Inl e, st) \<Rightarrow> (Start_fails e False, st)
      | (Inr u, st) \<Rightarrow> start_service M st)"

lemma main_turn_start:
  assumes "get_bool (me_vm M) ''query'' = Inr False" and "new_mgmt (me_vm M) = Inr m" and "\<not> has_work m"
  shows "main_turn M st =
    (case start_pass M st of
       (Already_running, st) \<Rightarrow> (Returned EXIT_FAILURE, st)
     | (Start_fails e service_set, st) \<Rightarrow> (Returned EXIT_FAILURE, abort_start M e service_set st)
     | (Started p pidof_bin, st) \<Rightarrow>
         (if is_test (me_config M) then (Turn_over, st) else run_service M p pidof_bin st))"
  by (cases "open_database M st")
    (simp add: main_turn_def start_pass_def run_tools_none [OF assms] split: sum.split)

text \<open>The configuration that a pass writes for a policy.\<close>

definition proxy_file :: "config \<Rightarrow> proxy_kind \<Rightarrow> string list \<Rightarrow> string" where
  "proxy_file c k ns =
     (case k of
        Unbound \<Rightarrow> ''server:'' @ LF @ concat (map (unbound_entry c) ns)
      | DNSMasq \<Rightarrow> LF @ concat (map (dnsmasq_entry c) ns))"

lemma start_pass_run:
  assumes "settled (mn_db st)" and "starts_with_system_proxy M (ps_files (mn_process st)) p"
  obtains p' st' where "start_pass M st = (Started p' (find_executable (ps_files (mn_process st)) ''pidof''), st')"
    and "px_config_file_path p' = config_path (me_config M)"
    and "calm (mn_db st')" and "verdict (policy_of (mn_db st')) = verdict (policy_of (mn_db st))"
    and "files_only {config_path (me_config M)} (ps_files (mn_process st)) (ps_files (mn_process st'))"
    and "fs_files (ps_files (mn_process st')) (config_path (me_config M)) =
      Some (proxy_file (me_config M) (px_kind p) (active_names (mn_db st')))"
    and "mn_process st' = (mn_process st)\<lparr>ps_files := ps_files (mn_process st')\<rparr>"
proof -
  let ?c = "me_config M" and ?F = "ps_files (mn_process st)"
  note h = assms(2) [unfolded starts_with_system_proxy_def]
  obtain d where d: "db_init (mn_db st) = (Inr (), d)" "calm d"
    "verdict (policy_of d) = verdict (policy_of (mn_db st))"
    by (rule db_init_settled [OF assms(1)])
  obtain f calls where conf: "configure ?c (me_net M) new_configurator p =
      (Inr (), f, configure_dns_proxy ?c p, calls)"
    using h by (blast elim: configured_proxy)
  obtain p' F' where cfg: "create_config ?c (me_order M) (me_time M) (configure_dns_proxy ?c p) ?F d =
      (Inr (), p', F', d)"
    "px_config_file_path p' = config_path ?c" "files_only {config_path ?c} ?F F'"
    "fs_files F' (config_path ?c) = Some (proxy_file ?c (px_kind p) (active_names d))"
    using system_config_run [OF calmD(3) [OF d(2)], of ?c ?F "configure_dns_proxy ?c p" "config_path ?c"
        "me_order M" "me_time M"] h new_proxy_empty [of ?c p]
    by (auto simp: proxy_file_def config_path_def)
  have "open_database M st = (Inr (), st\<lparr>mn_db := d\<rparr>)"
    using h d(1) by (simp add: open_database_def ensure_db_dir_def set_files_def)
  then have "start_pass M st = (Started p' (find_executable ?F ''pidof''), set_files F' (st\<lparr>mn_db := d\<rparr>))"
    using h by (simp add: start_pass_def start_service_def new_service_def service_configure_def conf cfg(1)
        Let_def set_files_def)
  then show ?thesis by (rule that) (simp_all add: cfg d set_files_def)
qed

lemma start_pass_writes_policy:
  assumes "settled (mn_db st)" and "starts_with_system_proxy M (ps_files (mn_process st)) p"
  shows "\<exists>p' b st' ns. start_pass M st = (Started p' b, st') \<and>
    fs_files (ps_files (mn_process st')) (config_path (me_config M)) =
      Some (proxy_file (me_config M) (px_kind p) ns) \<and>
    sorted ns \<and> distinct ns \<and> set ns = {k. verdict (policy_of (mn_db st)) k \<noteq> Unlisted}"
proof -
  obtain p' b st' where run: "start_pass M st = (Started p' b, st')"
    and d: "calm (mn_db st')" "verdict (policy_of (mn_db st')) = verdict (policy_of (mn_db st))"
    and written: "fs_files (ps_files (mn_process st')) (config_path (me_config M)) =
      Some (proxy_file (me_config M) (px_kind p) (active_names (mn_db st')))"
    by (rule start_pass_run [OF assms])
  have names: "set (active_names (mn_db st')) = {k. verdict (policy_of (mn_db st)) k \<noteq> Unlisted}"
    using verdict_names [OF d(1)] d(2) by simp
  show ?thesis
    by (intro exI conjI) (rule run written names active_names_spec(1,2) [OF calmD(1) [OF d(1)]])+
qed

section \<open>From the client to the resolver\<close>

text \<open>Whatever commands an authenticated client has sent, to block and unblock names and to import
  lists, the next pass of the program writes a configuration of the DNS proxy that redirects exactly the
  domains which these commands, taken as operations on the policy, leave blocked or whitelisted;
  an open transaction that one of them left behind is gone by then.\<close>

theorem remote_commands_reach_resolver:
  assumes "jsoncpp_ok (le_json L)" and "jsoncpp_roundtrip (le_json L)"
    and "cn_open c" and "cn_authenticated c" and "settled (sv_db s)" and "\<forall>r \<in> set rs. plain_remote r"
    and "remote_run (le_json L) (server_wire L debug) rs (err, c, s) = (res, err', c', s')"
    and "mn_db st = sv_db s'" and "starts_with_system_proxy M (ps_files (mn_process st)) p"
  shows "\<exists>p' b st' ns. start_pass M st = (Started p' b, st') \<and>
    fs_files (ps_files (mn_process st')) (config_path (me_config M)) =
      Some (proxy_file (me_config M) (px_kind p) ns) \<and>
    sorted ns \<and> distinct ns \<and>
    set ns = {k. verdict (fst (fold (abstract_step (le_resolver L)) (map (command_of (le_resolver L)) rs)
      (policy_of (sv_db s), frozen (sv_db s)))) k \<noteq> Unlisted}"
proof -
  let ?d = "fold (perform (le_resolver L)) (map (command_of (le_resolver L)) rs) (sv_db s)"
  have "sv_db s' = ?d"
    using assms(7) unfolding remote_run_server [OF assms(1-6)] by auto
  then have st: "mn_db st = ?d" using assms(8) by simp
  have "settled ?d" using assms(5) by (rule managers.run_good)
  then have good: "settled (mn_db st)" by (simp only: st)
  have "(policy_of ?d, frozen ?d) =
      fold (abstract_step (le_resolver L)) (map (command_of (le_resolver L)) rs) (policy_of (sv_db s), frozen (sv_db s))"
    using assms(5) by (rule managers.run_abst)
  then have "policy_of (mn_db st) =
      fst (fold (abstract_step (le_resolver L)) (map (command_of (le_resolver L)) rs)
        (policy_of (sv_db s), frozen (sv_db s)))"
    unfolding st by (metis fst_conv)
  with start_pass_writes_policy [OF good assms(9)] show ?thesis by simp
qed

section \<open>Reloading\<close>

lemma counts_calm:
  assumes "calm d"
  shows "snd (dlm_count d) = d" "snd (dm_count_blocked d) = d"
  using calmD(3) [OF assms] by (simp_all add: dlm_count_def dm_count_blocked_def transact_ok)

text \<open>The run of a service whose proxy starts and whose worker ends with status 0.\<close>

lemma run_service_daemon:
  assumes "\<not> is_foreground (me_config M)" and "me_forked M = Some wp" and "calm (mn_db st)"
    and "save_pidfile (me_config M) (me_pid M) (ps_files (mn_process st)) = Inr F"
    and "start_dns_proxy (me_config M) (me_os M) b p ((mn_process st)\<lparr>ps_files := F\<rparr>) = (Inr (), s1)"
    and "os_wait_worker (me_os M) (ps_world s1) = (([], Exited 0), w)"
  obtains st' where "run_service M p b st = (Turn_over, st')"
    and "mn_db st' = me_worker_db M (mn_db st)"
    and "ps_signaled_exit (mn_process st') = ps_signaled_exit (mn_process st)"
    and "ps_files (mn_process st') = remove_pidfile (me_config M)
      (if dns_proxy_generate_config (me_config M) then unlink_file (px_config_file_path p) F else F)"
proof -
  obtain s' where s': "process_master (me_config M) (me_os M) b (me_pid M) wp p (mn_process st) = (Inr (), s')"
    "ps_files s' = remove_pidfile (me_config M)
      (if dns_proxy_generate_config (me_config M) then unlink_file (px_config_file_path p) F else F)"
    "ps_signaled_exit s' = ps_signaled_exit (mn_process st)"
    by (rule process_master_run [OF assms(4-6), of wp]) auto
  show thesis
    by (rule that [of "snd (run_service M p b st)"])
      (simp_all add: run_service_def unix_run_def assms(1,2) s' case_prod_beta Let_def counts_calm [OF assms(3)])
qed

text \<open>After it the next start finds what the first one did.\<close>

lemma starts_again:
  assumes "starts_with_system_proxy M F p" and "files_only {config_path (me_config M), service_pidfile (me_config M)} F F'"
    and "service_db (me_config M) \<notin> {config_path (me_config M), service_pidfile (me_config M)}"
    and "\<not> fs_exists F' (service_pidfile (me_config M))"
  shows "starts_with_system_proxy M F' p"
  using assms by (auto simp: starts_with_system_proxy_def files_only_def fs_exists_def is_already_running_def)

lemma service_leaves_files:
  assumes "files_only {config_path c} F F1" and "save_pidfile c pid F1 = Inr F2"
    and "fs_dirs F (parent_path (service_pidfile c))" and "\<not> fs_dirs F (service_pidfile c)"
    and "G = remove_pidfile c (if b then unlink_file (config_path c) F2 else F2)"
  shows "files_only {config_path c, service_pidfile c} F G" "\<not> fs_exists G (service_pidfile c)"
proof -
  have "fs_dirs F1 = fs_dirs F" using assms(1) by (simp add: files_only_def)
  then have "files_only {config_path c, service_pidfile c} F1 F2"
    using assms(2,3) by (auto simp: save_pidfile_def write_file_def unlink_file_def files_only_def Let_def run_iff
        split: if_splits)
  with assms(1,5) show only: "files_only {config_path c, service_pidfile c} F G"
    by (auto simp: files_only_def remove_pidfile_def unlink_file_def)
  then show "\<not> fs_exists G (service_pidfile c)"
    using assms(4,5) by (simp add: fs_exists_def files_only_def remove_pidfile_def unlink_file_def)
qed


end
