(* ===== verification/Dbl_Suite.thy ===== *)
theory Dbl_Suite
  imports Dbl_Remote Dbl_Process
begin

text \<open>
  The test programs of the client library (\<open>src/test/dblclient\<close>), run against the model of the server:
  each test case opens a session, calls operations of the client, and checks what they give.  The
  helper library that runs the cases is a submodule; a case here gives the list of its checks, and
  it passes when it ends without an exception and every check holds.
\<close>

section \<open>Test cases\<close>

type_synonym 'a case_body = "(connection \<times> service, 'a) session"

text \<open>\<open>Session session; session.open(address, port);\<close> and the body of the case.\<close>

definition run_case :: "libs \<Rightarrow> string \<Rightarrow> bool list case_body \<Rightarrow> service \<Rightarrow> bool list outcome \<times> service" where
  "run_case E token body s =
     (let (c, s) = new_connection E token s; (r, es) = body ([], c, s) in (r, snd (snd es)))"

text \<open>The cases of a program, each with the token of its connection.\<close>

fun run_cases :: "libs \<Rightarrow> (string \<times> bool list case_body) list \<Rightarrow> service
    \<Rightarrow> bool list outcome list \<times> service" where
  "run_cases E [] s = ([], s)"
| "run_cases E ((token, body) # cs) s =
     (let (r, s) = run_case E token body s; (rs, s) = run_cases E cs s in (r # rs, s))"

definition passed :: "bool list outcome \<Rightarrow> bool" where
  "passed r \<longleftrightarrow> (case r of Ok checks \<Rightarrow> list_all (\<lambda>b. b) checks | _ \<Rightarrow> False)"

section \<open>The server of the tests\<close>

text \<open>
  \<open>utils/server.cxx\<close>: where an instance keeps its files, the command line it is started with, and
  the wait for its pid file.
\<close>

record test_server =
  ts_root :: string
  ts_address :: string
  ts_port :: int
  ts_dns_proxy_port :: int
  ts_tmp_dir :: string
  ts_verbose :: bool
  ts_debug :: bool

text \<open>The constructor: \<open>root\<close> is the variable \<open>PROJECT_ROOT\<close>, the ports are random.\<close>

definition new_test_server ::
  "string option \<Rightarrow> int \<Rightarrow> int \<Rightarrow> int \<Rightarrow> string \<Rightarrow> bool \<Rightarrow> bool \<Rightarrow> exn + test_server" where
  "new_test_server root pid port proxy_port address verbose debug =
     (case root of
        None \<Rightarrow> Inl (RuntimeError ''PROJECT_ROOT env var not set'')
      | Some pr \<Rightarrow> Inr \<lparr>ts_root = pr, ts_address = address, ts_port = port,
          ts_dns_proxy_port = proxy_port, ts_tmp_dir = ''/tmp/cxx-test-dnsblocker-'' @ show_int pid,
          ts_verbose = verbose, ts_debug = debug\<rparr>)"

definition set_arguments :: "test_server \<Rightarrow> string \<Rightarrow> string list" where
  "set_arguments t user =
     (let etc = ts_root t @ ''/service/etc/dnsblocker'' in
      [ts_root t @ ''/service/bin/dnsblocker''] @
      (if ts_verbose t then [''-v''] else []) @ (if ts_debug t then [''-D''] else []) @
      [''--no-system-dns-proxy'', ''--no-update'', ''--pidfile='' @ ts_tmp_dir t @ ''/server.pid'',
       ''--logfile='' @ ts_tmp_dir t @ ''/server.log'', ''--logger-config-path='' @ etc @ ''/log.conf'',
       ''--network-ip4address='' @ ts_address t, ''--dns-proxy=unbound'', ''--dns-proxy-generate-config'',
       ''--dns-proxy-port='' @ show_int (ts_dns_proxy_port t),
       ''--dns-proxy-config-destdir='' @ ts_tmp_dir t, ''--service-user='' @ user,
       ''--service-port='' @ show_int (ts_port t), ''--db='' @ ts_tmp_dir t @ ''/service.db'',
       ''--templates-dir='' @ etc @ ''/templates''])"

text \<open>The content of the pid file, if there is one.\<close>

definition server_get_pid :: "string option \<Rightarrow> int" where
  "server_get_pid f = (case f of None \<Rightarrow> 0 | Some s \<Rightarrow> read_pid 0 s)"

text \<open>\<open>is_ready\<close>: the pid file is read up to 100 times, every 50 ms; the answer, and the number of
  sleeps.  \<open>files\<close> gives what is there at each reading.\<close>

fun ready_loop :: "nat \<Rightarrow> (nat \<Rightarrow> string option) \<Rightarrow> nat \<Rightarrow> bool \<times> nat" where
  "ready_loop 0 files n = (False, n)"
| "ready_loop (Suc wait_loops) files n =
     (if 0 < server_get_pid (files n) then (True, n) else ready_loop wait_loops files (Suc n))"

definition is_ready :: "(nat \<Rightarrow> string option) \<Rightarrow> bool \<times> nat" where
  "is_ready files = (let (alive, sleeps) = ready_loop 100 files 0 in (True, sleeps))"

lemma ready_loop_sleeps: "snd (ready_loop n files m) \<le> n + m"
proof (induction n arbitrary: m)
  case (Suc n)
  from Suc.IH [of "Suc m"] show ?case by simp
qed simp

text \<open>The wait gives up after five seconds and then says that the server is ready all the same.\<close>

theorem is_ready_whatever: "fst (is_ready files) \<and> snd (is_ready files) * 50 \<le> 5000"
  using ready_loop_sleeps [of 100 files 0] by (simp add: is_ready_def case_prod_beta)

section \<open>\<open>test_version.cxx\<close>\<close>

definition version_case :: "jsoncpp \<Rightarrow> 's wire \<Rightarrow> ('s, bool list) session" where
  "version_case J wire = bindS (get_server_version J wire) (\<lambda>version. returnS [0 < length version])"

section \<open>\<open>test_auth.cxx\<close>\<close>

definition no_password_case :: "jsoncpp \<Rightarrow> digest \<Rightarrow> 's wire \<Rightarrow> ('s, bool list) session" where
  "no_password_case J H wire = bindS (authenticate J H wire []) (\<lambda>auth_ok. returnS [auth_ok])"

definition password_case :: "jsoncpp \<Rightarrow> digest \<Rightarrow> 's wire \<Rightarrow> ('s, bool list) session" where
  "password_case J H wire =
     (let password = ''test123'' in
      bindS (set_service_password J H wire password) (\<lambda>ok.
      bindS (authenticate J H wire ''invalid'') (\<lambda>invalid.
      bindS (authenticate J H wire []) (\<lambda>empty.
      bindS (authenticate J H wire password) (\<lambda>auth_ok.
      returnS [ok, \<not> invalid, \<not> empty, auth_ok])))))"

section \<open>\<open>test_domain_lists.cxx\<close>\<close>

definition test_domain_name :: string where "test_domain_name = ''sex.com''"

definition test_domain_whitelisted :: string where "test_domain_whitelisted = ''wikipedia.org''"

definition new_list :: domain_list where
  "new_list = add_domain (new_domain_list\<lparr>dl_name := ''test-domain-list'',
     dl_url := ''http://example/test-domain-list'', dl_description := Some ''test domain list''\<rparr>)
     test_domain_name"

definition white_list :: domain_list where
  "white_list = add_domain (new_domain_list\<lparr>dl_name := ''test-domain-whitelist'',
     dl_url := ''http://example/white-list'', dl_description := Some ''test domain white list''\<rparr>)
     test_domain_whitelisted"

definition import_case :: "jsoncpp \<Rightarrow> 's wire \<Rightarrow> ('s, bool list) session" where
  "import_case J wire =
     bindS (import_domain_list J wire new_list) (\<lambda>ok1.
     bindS (import_domain_list J wire white_list) (\<lambda>ok2. returnS [ok1, ok2]))"

text \<open>The variable \<open>found\<close> has no initial value: it is the parameter.\<close>

definition lists_case :: "jsoncpp \<Rightarrow> resolver \<Rightarrow> bool \<Rightarrow> 's wire \<Rightarrow> ('s, bool list) session" where
  "lists_case J R garbage wire =
     bindS (get_domain_lists J R wire []) (\<lambda>(ok, lst).
     (let found = (if list_ex (\<lambda>it. dl_name it = dl_name new_list) lst then True else garbage)
      in returnS [ok, found]))"

text \<open>\<open>lst.domains.at(0)\<close> throws when there is none.\<close>

definition list_case :: "jsoncpp \<Rightarrow> resolver \<Rightarrow> 's wire \<Rightarrow> ('s, bool list) session" where
  "list_case J R wire =
     bindS (get_domain_list J R wire (new_domain_list\<lparr>dl_name := dl_name new_list\<rparr>)) (\<lambda>(ok, lst).
     bindS (liftS (case dl_domains lst of [] \<Rightarrow> Inl (OtherException ''vector::_M_range_check'')
                   | x # xs \<Rightarrow> Inr x)) (\<lambda>first.
     returnS [ok, dl_name lst = dl_name new_list, dl_url lst = dl_url new_list,
       dl_description lst = dl_description new_list, length (dl_domains lst) = 1,
       d_name first = test_domain_name]))"

section \<open>\<open>test_domains.cxx\<close>\<close>

definition find_domain :: "domain list \<Rightarrow> string \<Rightarrow> bool" where
  "find_domain ds name = (find (\<lambda>d. d_name d = name) ds \<noteq> None)"

definition test_set :: "string list" where "test_set = [''microsoft.com'', ''live.com'']"

definition single_domain :: string where "single_domain = ''facebook.com''"

definition block_case :: "jsoncpp \<Rightarrow> resolver \<Rightarrow> 's wire \<Rightarrow> ('s, bool list) session" where
  "block_case J R wire =
     bindS (block_domain J wire single_domain) (\<lambda>ok1.
     bindS (manage_domains J wire test_set True) (\<lambda>ok2.
     bindS (get_blocked_domains J R wire []) (\<lambda>(ok3, ds).
     returnS ([ok1, ok2, ok3, find_domain ds single_domain] @ map (find_domain ds) test_set))))"

definition get_domain_case :: "jsoncpp \<Rightarrow> resolver \<Rightarrow> 's wire \<Rightarrow> ('s, bool list) session" where
  "get_domain_case J R wire =
     bindS (get_domain J R wire (new_domain\<lparr>d_name := single_domain\<rparr>)) (\<lambda>(ok, domain).
     returnS [ok, d_name domain = single_domain, 0 < d_list_id domain])"

definition unblock_single_case :: "jsoncpp \<Rightarrow> resolver \<Rightarrow> 's wire \<Rightarrow> ('s, bool list) session" where
  "unblock_single_case J R wire =
     bindS (unblock_domain J wire single_domain) (\<lambda>ok1.
     bindS (get_blocked_domains J R wire []) (\<lambda>(ok2, ds).
     bindS (get_whitelisted_domains J R wire []) (\<lambda>(ok3, whitelisted).
     returnS ([ok1, ok2, \<not> find_domain ds single_domain] @ map (find_domain ds) test_set @
       [ok3, find_domain whitelisted single_domain]))))"

definition unblock_multiple_case :: "jsoncpp \<Rightarrow> resolver \<Rightarrow> 's wire \<Rightarrow> ('s, bool list) session" where
  "unblock_multiple_case J R wire =
     bindS (manage_domains J wire test_set False) (\<lambda>ok1.
     bindS (get_blocked_domains J R wire []) (\<lambda>(ok2, ds).
     bindS (get_whitelisted_domains J R wire []) (\<lambda>(ok3, whitelisted).
     returnS ([ok1, ok2, ok3] @
       concat (map (\<lambda>item. [\<not> find_domain ds item, find_domain whitelisted item]) test_set)))))"

section \<open>The databases the tests run on\<close>

definition test_ready :: "nat \<Rightarrow> db \<Rightarrow> bool" where
  "test_ready k d \<longleftrightarrow> calm d \<and> standard (policy_of d) \<and> wire_safe k d \<and> password d = []"

lemma test_readyD:
  assumes "test_ready k d"
  shows "calm d" "settled d" "standard (policy_of d)" "wire_safe k d" "password d = []" "plain_db d"
  using assms calmD(1) [of d] wire_safe_plain [of k d] calm_settled [of d] by (auto simp: test_ready_def)

lemma ready_password_settings:
  "db_faults d = [] \<Longrightarrow> db_faults d' = [] \<Longrightarrow> db_settings d = db_settings d' \<Longrightarrow> password d = password d'"
  by (simp add: password_def sm_get_def query_ok sql_select_setting_def)

text \<open>A command of the user keeps the database ready, and moves the verdicts as it wishes.\<close>

lemma ready_step:
  assumes "test_ready (Suc k) d" and "plain_remote r" and "of_user (command_of R r)"
  shows "test_ready k (perform R (command_of R r) d) \<and>
    verdict (policy_of (perform R (command_of R r) d)) n =
      max (wish R (command_of R r) n) (verdict (policy_of d) n)"
proof -
  let ?d = "perform R (command_of R r) d"
  note d = test_readyD [OF assms(1)]
  have free: "\<not> freezes R (command_of R r) (policy_of d)"
    using assms(3) d(3) by (cases "command_of R r") (simp_all add: standard_def)
  then have pol: "policy_of ?d = policy_step R (command_of R r) (policy_of d)" "db_faults ?d = []"
    using command_policy [OF d(1)] by simp_all
  moreover have "settled ?d" using command_simulates [OF d(2)] by blast
  ultimately have "calm ?d" by (simp add: calm_def settled_def)
  moreover have "standard (policy_of ?d)" unfolding pol(1) using d(3) assms(3) by (rule standard_step)
  moreover have "wire_safe k ?d" by (rule wire_safe_command [OF d(2,4) assms(2)])
  moreover have "password ?d = []"
    using ready_password_settings [OF calmD(3) [OF d(1)] pol(2)] remote_frame [OF d(1), of R r] d(5) by simp
  ultimately show ?thesis
    unfolding pol(1) using verdict_step [OF d(3) assms(3)] by (simp add: test_ready_def pol(1))
qed

lemma open_ready:
  assumes "digest_ok (le_digest E)" and "test_ready k (sv_db s)"
  shows "new_connection E token s =
    (\<lparr>cn_auth = \<lparr>auth_token = token\<rparr>, cn_authenticated = True, cn_open = True\<rparr>, s)"
  using auth_auth_iff [OF calmD(3) [OF test_readyD(1) [OF assms(2)]] assms(1)] test_readyD(5) [OF assms(2)]
  by (simp add: new_connection_def)

lemma find_listed:
  assumes "settled d" and "valid_name R n" and "n \<noteq> []"
  shows "find_domain (map (received R) (listing b d)) n \<longleftrightarrow>
    verdict (policy_of d) n = (if b then Blocked else Whitelisted)"
proof -
  let ?ds = "map (received R) (listing b d)"
  have "find_domain ?ds n \<longleftrightarrow> n \<in> d_name ` set ?ds"
    by (auto simp: find_domain_def find_None_iff image_iff simp del: set_map)
  also have "\<dots> \<longleftrightarrow> n \<in> shown R ` {k. verdict (policy_of d) k = (if b then Blocked else Whitelisted)}"
    by (simp only: received_names listing_names [OF assms(1)])
  also have "\<dots> \<longleftrightarrow> verdict (policy_of d) n = (if b then Blocked else Whitelisted)"
    using assms(2,3) by (auto simp: shown_def image_iff split: if_splits)
  finally show ?thesis .
qed

lemma ready_call:
  assumes "jsoncpp_ok (le_json E)" and "jsoncpp_roundtrip (le_json E)"
    and "cn_open c" and "cn_authenticated c" and "test_ready (Suc k) (sv_db s)"
    and "plain_remote r" and "of_user (command_of (le_resolver E) r)"
  obtains s' where "remote_call (le_json E) (server_wire E debug) r (err, c, s) = (Ok True, ([], c, s'))"
    "test_ready k (sv_db s')"
    "\<And>n. verdict (policy_of (sv_db s')) n =
      max (wish (le_resolver E) (command_of (le_resolver E) r) n) (verdict (policy_of (sv_db s)) n)"
proof -
  let ?s' = "s\<lparr>sv_db := perform (le_resolver E) (command_of (le_resolver E) r) (sv_db s)\<rparr>"
  show thesis
    using that [of ?s'] remote_call_server [OF assms(1-4) test_readyD(2) [OF assms(5)] assms(6), of debug err]
      ready_step [OF assms(5-7)] by simp
qed

lemma ready_listing:
  assumes "jsoncpp_ok (le_json E)" and "jsoncpp_roundtrip (le_json E)"
    and "cn_open c" and "cn_authenticated c" and "test_ready k (sv_db s)"
  shows "get_blocked_domains (le_json E) R (server_wire E debug) [] (err, c, s) =
      (Ok (True, map (received R) (listing True (sv_db s))), ([], c, s))"
    and "get_whitelisted_domains (le_json E) R (server_wire E debug) [] (err, c, s) =
      (Ok (True, map (received R) (listing False (sv_db s))), ([], c, s))"
  using get_domains_server [OF assms(1-4) test_readyD(2,6) [OF assms(5)]]
  by (simp_all add: get_blocked_domains_def get_whitelisted_domains_def)

lemma row_of_listed:
  assumes "settled d" and "verdict (policy_of d) n \<noteq> Unlisted"
  shows "d_name (row_or_new n d) = n \<and> 0 < d_list_id (row_or_new n d)"
proof -
  let ?b = "verdict (policy_of d) n = Blocked"
  have "verdict (policy_of d) n = (if ?b then Blocked else Whitelisted)"
    using assms(2) by (cases "verdict (policy_of d) n") simp_all
  with listing_names [OF assms(1), of ?b] have "n \<in> d_name ` set (listing ?b d)" by simp
  moreover have "set (listing b d) \<subseteq> set (sql_get_domains d)" for b
    by (auto simp: listing_def sql_get_blocked_domains_def sql_get_all_whitelisted_domains_def
        sql_get_domains_def order_by_name_props join_lists_def)
  ultimately have "n \<in> d_name ` set (sql_get_domains d)" by blast
  then obtain y where y: "find (\<lambda>y. d_name y = n) (sql_get_domains d) = Some y"
    by (cases "find (\<lambda>y. d_name y = n) (sql_get_domains d)") (auto simp: find_None_iff)
  from find_Some_mem [OF y] obtain l where "l \<in> set (db_lists d)" "d_list_id y = lr_id l" "d_name y = n"
    by (auto simp: sql_get_domains_def join_lists_mem)
  moreover from this have "0 < lr_id l" using settledD(1) [OF assms(1)] by (simp add: db_wf_def)
  ultimately show ?thesis by (simp add: row_or_new_def y)
qed

section \<open>The domain tests\<close>

text \<open>The three names of the tests are valid for a resolver.\<close>

definition knows_names :: "resolver \<Rightarrow> bool" where
  "knows_names R \<longleftrightarrow> (\<forall>n \<in> set (single_domain # test_set). valid_name R n)"

lemma test_names:
  "single_domain \<noteq> []" "single_domain \<notin> set test_set" "plain_string single_domain"
  "n \<in> set test_set \<Longrightarrow> n \<noteq> [] \<and> plain_string n"
  by (auto simp: single_domain_def test_set_def)

lemma block_case_passes:
  assumes libs: "jsoncpp_ok (le_json E)" "jsoncpp_roundtrip (le_json E)"
    and c: "cn_open c" "cn_authenticated c" and "test_ready (k + 2) (sv_db s)"
    and "knows_names R" and "knows_names (le_resolver E)"
    and "\<forall>n \<in> set (single_domain # test_set). verdict (policy_of (sv_db s)) n \<noteq> Whitelisted"
  obtains checks err' s' where
    "block_case (le_json E) R (server_wire E debug) (err, c, s) = (Ok checks, (err', c, s'))"
    "passed (Ok checks)" "test_ready k (sv_db s')"
    "\<forall>n \<in> set (single_domain # test_set). verdict (policy_of (sv_db s')) n = Blocked"
proof -
  let ?J = "le_json E" and ?w = "server_wire E debug" and ?R = "le_resolver E"
  obtain s1 where s1: "remote_call ?J ?w (R_block [single_domain]) (err, c, s) = (Ok True, ([], c, s1))"
    "test_ready (Suc k) (sv_db s1)"
    "\<And>n. verdict (policy_of (sv_db s1)) n =
      max (wish ?R (Block [single_domain]) n) (verdict (policy_of (sv_db s)) n)"
    by (rule ready_call [OF libs c, of "Suc k" s "R_block [single_domain]"])
      (use assms(5) test_names(3) in auto)
  obtain s2 where s2: "remote_call ?J ?w (R_block test_set) ([], c, s1) = (Ok True, ([], c, s2))"
    "test_ready k (sv_db s2)"
    "\<And>n. verdict (policy_of (sv_db s2)) n =
      max (wish ?R (Block test_set) n) (verdict (policy_of (sv_db s1)) n)"
    by (rule ready_call [OF libs c s1(2), of "R_block test_set"]) (use test_names(4) in auto)
  let ?ds = "map (received R) (listing True (sv_db s2))"
  have all: "verdict (policy_of (sv_db s2)) n = Blocked" if "n \<in> set (single_domain # test_set)" for n
    using assms(7,8) that test_names(2)
    by (cases "verdict (policy_of (sv_db s)) n")
      (auto simp: s2(3) s1(3) knows_names_def max_def less_eq_verdict_def)
  moreover have "find_domain ?ds n" if "n \<in> set (single_domain # test_set)" for n
    using find_listed [OF test_readyD(2) [OF s2(2)], of R n True] all [OF that] assms(6) that test_names(1,4)
    by (auto simp: knows_names_def)
  moreover have "block_case ?J R ?w (err, c, s) =
      (Ok ([True, True, True, find_domain ?ds single_domain] @ map (find_domain ?ds) test_set), ([], c, s2))"
    using s1(1) s2(1) ready_listing(1) [OF libs c s2(2)]
    by (simp add: block_case_def block_domain_def bindS_Ok returnS_def)
  ultimately show ?thesis using that s2(2)
    by (auto simp: passed_def list_all_iff)
qed

lemma unblock_single_case_passes:
  assumes libs: "jsoncpp_ok (le_json E)" "jsoncpp_roundtrip (le_json E)"
    and c: "cn_open c" "cn_authenticated c" and "test_ready (Suc k) (sv_db s)"
    and "knows_names R" and "knows_names (le_resolver E)"
    and "\<forall>n \<in> set (single_domain # test_set). verdict (policy_of (sv_db s)) n = Blocked"
  obtains checks err' s' where
    "unblock_single_case (le_json E) R (server_wire E debug) (err, c, s) = (Ok checks, (err', c, s'))"
    "passed (Ok checks)" "test_ready k (sv_db s')"
proof -
  let ?J = "le_json E" and ?w = "server_wire E debug" and ?R = "le_resolver E"
  obtain s1 where s1: "remote_call ?J ?w (R_unblock [single_domain]) (err, c, s) = (Ok True, ([], c, s1))"
    "test_ready k (sv_db s1)"
    "\<And>n. verdict (policy_of (sv_db s1)) n =
      max (wish ?R (Unblock [single_domain]) n) (verdict (policy_of (sv_db s)) n)"
    by (rule ready_call [OF libs c assms(5), of "R_unblock [single_domain]"])
      (use test_names(3) in auto)
  let ?ds = "map (received R) (listing True (sv_db s1))"
  let ?ws = "map (received R) (listing False (sv_db s1))"
  have single: "verdict (policy_of (sv_db s1)) single_domain = Whitelisted"
    using assms(7,8) by (simp add: s1(3) knows_names_def)
  have others: "verdict (policy_of (sv_db s1)) n = Blocked" if "n \<in> set test_set" for n
    using assms(8) that test_names(2) by (auto simp: s1(3))
  have found: "find_domain (map (received R) (listing b (sv_db s1))) n \<longleftrightarrow>
      verdict (policy_of (sv_db s1)) n = (if b then Blocked else Whitelisted)"
    if "n \<in> set (single_domain # test_set)" for b n
    using find_listed [OF test_readyD(2) [OF s1(2)]] that assms(6) test_names(1,4)
    by (auto simp: knows_names_def)
  have "unblock_single_case ?J R ?w (err, c, s) =
      (Ok ([True, True, \<not> find_domain ?ds single_domain] @ map (find_domain ?ds) test_set @
        [True, find_domain ?ws single_domain]), ([], c, s1))"
    using s1(1) ready_listing [OF libs c s1(2)]
    by (simp add: unblock_single_case_def unblock_domain_def bindS_Ok returnS_def)
  then show ?thesis using that s1(2) found single others
    by (auto simp: passed_def list_all_iff)
qed

lemma unblock_multiple_case_passes:
  assumes libs: "jsoncpp_ok (le_json E)" "jsoncpp_roundtrip (le_json E)"
    and c: "cn_open c" "cn_authenticated c" and "test_ready (Suc k) (sv_db s)"
    and "knows_names R" and "knows_names (le_resolver E)"
  obtains checks err' s' where
    "unblock_multiple_case (le_json E) R (server_wire E debug) (err, c, s) = (Ok checks, (err', c, s'))"
    "passed (Ok checks)" "test_ready k (sv_db s')"
proof -
  let ?J = "le_json E" and ?w = "server_wire E debug" and ?R = "le_resolver E"
  obtain s1 where s1: "remote_call ?J ?w (R_unblock test_set) (err, c, s) = (Ok True, ([], c, s1))"
    "test_ready k (sv_db s1)"
    "\<And>n. verdict (policy_of (sv_db s1)) n =
      max (wish ?R (Unblock test_set) n) (verdict (policy_of (sv_db s)) n)"
    by (rule ready_call [OF libs c assms(5), of "R_unblock test_set"]) (use test_names(4) in auto)
  let ?ds = "map (received R) (listing True (sv_db s1))"
  let ?ws = "map (received R) (listing False (sv_db s1))"
  have "verdict (policy_of (sv_db s1)) n = Whitelisted" if "n \<in> set test_set" for n
    using assms(7) that by (simp add: s1(3) knows_names_def)
  then have found: "find_domain (map (received R) (listing b (sv_db s1))) n \<longleftrightarrow> \<not> b"
    if "n \<in> set test_set" for b n
    using find_listed [OF test_readyD(2) [OF s1(2)], of R n b] that assms(6) test_names(4)
    by (auto simp: knows_names_def)
  have "unblock_multiple_case ?J R ?w (err, c, s) = (Ok ([True, True, True] @
      concat (map (\<lambda>item. [\<not> find_domain ?ds item, find_domain ?ws item]) test_set)), ([], c, s1))"
    using s1(1) ready_listing [OF libs c s1(2)]
    by (simp add: unblock_multiple_case_def bindS_Ok returnS_def)
  then show ?thesis using that s1(2) found
    by (auto simp: passed_def list_all_iff)
qed

lemma get_domain_case_passes:
  assumes libs: "jsoncpp_ok (le_json E)" "jsoncpp_roundtrip (le_json E)"
    and c: "cn_open c" "cn_authenticated c" and "test_ready k (sv_db s)"
    and "verdict (policy_of (sv_db s)) single_domain = Blocked"
  obtains checks where
    "get_domain_case (le_json E) R (server_wire E debug) (err, c, s) = (Ok checks, ([], c, s))"
    "passed (Ok checks)"
proof -
  let ?x = "new_domain\<lparr>d_name := single_domain\<rparr>"
  have "plain_string (d_name ?x)" "d_name ?x \<noteq> []" using test_names(1,3) by simp_all
  from get_domain_server [OF libs c test_readyD(2,6) [OF assms(5)] this, of R debug err]
    row_of_listed [OF test_readyD(2) [OF assms(5)], of single_domain] assms(6)
  have "\<exists>i l. get_domain (le_json E) R (server_wire E debug) ?x (err, c, s) =
      (Ok (True, \<lparr>d_name = single_domain, d_list_id = i, d_list_name = l\<rparr>), ([], c, s)) \<and> 0 < i"
    by (simp add: Let_def)
  then show ?thesis using that
    by (auto simp: get_domain_case_def bindS_Ok returnS_def passed_def)
qed


section \<open>The other tests\<close>

text \<open>The version test passes on every connection that is logged in.\<close>

lemma get_version_server:
  assumes "jsoncpp_ok (le_json E)" and "jsoncpp_roundtrip (le_json E)"
    and "cn_open c" and "cn_authenticated c"
  shows "get_server_version (le_json E) (server_wire E debug) (err, c, s) = (Ok VERSION, ([], c, s))"
proof -
  have "dispatch E (to_lower ''get_version'') JNull (JObject []) (c, s) = (Ok (JString VERSION), c, s)"
    unfolding lower_commands using assms(4)
    by (simp add: dispatch_def dispatch_authenticated_def on_service_def handle_get_version_def)
  moreover have "plain_string ''get_version''" "plain_json (JString VERSION)"
    by (simp_all add: VERSION_def)
  ultimately have "call (le_json E) (server_wire E debug) ''get_version'' JNull (err, c, s) =
      (Ok \<lparr>sr_is_ok = True, sr_data = success_response (JString VERSION), sr_error_msg = []\<rparr>, ([], c, s))"
    using assms(1-3) by (intro call_ok) simp_all
  then show ?thesis using assms(1)
    by (simp add: get_server_version_def bindS_Ok get_data_success liftS_def jsoncpp_okD)
qed

theorem version_test_passes:
  assumes "jsoncpp_ok (le_json E)" and "jsoncpp_roundtrip (le_json E)" and "digest_ok (le_digest E)"
    and "test_ready k (sv_db s)"
  shows "list_all passed (fst (run_cases E [(t, version_case (le_json E) (server_wire E debug))] s))"
  using get_version_server [OF assms(1,2), where s = s and err = "[]"]
  by (simp add: run_case_def open_ready [OF assms(3,4)] version_case_def bindS_Ok returnS_def passed_def
    VERSION_def)

text \<open>The authentication tests pass if the digest keeps the three passwords, and the three answers for
  the token of the connection, apart.\<close>

theorem auth_tests_pass:
  assumes "jsoncpp_ok (le_json E)" and "jsoncpp_roundtrip (le_json E)" and "digest_ok (le_digest E)"
    and "test_ready k (sv_db s)"
    and "plain_string t1" and "t1 \<noteq> []" and "plain_string t2" and "t2 \<noteq> []"
    and "inj_on (le_digest E) {''test123'', ''invalid'', []}"
    and "inj_on (le_digest E) ((\<lambda>p. md5 (le_digest E) p @ t2) ` {''test123'', ''invalid'', []})"
  shows "list_all passed (fst (run_cases E
    [(t1, no_password_case (le_json E) (le_digest E) (server_wire E debug)),
     (t2, password_case (le_json E) (le_digest E) (server_wire E debug))] s))"
proof -
  let ?J = "le_json E" and ?H = "le_digest E" and ?w = "server_wire E debug"
  let ?c = "\<lambda>t. \<lparr>cn_auth = \<lparr>auth_token = t\<rparr>, cn_authenticated = True, cn_open = True\<rparr>"
  have faults: "db_faults (sv_db s) = []" using calmD(3) [OF test_readyD(1) [OF assms(4)]] .
  have first: "no_password_case ?J ?H ?w ([], ?c t1, s) = (Ok [True], ([], ?c t1, s))"
    using authenticate_server [OF assms(1-3) faults, of "?c t1" debug "[]" "[]"] assms(5,6)
      test_readyD(5) [OF assms(4)]
    by (simp add: no_password_case_def bindS_Ok returnS_def)
  obtain d where d: "set_service_password ?J ?H ?w ''test123'' ([], ?c t2, s) = (Ok True, ([], ?c t2, s\<lparr>sv_db := d\<rparr>))"
    "db_faults d = []" "password d = md5 ?H ''test123''"
    by (rule set_service_password_server [OF assms(1-3) faults, of "?c t2" debug "''test123''" "[]"])
      (use assms(7,8) in auto)
  have digest: "md5 ?H a = md5 ?H b \<longleftrightarrow> ?H a = ?H b" for a b
    using md5_take [OF assms(3)] concat_hex_inject by metis
  have apart: "md5 ?H (md5 ?H p @ t2) = md5 ?H (md5 ?H ''test123'' @ t2) \<longleftrightarrow> p = ''test123''"
    if "p \<in> {''test123'', ''invalid'', []}" for p
  proof
    assume "md5 ?H (md5 ?H p @ t2) = md5 ?H (md5 ?H ''test123'' @ t2)"
    then have "md5 ?H p @ t2 = md5 ?H ''test123'' @ t2"
      using inj_onD [OF assms(10)] that unfolding digest by blast
    then show "p = ''test123''"
      using inj_onD [OF assms(9), of p "''test123''"] that unfolding append_same_eq digest by blast
  qed simp
  have auth: "\<exists>e. authenticate ?J ?H ?w p (err, ?c t2, s\<lparr>sv_db := d\<rparr>) =
      (Ok (p = ''test123''), (e, ?c t2, s\<lparr>sv_db := d\<rparr>))" if "p \<in> {''test123'', ''invalid'', []}" for p err
    using authenticate_server [OF assms(1-3), of "s\<lparr>sv_db := d\<rparr>" "?c t2" debug p err] d(2,3) assms(7,8)
      md5_nonempty [OF assms(3)] apart [OF that]
    by auto
  obtain e1 where e1: "authenticate ?J ?H ?w ''invalid'' ([], ?c t2, s\<lparr>sv_db := d\<rparr>) =
      (Ok False, (e1, ?c t2, s\<lparr>sv_db := d\<rparr>))" using auth [of "''invalid''" "[]"] by auto
  obtain e2 where e2: "authenticate ?J ?H ?w [] (e1, ?c t2, s\<lparr>sv_db := d\<rparr>) =
      (Ok False, (e2, ?c t2, s\<lparr>sv_db := d\<rparr>))" using auth [of "[]" e1] by auto
  obtain e3 where e3: "authenticate ?J ?H ?w ''test123'' (e2, ?c t2, s\<lparr>sv_db := d\<rparr>) =
      (Ok True, (e3, ?c t2, s\<lparr>sv_db := d\<rparr>))" using auth [of "''test123''" e2] by auto
  have "password_case ?J ?H ?w ([], ?c t2, s) = (Ok [True, True, True, True], (e3, ?c t2, s\<lparr>sv_db := d\<rparr>))"
    unfolding password_case_def Let_def
      bindS_Ok [where m = "set_service_password ?J ?H ?w ''test123''", OF d(1)]
      bindS_Ok [where m = "authenticate ?J ?H ?w ''invalid''", OF e1]
      bindS_Ok [where m = "authenticate ?J ?H ?w []", OF e2]
      bindS_Ok [where m = "authenticate ?J ?H ?w ''test123''", OF e3]
    by (simp add: returnS_def)
  with first show ?thesis
    by (simp add: run_case_def open_ready [OF assms(3,4)] passed_def)
qed

section \<open>The domain list tests\<close>

text \<open>A database to import into: as for the other tests, but for the standard lists.\<close>

definition import_ready :: "nat \<Rightarrow> db \<Rightarrow> bool" where
  "import_ready k d \<longleftrightarrow> calm d \<and> wire_safe k d \<and> password d = []"

lemma import_step:
  assumes "import_ready (Suc k) d" and "plain_list l"
  shows "import_ready k (perform R (command_of R (R_import l)) d) \<and>
    policy_of (perform R (command_of R (R_import l)) d) =
      policy_step R (command_of R (R_import l)) (policy_of d) \<and>
    list_texts (perform R (command_of R (R_import l)) d) = list_texts d @ new_texts R (R_import l) d"
proof -
  let ?d = "perform R (command_of R (R_import l)) d"
  have d: "calm d" "wire_safe (Suc k) d" "password d = []" using assms(1) by (simp_all add: import_ready_def)
  have pol: "policy_of ?d = policy_step R (command_of R (R_import l)) (policy_of d)" "db_faults ?d = []"
    using command_policy [OF d(1), of R "command_of R (R_import l)"] by simp_all
  moreover have "settled ?d" using command_simulates [OF calm_settled [OF d(1)]] by blast
  ultimately have "calm ?d" by (simp add: calm_def settled_def)
  moreover have "wire_safe k ?d"
    by (rule wire_safe_command [OF calm_settled [OF d(1)] d(2)]) (use assms(2) in simp)
  moreover have "password ?d = []"
    using ready_password_settings [OF calmD(3) [OF d(1)] pol(2)] remote_frame [OF d(1), of R "R_import l"] d(3)
    by simp
  ultimately show ?thesis
    using pol(1) remote_frame [OF d(1), of R "R_import l"] unfolding import_ready_def by blast
qed

lemma open_import_ready:
  assumes "digest_ok (le_digest E)" and "import_ready k (sv_db s)"
  shows "new_connection E token s =
    (\<lparr>cn_auth = \<lparr>auth_token = token\<rparr>, cn_authenticated = True, cn_open = True\<rparr>, s)"
  using assms(2) auth_auth_iff [OF _ assms(1), of "sv_db s"]
  by (simp add: new_connection_def import_ready_def calm_def)

lemma has_list_texts: "has_list n d \<longleftrightarrow> n \<in> fst ` set (list_texts d)"
  by (simp add: has_list_def list_texts_def image_image)

lemma test_lists:
  "plain_list new_list" "plain_list white_list"
  "dl_name new_list \<noteq> []" "dl_name white_list \<noteq> []" "dl_name new_list \<noteq> dl_name white_list"
  "map d_name (dl_domains new_list) = [test_domain_name]"
  "map d_name (dl_domains white_list) = [test_domain_whitelisted]"
  "test_domain_name \<noteq> test_domain_whitelisted"
  by (simp_all add: plain_list_def new_list_def white_list_def add_domain_def new_domain_list_def
      new_domain_def test_domain_name_def test_domain_whitelisted_def is_int32_def)

lemma sent_list_sel [simp]:
  "dl_name (sent_list R l) = dl_name l" "dl_url (sent_list R l) = dl_url l"
  "dl_description (sent_list R l) = Some (case dl_description l of None \<Rightarrow> [] | Some s \<Rightarrow> s)"
  "dl_domains (sent_list R l) = named_domains R (map d_name (dl_domains l))"
  by (simp_all add: sent_list_def)

text \<open>What the two imports make of a database without the lists.\<close>

lemma imported:
  assumes "import_ready (Suc (Suc k)) d" and "valid_name R test_domain_name"
    and "\<not> has_list (dl_name new_list) d" and "\<not> has_list (dl_name white_list) d"
  defines "d' \<equiv> perform R (command_of R (R_import white_list)) (perform R (command_of R (R_import new_list)) d)"
  shows "import_ready k d'"
    and "(dl_name new_list, dl_url new_list, ''test domain list'') \<in> set (list_texts d')"
    and "list_kinds d' (dl_name new_list) = Some (True, False)"
    and "{n. place d' n = Some (dl_name new_list)} = {test_domain_name}"
proof -
  let ?d1 = "perform R (command_of R (R_import new_list)) d"
  note one = import_step [OF assms(1) test_lists(1), of R]
  then have "import_ready (Suc k) ?d1" by blast
  note two = import_step [OF this test_lists(2), of R, folded d'_def]
  show "import_ready k d'" using two by blast
  have "dl_description new_list = Some ''test domain list''"
    by (simp add: new_list_def add_domain_def)
  with one two assms(3) show "(dl_name new_list, dl_url new_list, ''test domain list'') \<in> set (list_texts d')"
    using test_lists(3) by (simp add: new_texts_def custom_name_def)
  have none: "list_kinds d (dl_name new_list) = None" "list_kinds d (dl_name white_list) = None"
    using assms(3,4) by (simp_all add: list_kinds_dom list_id_of_None)
  have wf: "db_wf d" using assms(1) by (simp add: import_ready_def calm_def)
  have nowhere: "place d n \<noteq> Some (dl_name new_list)" for n
    using place_has_list [OF wf, of n "dl_name new_list"] none(1) by auto
  have p1: "policy_of ?d1 = p_move (\<lambda>k. k = test_domain_name) (dl_name new_list)
      (p_create (dl_name new_list) (policy_of d))"
    using one assms(2) test_lists(3,6) by (simp add: custom_name_def named_domains_def new_domain_def)
  have p2: "policy_of d' = p_move (\<lambda>k. k \<in> d_name ` set (named_domains R [test_domain_whitelisted]))
      (dl_name white_list) (p_create (dl_name white_list) (policy_of ?d1))"
    using two test_lists(4,7) by (simp add: custom_name_def)
  have kinds: "list_kinds d' = po_lists (policy_of d')" and place: "place d' = po_place (policy_of d')"
    by simp_all
  show "list_kinds d' (dl_name new_list) = Some (True, False)"
    unfolding kinds p2 p1 using none test_lists(5) by (simp add: p_move_def p_create_def)
  have sent: "test_domain_name \<notin> d_name ` set (named_domains R [test_domain_whitelisted])"
    using test_lists(8) by (auto simp: named_domains_def)
  show "{n. place d' n = Some (dl_name new_list)} = {test_domain_name}"
    unfolding place p2 p1 using none nowhere test_lists(5) sent
    by (auto simp: p_move_def p_create_def split: if_splits)
qed

lemma import_case_passes:
  assumes libs: "jsoncpp_ok (le_json E)" "jsoncpp_roundtrip (le_json E)"
    and c: "cn_open c" "cn_authenticated c" and "import_ready (Suc (Suc k)) (sv_db s)"
  defines "d' \<equiv> perform (le_resolver E) (command_of (le_resolver E) (R_import white_list))
    (perform (le_resolver E) (command_of (le_resolver E) (R_import new_list)) (sv_db s))"
  shows "import_case (le_json E) (server_wire E debug) (err, c, s) =
    (Ok [True, True], ([], c, s\<lparr>sv_db := d'\<rparr>))"
proof -
  let ?J = "le_json E" and ?w = "server_wire E debug" and ?R = "le_resolver E"
  let ?s1 = "s\<lparr>sv_db := perform ?R (command_of ?R (R_import new_list)) (sv_db s)\<rparr>"
  have s: "settled (sv_db s)" using assms(5) by (simp add: import_ready_def calm_settled)
  have "remote_call ?J ?w (R_import new_list) (err, c, s) = (Ok True, ([], c, ?s1))"
    by (rule remote_call_server [OF libs c s]) (simp add: test_lists)
  moreover have "settled (sv_db ?s1)"
    using command_simulates [OF s] by (simp del: command_of.simps perform.simps)
  then have "remote_call ?J ?w (R_import white_list) ([], c, ?s1) =
      (Ok True, ([], c, ?s1\<lparr>sv_db := perform ?R (command_of ?R (R_import white_list)) (sv_db ?s1)\<rparr>))"
    by (rule remote_call_server [OF libs c]) (simp add: test_lists)
  ultimately show ?thesis
    by (simp add: import_case_def bindS_Ok returnS_def d'_def del: command_of.simps perform.simps)
qed

lemma lists_case_passes:
  assumes libs: "jsoncpp_ok (le_json E)" "jsoncpp_roundtrip (le_json E)"
    and c: "cn_open c" "cn_authenticated c" and "import_ready k (sv_db s)"
    and "(dl_name new_list, u, de) \<in> set (list_texts (sv_db s))"
  shows "lists_case (le_json E) R garbage (server_wire E debug) (err, c, s) = (Ok [True, True], ([], c, s))"
proof -
  have s: "settled (sv_db s)" "wire_safe k (sv_db s)"
    using assms(5) by (simp_all add: import_ready_def calm_settled)
  from assms(6) have "list_ex (\<lambda>it. dl_name it = dl_name new_list)
      (map (\<lambda>l. sent_list R (list_from_row l)) (db_lists (sv_db s)))"
    by (auto simp: list_ex_iff list_texts_def list_from_row_def)
  with get_domain_lists_server [OF libs c s, of R debug "[]" err] show ?thesis
    by (simp add: lists_case_def bindS_Ok returnS_def Let_def)
qed

lemma list_case_passes:
  assumes libs: "jsoncpp_ok (le_json E)" "jsoncpp_roundtrip (le_json E)"
    and c: "cn_open c" "cn_authenticated c" and "import_ready k (sv_db s)"
    and texts: "(dl_name new_list, dl_url new_list, ''test domain list'') \<in> set (list_texts (sv_db s))"
    and kinds: "list_kinds (sv_db s) (dl_name new_list) = Some (True, False)"
    and place: "{n. place (sv_db s) n = Some (dl_name new_list)} = {test_domain_name}"
    and valid: "valid_name R test_domain_name"
  obtains checks where "list_case (le_json E) R (server_wire E debug) (err, c, s) = (Ok checks, ([], c, s))"
    "passed (Ok checks)"
proof -
  let ?d = "sv_db s" and ?l = "new_domain_list\<lparr>dl_name := dl_name new_list\<rparr>"
  have s: "settled ?d" "wire_safe k ?d" "db_wf ?d"
    using assms(5) calmD(1) by (auto simp: import_ready_def calm_settled)
  from texts obtain r where r: "r \<in> set (db_lists ?d)" "lr_name r = dl_name new_list"
    "lr_url r = dl_url new_list" "lr_description r = ''test domain list''"
    by (auto simp: list_texts_def)
  then have "find (\<lambda>l. lr_name l = dl_name new_list) (db_lists ?d) \<noteq> None"
    by (auto simp: find_None_iff)
  then obtain m where m: "find (\<lambda>l. lr_name l = dl_name new_list) (db_lists ?d) = Some m" by auto
  with r find_Some_mem [OF m] list_by_name_unique [OF s(3)]
  have "find (\<lambda>l. lr_name l = dl_name new_list) (db_lists ?d) = Some r" by metis
  then have list: "named_list (dl_name new_list) ?d =
      (list_from_row r)\<lparr>dl_domains := members (lr_id r) ?d\<rparr>"
    and id: "list_id_of (dl_name new_list) ?d = Some (lr_id r)"
    by (simp_all add: named_list_def sql_get_list_by_name_def list_from_row_def list_id_of_def)
  have "distinct (map d_name (members (lr_id r) ?d)) \<and> set (map d_name (members (lr_id r) ?d)) = {test_domain_name}"
    using members_names [OF s(3) id kinds] place by simp
  then have names: "map d_name (members (lr_id r) ?d) = [test_domain_name]"
    by (cases "map d_name (members (lr_id r) ?d)") (auto simp: distinct_map subset_singleton_iff)
  have plain: "plain_string (dl_name ?l)" "dl_name ?l \<noteq> []"
    using test_lists(1,3) by (simp_all add: plain_list_def)
  have de: "dl_description new_list = Some ''test domain list''" "dl_domains ?l = []" "dl_name ?l = dl_name new_list"
    by (simp_all add: new_list_def add_domain_def new_domain_list_def)
  let ?x = "?l\<lparr>dl_name := dl_name new_list, dl_url := dl_url new_list,
    dl_description := Some ''test domain list'', dl_domains := named_domains R [test_domain_name]\<rparr>"
  have "get_domain_list (le_json E) R (server_wire E debug) ?l (err, c, s) = (Ok (True, ?x), ([], c, s))"
    unfolding get_domain_list_server [OF libs c s(1,2) plain] de(3) list
    by (simp add: names r list_from_row_def Let_def de(2) [simplified])
  then show ?thesis
    using that valid
    by (simp add: list_case_def bindS_Ok liftS_Inr returnS_def named_domains_def de passed_def)
qed


end
