(* ===== verification/Dbl_Responder.thy ===== *)
theory Dbl_Responder
  imports Dbl_Connection Dbl_Http Dbl_Config Dbl_Managers
begin

text \<open>
  The HTTP responder (\<open>src/dbl/service/server/http_responder_connection.cxx\<close>): it counts the
  requested host and answers every request with the configured status.
\<close>

text \<open>The logger and the database are the part of the \<open>Api\<close> object the responder changes.\<close>

record responder =
  rp_db :: db
  rp_seen :: "string \<Rightarrow> bool option"

definition responder_reply :: "config \<Rightarrow> string list" where
  "responder_reply c =
     [''HTTP/1.1 '' @ show_int (http_responder_status_code c) @ '' '' @ http_responder_status_text c,
      ''Server: HTTPResponder'', ''Content-Type: text/html'', ''Content-Length: 0'']"

definition responder_process :: "config \<Rightarrow> string \<Rightarrow> responder \<Rightarrow> string outcome \<times> responder" where
  "responder_process c request s =
     (let headers = parse_headers request Map.empty;
          domain = (case headers ''Host'' of Some v \<Rightarrow> v | None \<Rightarrow> []);
          s = (if domain \<noteq> []
               then (let (seen, d) = log_domain_hit domain (rp_seen s) (rp_db s)
                     in s\<lparr>rp_db := d, rp_seen := seen\<rparr>)
               else s);
          response = concat (map (\<lambda>item. item @ CRLF) (responder_reply c)) @ CRLF @ CRLF
      in (Ok response, s))"

lemma responder_steps:
  "db_reachable R (rp_db s) \<Longrightarrow> db_reachable R (rp_db (snd (responder_process c request s)))"
  using reach_step [OF _ step_hit]
  by (auto simp: responder_process_def case_prod_beta Let_def split: option.split)

interpretation responder: total_handler "responder_process c" "\<lambda>_. True" "\<lambda>s. db_reachable R (rp_db s)"
  for c R
  by unfold_locales (auto simp: responder_steps, simp add: responder_process_def Let_def)

text \<open>The responder answers every request it reads, whatever the request and whatever database
  sessions fail: one reply each, and the connection stays open.\<close>

theorem responder_answers_all:
  assumes "db_reachable R (rp_db s)"
  shows "\<exists>rs. fst (connection_run (responder_process c) (\<lambda>_. True) debug
       (map (\<lambda>r. Received r True) requests) s) = (rs, Waiting) \<and> length rs = length requests"
  using assms by (rule responder.run_answers_all)

text \<open>C28: A request with well-formed headers adds one to the hit counter of its (first) Host header
  and to no other counter; without a Host header, or with an empty one, nothing is counted.  A
  lower-case "host" is not recognised.\<close>

theorem responder_counts_host:
  assumes "db_wf (rp_db s)" and "db_faults (rp_db s) = []" and "\<forall>n. rp_seen s n \<noteq> Some True"
    and "\<forall>kv \<in> set kvs. good_header kv"
    and "CHR '':'' \<notin> set start" and "CHR 0x0D \<notin> set start"
  shows "hits_map (rp_db (snd (responder_process c (start @ CRLF @ concat (map header_line kvs) @ CRLF) s)))
    = (case map_of kvs ''Host'' of
         None \<Rightarrow> hits_map (rp_db s)
       | Some h \<Rightarrow> if h = [] then hits_map (rp_db s)
                   else (hits_map (rp_db s))
                     (h \<mapsto> (case hits_map (rp_db s) h of None \<Rightarrow> 1 | Some n \<Rightarrow> n + 1)))"
proof -
  have "parse_headers (start @ CRLF @ concat (map header_line kvs) @ CRLF) Map.empty = map_of kvs"
    using parse_headers_block [OF assms(4-6), of CRLF Map.empty] by (simp add: CRLF_eq)
  then show ?thesis
    using log_hit_run [OF assms(1-3)]
    by (auto simp: responder_process_def case_prod_beta Let_def split: option.split)
qed

lemma show_int_plain: "CHR '':'' \<notin> set (show_int i)" "CHR 0x0D \<notin> set (show_int i)"
  using show_int_chars [of "CHR '':''" i] show_int_chars [of "CHR 0x0D" i]
  by (auto simp: of_char_def)

definition responder_headers :: "(string \<times> string) list" where
  "responder_headers = [(''Server'', ''HTTPResponder''), (''Content-Type'', ''text/html''),
     (''Content-Length'', ''0'')]"

text \<open>A client that reads the reply with the same rules finds a status line with the configured
  code and text, and the three headers Server, Content-Type and Content-Length 0.\<close>

theorem responder_reply_parses:
  assumes "CHR '':'' \<notin> set (http_responder_status_text c)"
    and "CHR 0x0D \<notin> set (http_responder_status_text c)"
  shows "\<exists>response rest. fst (responder_process c request s) = Ok response \<and>
    response = ''HTTP/1.1 '' @ show_int (http_responder_status_code c) @ '' '' @
       http_responder_status_text c @ CRLF @ rest \<and>
    parse_headers response Map.empty = map_of responder_headers"
proof -
  let ?start = "''HTTP/1.1 '' @ show_int (http_responder_status_code c) @ '' '' @ http_responder_status_text c"
  let ?response = "?start @ CRLF @ concat (map header_line responder_headers) @ CRLF @ CRLF"
  have "\<forall>kv \<in> set responder_headers. good_header kv"
    by (simp add: responder_headers_def good_header_def trimmed_def is_space_def of_char_def)
  moreover have "CHR '':'' \<notin> set ?start" "CHR 0x0D \<notin> set ?start"
    using assms by (simp_all add: show_int_plain)
  moreover have "CHR '':'' \<notin> set (CRLF @ CRLF)" by (simp add: CRLF_eq)
  ultimately have "parse_headers ?response Map.empty = map_of responder_headers"
    using parse_headers_block [of responder_headers ?start "CRLF @ CRLF" Map.empty] by simp
  moreover have "fst (responder_process c request s) = Ok ?response"
    by (simp add: responder_process_def responder_reply_def responder_headers_def header_line_def
        Let_def)
  ultimately show ?thesis
    by (intro exI [of _ ?response] exI [of _ "concat (map header_line responder_headers) @ CRLF @ CRLF"])
      simp
qed

end
