(* ===== verification/Dbl_System.thy ===== *)
theory Dbl_System
  imports Dbl_Server Dbl_Responder Dbl_Transactions
begin

text \<open>
  The TCP servers (\<open>src/dbl/service/server/server.hxx\<close>): one server accepts connections for ever and
  runs the handlers of all of them in one thread, one completed operation at a time, so the
  requests of its connections interleave.  The template \<open>Server<ConnectionType>\<close> is a function of
  the connection's constructor and request handler; the two instances of the program are the JSON
  service and the HTTP responder.  The other threads of the process reach the database between two
  events; what they do there are transactions (\<open>Dbl_Transactions\<close>).
\<close>

section \<open>A server\<close>

text \<open>
  Completed operations, as Boost.Asio delivers them.  \<open>Accepted token known\<close> is a new connection:
  the token is the one its constructor draws, and \<open>known\<close> says whether \<open>remote_endpoint\<close> still
  finds the peer (it throws when the peer has gone, and nothing catches that in the thread).
\<close>

datatype net_event =
    Accepted string bool
  | Accept_failed
  | Delivered nat string bool
  | Lost nat

datatype server_state = Serving | Stopped | Terminated

record ('c, 's) server =
  se_shared :: 's
  se_conns :: "nat \<Rightarrow> 'c option"
  se_next :: nat
  se_sent :: "(nat \<times> string) list"
  se_state :: server_state

definition new_server :: "'s \<Rightarrow> ('c, 's) server" where
  "new_server s = \<lparr>se_shared = s, se_conns = (\<lambda>i. None), se_next = 0, se_sent = [], se_state = Serving\<rparr>"

text \<open>The handler of a completed read: process, reply, and read again when the write succeeds.\<close>

definition server_request ::
  "(string \<Rightarrow> 'c \<times> 's \<Rightarrow> string outcome \<times> 'c \<times> 's) \<Rightarrow> ('c \<Rightarrow> bool) \<Rightarrow> bool
   \<Rightarrow> nat \<Rightarrow> 'c \<Rightarrow> string \<Rightarrow> bool \<Rightarrow> ('c, 's) server \<Rightarrow> ('c, 's) server" where
  "server_request process is_open debug i c request written s =
     (let (r, c', sh) = process request (c, se_shared s); s = s\<lparr>se_shared := sh\<rparr>
      in (case reply_of debug r of
            None \<Rightarrow> s\<lparr>se_state := Terminated\<rparr>
          | Some response \<Rightarrow>
              if written \<and> is_open c'
              then s\<lparr>se_conns := (se_conns s)(i \<mapsto> c'), se_sent := se_sent s @ [(i, response)]\<rparr>
              else s\<lparr>se_conns := (se_conns s)(i := None)\<rparr>))"

text \<open>\<open>accept\<close>: the handler makes the connection and accepts again, also after an error.\<close>

definition server_accept ::
  "(string \<Rightarrow> 's \<Rightarrow> 'c \<times> 's) \<Rightarrow> string \<Rightarrow> bool \<Rightarrow> ('c, 's) server \<Rightarrow> ('c, 's) server" where
  "server_accept new token known s =
     (if \<not> known then s\<lparr>se_state := Terminated\<rparr>
      else (let (c, sh) = new token (se_shared s)
            in s\<lparr>se_shared := sh, se_conns := (se_conns s)(se_next s \<mapsto> c), se_next := se_next s + 1\<rparr>))"

fun serve ::
  "(string \<Rightarrow> 's \<Rightarrow> 'c \<times> 's) \<Rightarrow> (string \<Rightarrow> 'c \<times> 's \<Rightarrow> string outcome \<times> 'c \<times> 's)
   \<Rightarrow> ('c \<Rightarrow> bool) \<Rightarrow> bool \<Rightarrow> net_event \<Rightarrow> ('c, 's) server \<Rightarrow> ('c, 's) server" where
  "serve new process is_open debug (Accepted token known) s =
     (if se_state s \<noteq> Serving then s else server_accept new token known s)"
| "serve new process is_open debug Accept_failed s = s"
| "serve new process is_open debug (Delivered i request written) s =
     (if se_state s \<noteq> Serving then s
      else (case se_conns s i of
              None \<Rightarrow> s
            | Some c \<Rightarrow> server_request process is_open debug i c request written s))"
| "serve new process is_open debug (Lost i) s =
     (if se_state s \<noteq> Serving then s else s\<lparr>se_conns := (se_conns s)(i := None)\<rparr>)"

text \<open>\<open>Server::stop\<close>, which the destructor calls, too.\<close>

definition server_stop :: "('c, 's) server \<Rightarrow> ('c, 's) server" where
  "server_stop s = (if se_state s = Serving then s\<lparr>se_state := Stopped\<rparr> else s)"

section \<open>What every server promises\<close>

text \<open>
  The contract of a connection type: an invariant of the shared state that the constructor and the
  handler keep.  Every server keeps it then, whatever its connections do and however they
  interleave.
\<close>

locale connection_type =
  fixes new :: "string \<Rightarrow> 's \<Rightarrow> 'c \<times> 's"
    and process :: "string \<Rightarrow> 'c \<times> 's \<Rightarrow> string outcome \<times> 'c \<times> 's"
    and is_open :: "'c \<Rightarrow> bool"
    and shared_inv :: "'s \<Rightarrow> bool"
  assumes new_inv: "shared_inv s \<Longrightarrow> shared_inv (snd (new token s))"
    and process_inv: "shared_inv s \<Longrightarrow> shared_inv (snd (snd (process request (c, s))))"
begin

lemma request_inv:
  "shared_inv (se_shared s) \<Longrightarrow>
   shared_inv (se_shared (server_request process is_open debug i c request written s))"
  using process_inv [of "se_shared s" request c]
  by (auto simp: server_request_def Let_def case_prod_beta split: option.split)

lemma accept_inv:
  "shared_inv (se_shared s) \<Longrightarrow> shared_inv (se_shared (server_accept new token known s))"
  using new_inv [of "se_shared s" token] by (auto simp: server_accept_def Let_def case_prod_beta)

lemma serve_inv:
  "shared_inv (se_shared s) \<Longrightarrow> shared_inv (se_shared (serve new process is_open debug e s))"
  by (cases e) (auto simp: request_inv accept_inv split: option.split)

lemma run_shared_inv:
  "shared_inv (se_shared s) \<Longrightarrow> shared_inv (se_shared (fold (serve new process is_open debug) es s))"
  by (induction es arbitrary: s) (simp_all add: serve_inv)

end

text \<open>A connection only ever changes itself: the other connections keep their state.\<close>

definition concerns :: "net_event \<Rightarrow> nat \<Rightarrow> bool" where
  "concerns e i \<longleftrightarrow> (case e of Delivered j r w \<Rightarrow> j = i | Lost j \<Rightarrow> j = i | _ \<Rightarrow> False)"

lemma request_others:
  "j \<noteq> i \<Longrightarrow> se_conns (server_request process is_open debug i c request written s) j = se_conns s j"
  by (auto simp: server_request_def Let_def case_prod_beta split: option.split)

lemma request_next [simp]:
  "se_next (server_request process is_open debug i c request written s) = se_next s"
  by (auto simp: server_request_def Let_def case_prod_beta split: option.split)

lemma serve_others:
  "\<not> concerns e i \<Longrightarrow> i < se_next s \<Longrightarrow> se_conns (serve new process is_open debug e s) i = se_conns s i"
  by (cases e) (auto simp: concerns_def server_accept_def Let_def case_prod_beta request_others
      split: option.split)

text \<open>The events of one connection alone are the run of \<open>Dbl_Connection\<close>.\<close>

fun delivered :: "nat \<Rightarrow> read_event \<Rightarrow> net_event" where
  "delivered i (Received request written) = Delivered i request written"
| "delivered i Read_error = Lost i"

lemma serve_idle:
  "se_state s \<noteq> Serving \<or> se_conns s i = None \<Longrightarrow>
   fold (serve new process is_open debug) (map (delivered i) es) s = s"
proof (induction es)
  case (Cons e es)
  then show ?case by (cases e) (auto simp: fun_upd_idem)
qed simp

lemma serve_one_run:
  assumes "se_state s = Serving" and "se_conns s i = Some c"
    and "connection_run process (\<lambda>cs. is_open (fst cs)) debug es (c, se_shared s) = ((rs, fin), c', sh)"
    and "fold (serve new process is_open debug) (map (delivered i) es) s = s'"
  shows "se_shared s' = sh \<and> se_sent s' = se_sent s @ map (Pair i) rs \<and>
    (fin = Waiting \<longrightarrow> se_conns s' i = Some c' \<and> se_state s' = Serving) \<and>
    (fin = Closed \<longrightarrow> se_conns s' i = None \<and> se_state s' = Serving) \<and>
    (fin = Aborted \<longrightarrow> se_state s' = Terminated)"
  using assms
proof (induction es arbitrary: s c rs)
  case (Cons e es)
  show ?case
  proof (cases e)
    case Read_error
    with Cons.prems show ?thesis by (auto simp: serve_idle)
  next
    case (Received request written)
    obtain r c1 sh1 where p: "process request (c, se_shared s) = (r, c1, sh1)"
      by (metis surj_pair)
    show ?thesis
    proof (cases "reply_of debug r")
      case None
      with Cons.prems Received p show ?thesis
        by (auto simp: server_request_def serve_idle)
    next
      case (Some response)
      show ?thesis
      proof (cases "written \<and> is_open c1")
        case False
        with Some Cons.prems Received p show ?thesis
          by (auto simp: server_request_def serve_idle)
      next
        case True
        let ?s1 = "s\<lparr>se_shared := sh1, se_conns := (se_conns s)(i \<mapsto> c1),
          se_sent := se_sent s @ [(i, response)]\<rparr>"
        obtain rs1 where rs1: "rs = response # rs1"
          "connection_run process (\<lambda>cs. is_open (fst cs)) debug es (c1, sh1) = ((rs1, fin), c', sh)"
          using True Some Cons.prems(3) Received p by (auto simp: case_prod_beta Let_def prod_eq_iff)
        have "serve new process is_open debug (delivered i e) s = ?s1"
          using True Some Cons.prems(1,2) Received p by (simp add: server_request_def)
        then show ?thesis
          using Cons.IH [of ?s1 c1 rs1] Cons.prems rs1 by simp
      qed
    qed
  qed
qed simp

section \<open>The two servers of the worker\<close>

definition json_serve :: "libs \<Rightarrow> bool \<Rightarrow> net_event \<Rightarrow> (connection, service) server
    \<Rightarrow> (connection, service) server" where
  "json_serve E debug = serve (new_connection E) (service_process E) cn_open debug"

text \<open>A connection of the responder has no state of its own.\<close>

definition responder_request ::
  "config \<Rightarrow> string \<Rightarrow> unit \<times> responder \<Rightarrow> string outcome \<times> unit \<times> responder" where
  "responder_request cfg request us = (let (r, s) = responder_process cfg request (snd us) in (r, (), s))"

definition http_serve :: "config \<Rightarrow> net_event \<Rightarrow> (unit, responder) server \<Rightarrow> (unit, responder) server" where
  "http_serve cfg = serve (\<lambda>token s. ((), s)) (responder_request cfg) (\<lambda>c. True) (is_debug cfg)"

text \<open>Both servers work on one database; the one of the service is the current one.\<close>

record system =
  sy_json :: "(connection, service) server"
  sy_http :: "(unit, responder) server"

abbreviation sy_db :: "system \<Rightarrow> db" where
  "sy_db y \<equiv> sv_db (se_shared (sy_json y))"

definition put_db :: "db \<Rightarrow> system \<Rightarrow> system" where
  "put_db d y = y\<lparr>sy_json := (sy_json y)\<lparr>se_shared := (se_shared (sy_json y))\<lparr>sv_db := d\<rparr>\<rparr>\<rparr>"

definition json_event :: "libs \<Rightarrow> bool \<Rightarrow> net_event \<Rightarrow> system \<Rightarrow> system" where
  "json_event E debug e y = y\<lparr>sy_json := json_serve E debug e (sy_json y)\<rparr>"

definition http_event :: "config \<Rightarrow> net_event \<Rightarrow> system \<Rightarrow> system" where
  "http_event cfg e y =
     (let h = sy_http y;
          h = http_serve cfg e (h\<lparr>se_shared := (se_shared h)\<lparr>rp_db := sy_db y\<rparr>\<rparr>)
      in put_db (rp_db (se_shared h)) (y\<lparr>sy_http := h\<rparr>))"

definition new_system :: "service \<Rightarrow> system" where
  "new_system s = \<lparr>sy_json = new_server s, sy_http = new_server \<lparr>rp_db = sv_db s, rp_seen = Map.empty\<rparr>\<rparr>"

text \<open>One step of the worker: an event of one of its servers, or a transaction of another thread
  or process.\<close>

inductive system_step :: "libs \<Rightarrow> config \<Rightarrow> system \<Rightarrow> system \<Rightarrow> bool" for E cfg where
  step_json: "system_step E cfg y (json_event E (is_debug cfg) e y)"
| step_http: "system_step E cfg y (http_event cfg e y)"
| step_other: "db_txn (sy_db y) d \<Longrightarrow> system_step E cfg y (put_db d y)"

lemma put_db_sel [simp]:
  "sy_db (put_db d y) = d" "sy_http (put_db d y) = sy_http y"
  "se_conns (sy_json (put_db d y)) = se_conns (sy_json y)"
  "sv_stop (se_shared (sy_json (put_db d y))) = sv_stop (se_shared (sy_json y))"
  "sv_status (se_shared (sy_json (put_db d y))) = sv_status (se_shared (sy_json y))"
  by (simp_all add: put_db_def)

text \<open>
  \<open>Worker::stop_servers\<close>: both servers are stopped, the threads end with them, and the connections
  go with the servers.
\<close>

definition stop_servers :: "system \<Rightarrow> system" where
  "stop_servers y =
     y\<lparr>sy_json := (server_stop (sy_json y))\<lparr>se_conns := (\<lambda>i. None)\<rparr>,
         sy_http := (server_stop (sy_http y))\<lparr>se_conns := (\<lambda>i. None)\<rparr>\<rparr>"

section \<open>The contracts hold\<close>

lemma new_connection_txns: "db_txns (sv_db s) (sv_db (snd (new_connection E token s)))"
  using step_txns [OF auth_auth_step [where d = "sv_db s" and H = "le_digest E"
      and a = "\<lparr>auth_token = token\<rparr>" and h = "[]" and R = "le_resolver E"]]
  by (simp add: new_connection_def Let_def case_prod_beta)

lemma service_process_txns: "db_txns (sv_db (snd cs)) (sv_db (snd (snd (service_process E request cs))))"
  using process_json_one_step [of E cs request] step_txns
  by (auto simp: service_process_state one_step_def)

interpretation json: connection_type "new_connection E" "service_process E" cn_open
  "\<lambda>s. db_txns d (sv_db s)" for E d
proof
  fix s :: service and token c request
  assume d: "db_txns d (sv_db s)"
  show "db_txns d (sv_db (snd (new_connection E token s)))"
    using d new_connection_txns by (rule rtranclp_trans)
  show "db_txns d (sv_db (snd (snd (service_process E request (c, s)))))"
    using d service_process_txns [of "(c, s)" E request] by (auto intro: rtranclp_trans)
qed

text \<open>What the responder may change: the statistics, and without a fault nothing else.\<close>

definition stats_only :: "db \<Rightarrow> db \<Rightarrow> bool" where
  "stats_only d d' \<longleftrightarrow> db_txns d d' \<and> db_settings d' = db_settings d \<and> db_lists d' = db_lists d \<and>
     db_domains d' = db_domains d \<and> (db_faults d = [] \<longrightarrow> db_faults d' = [])"

lemma stats_only_refl [simp]: "stats_only d d"
  by (simp add: stats_only_def)

lemma stats_only_trans: "stats_only a b \<Longrightarrow> stats_only b c \<Longrightarrow> stats_only a c"
  by (auto simp: stats_only_def)

lemma stats_only_hit: "stats_only d (snd (log_domain_hit n seen d))"
  unfolding stats_only_def
proof (intro conjI)
  obtain f d1 where tf: "take_fault d = (f, d1)" by (cases "take_fault d")
  then obtain fs where d1: "d1 = d\<lparr>db_faults := fs\<rparr>" using take_fault_tables by blast
  let ?d' = "snd (log_domain_hit n seen d)"
  have "db_settings ?d' = db_settings d \<and> db_lists ?d' = db_lists d \<and> db_domains ?d' = db_domains d"
    using tf by (simp add: d1 log_domain_hit_def hit_rows_def Let_def sql_increment_hits_def
      sql_insert_or_ignore_stat_def split: list.split fate.split option.split)
  then show "db_settings ?d' = db_settings d" "db_lists ?d' = db_lists d" "db_domains ?d' = db_domains d"
    by simp_all
  show "db_faults d = [] \<longrightarrow> db_faults ?d' = []"
    by (simp add: take_fault_none log_domain_hit_def hit_rows_def Let_def sql_increment_hits_def
      sql_insert_or_ignore_stat_def)
qed (rule txns_hit)

lemma stats_only_responder: "stats_only (rp_db s) (rp_db (snd (responder_process cfg request s)))"
  using stats_only_hit [of "rp_db s"]
  by (auto simp: responder_process_def case_prod_beta Let_def split: option.split)

interpretation http: connection_type "\<lambda>token s. ((), s)" "responder_request cfg" "\<lambda>c. True"
  "\<lambda>s. stats_only d (rp_db s)" for cfg d
proof
  fix s :: responder and c :: unit and request
  assume d: "stats_only d (rp_db s)"
  show "stats_only d (rp_db (snd (snd (responder_request cfg request (c, s)))))"
    using stats_only_trans [OF d stats_only_responder]
    by (simp add: responder_request_def case_prod_beta Let_def)
qed simp

lemma json_event_txns: "db_txns (sy_db y) (sy_db (json_event E debug e y))"
  using json.serve_inv [of "sy_db y" "sy_json y" E debug e] by (simp add: json_event_def json_serve_def)

lemma http_event_stats: "stats_only (sy_db y) (sy_db (http_event cfg e y))"
  using http.serve_inv [of "sy_db y" "(sy_http y)\<lparr>se_shared := (se_shared (sy_http y))\<lparr>rp_db := sy_db y\<rparr>\<rparr>"
      cfg "is_debug cfg" e]
  by (simp add: http_event_def http_serve_def Let_def)

lemma system_step_txns: "system_step E cfg y y' \<Longrightarrow> db_txns (sy_db y) (sy_db y')"
proof (induction rule: system_step.induct)
  case (step_json y e)
  show ?case by (rule json_event_txns)
next
  case (step_http y e)
  show ?case using http_event_stats [of y cfg e] by (simp add: stats_only_def)
next
  case (step_other y d)
  then show ?case by (simp add: r_into_rtranclp)
qed

lemma system_steps_txns: "(system_step E cfg)\<^sup>*\<^sup>* y y' \<Longrightarrow> db_txns (sy_db y) (sy_db y')"
  by (induction rule: rtranclp_induct) (auto intro: rtranclp_trans system_step_txns)

section \<open>Properties of the system\<close>

text \<open>C2: However the connections of both servers and the other threads interleave, and whatever
  sessions fail, a worker that starts from a reachable database keeps the schema and the flags of
  the lists.\<close>

theorem system_keeps_database:
  assumes "db_reachable R (sv_db s)" and "(system_step E cfg)\<^sup>*\<^sup>* (new_system s) y"
  shows "db_wf (sy_db y) \<and> list_flags (sy_db y)"
proof -
  have "db_txns (sv_db s) (sy_db y)"
    using system_steps_txns [OF assms(2)] by (simp add: new_system_def new_server_def)
  then show ?thesis
    using txns_invariant reachable_wf [OF assms(1)] reachable_flags [OF assms(1)] by blast
qed

text \<open>Nothing a client of the HTTP responder sends changes a setting, a list or a domain: requests
  of the redirected hosts reach the statistics only.\<close>

theorem responder_changes_statistics_only:
  "stats_only (sy_db y) (sy_db (fold (http_event cfg) es y))"
proof (induction es arbitrary: y)
  case (Cons e es)
  have "stats_only (sy_db (http_event cfg e y)) (sy_db (fold (http_event cfg) es (http_event cfg e y)))"
    by (rule Cons.IH)
  with http_event_stats [of y cfg e] show ?case by (auto intro: stats_only_trans)
qed simp

subsection \<open>Clients without the password\<close>

text \<open>The event carries no digest of the password \<open>p\<close> and the token of its connection.\<close>

definition wrong_guess :: "libs \<Rightarrow> string \<Rightarrow> (connection, service) server \<Rightarrow> net_event \<Rightarrow> bool" where
  "wrong_guess E p s e \<longleftrightarrow>
     (case e of
        Delivered i request w \<Rightarrow>
          (case se_conns s i of
             None \<Rightarrow> True
           | Some c \<Rightarrow> request_hash (le_json E) request
               \<noteq> Some (md5 (le_digest E) (p @ auth_token (cn_auth c))))
      | _ \<Rightarrow> True)"

text \<open>The worker under attack; \<open>W\<close> is what the other threads do to the database.\<close>

inductive intruder_step ::
  "libs \<Rightarrow> config \<Rightarrow> (db \<Rightarrow> db \<Rightarrow> bool) \<Rightarrow> string \<Rightarrow> system \<Rightarrow> system \<Rightarrow> bool" for E cfg W p where
  intrude_json: "wrong_guess E p (sy_json y) e \<Longrightarrow>
    intruder_step E cfg W p y (json_event E (is_debug cfg) e y)"
| intrude_http: "intruder_step E cfg W p y (http_event cfg e y)"
| intrude_other: "W (sy_db y) d \<Longrightarrow> intruder_step E cfg W p y (put_db d y)"

definition locked :: "string \<Rightarrow> service \<Rightarrow> (connection, service) server \<Rightarrow> bool" where
  "locked p s0 s \<longleftrightarrow> db_faults (sv_db (se_shared s)) = [] \<and> password (sv_db (se_shared s)) = p \<and>
     sv_stop (se_shared s) = sv_stop s0 \<and> sv_status (se_shared s) = sv_status s0 \<and>
     (\<forall>i c. se_conns s i = Some c \<longrightarrow> \<not> cn_authenticated c)"

lemma locked_serve:
  assumes "digest_ok (le_digest E)" and "p \<noteq> []" and "locked p s0 s" and "wrong_guess E p s e"
  shows "se_shared (json_serve E debug e s) = se_shared s \<and> locked p s0 (json_serve E debug e s)"
proof (cases e)
  case (Accepted token known)
  have "auth_auth (le_digest E) \<lparr>auth_token = token\<rparr> [] (sv_db (se_shared s)) = (False, sv_db (se_shared s))"
    using assms by (simp add: locked_def auth_auth_ok)
  then have "new_connection E token (se_shared s) =
      (\<lparr>cn_auth = \<lparr>auth_token = token\<rparr>, cn_authenticated = False, cn_open = True\<rparr>, se_shared s)"
    by (simp add: new_connection_def)
  with Accepted assms(3) show ?thesis
    by (auto simp: json_serve_def server_accept_def locked_def split: if_splits)
next
  case (Delivered i request w)
  show ?thesis
  proof (cases "se_conns s i")
    case (Some c)
    with assms Delivered have "snd (process_json E request (c, se_shared s)) = (c, se_shared s)"
      by (intro process_wrong_hash) (simp_all add: locked_def wrong_guess_def)
    then obtain r where "service_process E request (c, se_shared s) = (r, c, se_shared s)"
      by (metis prod.collapse service_process_state)
    with Some Delivered assms(3) show ?thesis
      by (auto simp: json_serve_def server_request_def locked_def split: option.splits if_splits)
  qed (use Delivered assms(3) in \<open>simp add: json_serve_def\<close>)
qed (use assms(3) in \<open>auto simp: json_serve_def locked_def split: if_splits\<close>)

lemma password_settings:
  "db_faults d = [] \<Longrightarrow> db_faults d' = [] \<Longrightarrow> db_settings d' = db_settings d \<Longrightarrow> password d' = password d"
  by (simp add: password_def sm_get_ok setting_map_def)

lemma locked_put_db:
  assumes "locked p s0 (sy_json y)" and "db_settings d = db_settings (sy_db y)" and "db_faults d = []"
  shows "locked p s0 (sy_json (put_db d y))"
  using assms password_settings [of "sy_db y" d]
  by (simp add: locked_def put_db_def)

lemma http_event_json:
  "sy_json (http_event cfg e y) = sy_json (put_db (sy_db (http_event cfg e y)) y)"
  by (simp add: http_event_def put_db_def Let_def)


subsection \<open>Connections and accepting\<close>

text \<open>Connections are isolated: what happens on the other connections, and accepting new ones,
  leaves the state of a connection (its token, whether it is authenticated, whether it is open)
  as it was.\<close>

theorem connections_isolated:
  assumes "i < se_next s" and "\<forall>e \<in> set es. \<not> concerns e i"
  shows "se_conns (fold (serve new process is_open debug) es s) i = se_conns s i"
  using assms
proof (induction es arbitrary: s)
  case (Cons e es)
  have "se_next s \<le> se_next (serve new process is_open debug e s)"
    by (cases e) (auto simp: server_accept_def Let_def case_prod_beta split: option.split)
  with Cons.prems have "i < se_next (serve new process is_open debug e s)" by simp
  with Cons.IH Cons.prems show ?case by (simp add: serve_others)
qed simp


text \<open>The responder's server serves on whatever its clients send and however accepting and reading
  fail; the one exception is a peer that is gone before its connection is handled: the exception of
  \<open>remote_endpoint\<close> leaves the thread and ends the process.\<close>

theorem responder_server_survives:
  "se_state (fold (http_serve cfg) es (new_server s)) = Serving \<longleftrightarrow>
     (\<forall>token. Accepted token False \<notin> set es)"
proof -
  have total: "se_state (http_serve cfg e s) =
      (if se_state s = Serving \<and> (\<exists>token. e = Accepted token False) then Terminated else se_state s)"
    for e s
    by (cases e) (auto simp: http_serve_def server_accept_def server_request_def responder_request_def
        responder_process_def reply_of_def Let_def case_prod_beta split: option.split)
  have "se_state (fold (http_serve cfg) es s) = Serving \<longleftrightarrow>
      se_state s = Serving \<and> (\<forall>token. Accepted token False \<notin> set es)" for s
    by (induction es arbitrary: s) (auto simp: total)
  then show ?thesis by (simp add: new_server_def)
qed

lemma fold_fixed: "(\<And>e. f e s = s) \<Longrightarrow> fold f es s = s"
  by (induction es) simp_all

text \<open>After \<open>stop_servers\<close> nothing a client sends is processed any more: no event of either server
  changes anything.\<close>

theorem stopped_servers_are_deaf:
  "fold (json_serve E debug) es (sy_json (stop_servers y)) = sy_json (stop_servers y) \<and>
    fold (http_serve cfg) es (sy_http (stop_servers y)) = sy_http (stop_servers y)"
proof -
  have json: "json_serve E debug e (sy_json (stop_servers y)) = sy_json (stop_servers y)" for e
    by (cases e) (simp_all add: json_serve_def stop_servers_def server_stop_def)
  have http: "http_serve cfg e (sy_http (stop_servers y)) = sy_http (stop_servers y)" for e
    by (cases e) (simp_all add: http_serve_def stop_servers_def server_stop_def)
  show ?thesis by (intro conjI fold_fixed json http)
qed

end
