(* ===== verification/Dbl_Socket.thy ===== *)
theory Dbl_Socket
  imports Dbl_Prelude
begin

text \<open>
  The socket of the client library (\<open>src/dblclient/net/service_connection.cxx\<close>): opening and
  writing under a deadline.  Each operation starts an asynchronous operation and runs completed
  handlers one by one until its own has run; the handlers are events: the timer, with the time at
  which its handler runs, and the completion of the operation, with its error.
\<close>

section \<open>State and handlers\<close>

text \<open>\<open>deadline_\<close> is \<open>None\<close> at positive infinity.\<close>

record client_socket =
  cs_open :: bool
  cs_deadline :: "int option"

datatype socket_handler = Timer int | Completed "string option"

definition check_deadline :: "int \<Rightarrow> client_socket \<Rightarrow> client_socket" where
  "check_deadline now s =
     (case cs_deadline s of
        None \<Rightarrow> s
      | Some t \<Rightarrow> if t \<le> now then s\<lparr>cs_open := False, cs_deadline := None\<rparr> else s)"

definition new_client_socket :: "int \<Rightarrow> client_socket" where
  "new_client_socket now = check_deadline now \<lparr>cs_open = False, cs_deadline = None\<rparr>"

text \<open>
  The loop \<open>do run_one while would_block\<close>: the error of the completed operation, or \<open>None\<close> when the
  handlers run out first (the call goes on waiting).
\<close>

fun run_until_done :: "socket_handler list \<Rightarrow> client_socket \<Rightarrow> (string option \<times> client_socket) option" where
  "run_until_done [] s = None"
| "run_until_done (Timer now # hs) s = run_until_done hs (check_deadline now s)"
| "run_until_done (Completed e # hs) s = Some (e, s)"

section \<open>Operations\<close>

text \<open>
  \<open>open\<close>: \<open>parse\<close> is \<open>ip::address::from_string\<close>, which throws a \<open>system_error\<close> when the text is no
  address; the exception specification allows \<open>DBLClientError\<close> only, so the client ends then.  A
  connect that completes without error opens the socket, unless the timer has closed it.
\<close>

definition client_open ::
  "(string \<Rightarrow> bool) \<Rightarrow> string \<Rightarrow> int \<Rightarrow> int \<Rightarrow> socket_handler list \<Rightarrow> client_socket
   \<Rightarrow> (unit outcome \<times> client_socket) option" where
  "client_open is_address address now timeout hs s =
     (let s = s\<lparr>cs_open := False\<rparr>
      in if \<not> is_address address then Some (Crash, s)
         else (let s = s\<lparr>cs_open := True, cs_deadline := Some (now + timeout)\<rparr>
               in (case run_until_done hs s of
                     None \<Rightarrow> None
                   | Some (error, s) \<Rightarrow>
                       Some (if error \<noteq> None \<or> \<not> cs_open s
                             then Throw (RuntimeError ''Cannot connect'') else Ok (), s))))"

definition client_write ::
  "int \<Rightarrow> int \<Rightarrow> socket_handler list \<Rightarrow> client_socket \<Rightarrow> (unit outcome \<times> client_socket) option" where
  "client_write now timeout hs s =
     (case run_until_done hs (s\<lparr>cs_deadline := Some (now + timeout)\<rparr>) of
        None \<Rightarrow> None
      | Some (error, s) \<Rightarrow>
          Some (case error of Some m \<Rightarrow> Throw (RuntimeError m) | None \<Rightarrow> Ok (), s))"

section \<open>Properties\<close>

fun overdue :: "int \<Rightarrow> socket_handler \<Rightarrow> bool" where
  "overdue t (Timer now) = (t \<le> now)"
| "overdue t (Completed e) = False"

fun is_completed :: "socket_handler \<Rightarrow> bool" where
  "is_completed (Completed e) = True"
| "is_completed (Timer now) = False"

text \<open>The socket after the handlers before the completion: closed exactly when one was overdue.\<close>

lemma run_timers:
  assumes "\<forall>h \<in> set hs. \<not> is_completed h"
  shows "run_until_done (hs @ Completed e # rest) s =
    Some (e, if \<exists>t h. cs_deadline s = Some t \<and> h \<in> set hs \<and> overdue t h
             then s\<lparr>cs_open := False, cs_deadline := None\<rparr> else s)"
  using assms
proof (induction hs arbitrary: s)
  case (Cons h hs)
  from Cons.prems obtain now where h: "h = Timer now" by (cases h) auto
  show ?case
  proof (cases "cs_deadline s")
    case None
    with h Cons show ?thesis by (simp add: check_deadline_def)
  next
    case (Some t)
    with h Cons show ?thesis by (auto simp: check_deadline_def)
  qed
qed simp

text \<open>Opening the connection succeeds exactly when the connect completes without error before a
  timer handler runs at or after the deadline; otherwise it throws the client's own error.  A text
  that is no address, a host name for instance, ends the client.\<close>

theorem client_open_deadline:
  assumes "\<forall>h \<in> set hs. \<not> is_completed h"
  shows "map_option fst (client_open is_address address now timeout (hs @ Completed e # rest) s) =
    Some (if \<not> is_address address then Crash
          else if e = None \<and> (\<forall>h \<in> set hs. \<not> overdue (now + timeout) h) then Ok ()
          else Throw (RuntimeError ''Cannot connect''))"
  using run_timers [OF assms, of e rest "s\<lparr>cs_open := True, cs_deadline := Some (now + timeout)\<rparr>"]
  by (auto simp: client_open_def)

text \<open>A write that the deadline interrupts leaves the socket closed: the operation that completes
  afterwards reports its error, and no deadline is pending any more.\<close>

theorem client_write_deadline:
  assumes "\<forall>h \<in> set hs. \<not> is_completed h" and "h \<in> set hs" and "overdue (now + timeout) h"
  shows "client_write now timeout (hs @ Completed (Some m) # rest) s =
    Some (Throw (RuntimeError m), s\<lparr>cs_open := False, cs_deadline := None\<rparr>)"
  using run_timers [OF assms(1), of "Some m" rest "s\<lparr>cs_deadline := Some (now + timeout)\<rparr>"] assms(2,3)
  by (auto simp: client_write_def)

end
