(* ===== verification/Dbl_Reference.thy ===== *)
theory Dbl_Reference
  imports Dbl_Signals Dbl_Pool Dbl_Enforcement Dbl_Suite Dbl_System Dbl_Socket
begin

text \<open>
  One concrete instance of every parameter of the model: a writer and parser of compact JSON, a
  resolver, a digest, a network without errors, and the databases, options and processes the
  witnesses of the properties run on.  It shows that the hypotheses about the library code can
  hold together.
\<close>

section \<open>Compact JSON\<close>

definition Quote :: char where "Quote = CHR 0x22"
definition Backslash :: char where "Backslash = CHR 0x5C"

fun escape_string :: "string \<Rightarrow> string" where
  "escape_string [] = [Quote]"
| "escape_string (c # s) =
     (if c = Quote \<or> c = Backslash then Backslash # c # escape_string s else c # escape_string s)"

fun unescape_string :: "string \<Rightarrow> (string \<times> string) option" where
  "unescape_string [] = None"
| "unescape_string [c] = (if c = Quote then Some ([], []) else None)"
| "unescape_string (c # d # s) =
     (if c = Quote then Some ([], d # s)
      else if c = Backslash then map_option (\<lambda>(x, r). (d # x, r)) (unescape_string s)
      else map_option (\<lambda>(x, r). (c # x, r)) (unescape_string (d # s)))"

fun write_json :: "json \<Rightarrow> string"
  and write_items :: "bool \<Rightarrow> json list \<Rightarrow> string"
  and write_members :: "bool \<Rightarrow> (string \<times> json) list \<Rightarrow> string" where
  "write_json JNull = ''null''"
| "write_json (JBool True) = ''true''"
| "write_json (JBool False) = ''false''"
| "write_json (JInt i) = show_int i"
| "write_json (JReal s) = s"
| "write_json (JString s) = Quote # escape_string s"
| "write_json (JArray vs) = CHR ''['' # write_items True vs"
| "write_json (JObject kvs) = CHR ''{'' # write_members True kvs"
| "write_items first [] = '']''"
| "write_items first (v # vs) = (if first then [] else '','') @ write_json v @ write_items False vs"
| "write_members first [] = ''}''"
| "write_members first ((k, v) # kvs) =
     (if first then [] else '','') @ Quote # escape_string k @ CHR '':'' # write_json v @
     write_members False kvs"

fun read_json :: "nat \<Rightarrow> string \<Rightarrow> (json \<times> string) option"
  and read_items :: "nat \<Rightarrow> bool \<Rightarrow> string \<Rightarrow> (json list \<times> string) option"
  and read_members :: "nat \<Rightarrow> bool \<Rightarrow> string \<Rightarrow> ((string \<times> json) list \<times> string) option" where
  "read_json 0 s = None"
| "read_json (Suc n) s =
     (case s of
        [] \<Rightarrow> None
      | c # r \<Rightarrow>
          if c = CHR ''n'' then Some (JNull, drop 3 r)
          else if c = CHR ''t'' then Some (JBool True, drop 3 r)
          else if c = CHR ''f'' then Some (JBool False, drop 4 r)
          else if c = Quote then map_option (\<lambda>(x, r). (JString x, r)) (unescape_string r)
          else if c = CHR ''['' then map_option (\<lambda>(x, r). (JArray x, r)) (read_items n True r)
          else if c = CHR ''{'' then map_option (\<lambda>(x, r). (JObject x, r)) (read_members n True r)
          else if c = CHR ''-''
          then Some (JInt (- digits_value (takeWhile is_digit r)), dropWhile is_digit r)
          else if is_digit c
          then Some (JInt (digits_value (takeWhile is_digit s)), dropWhile is_digit s)
          else None)"
| "read_items 0 first s = None"
| "read_items (Suc n) first s =
     (case s of
        [] \<Rightarrow> None
      | c # r \<Rightarrow>
          if c = CHR '']'' then Some ([], r)
          else (case read_json n (if first then s else r) of
                  None \<Rightarrow> None
                | Some (v, r) \<Rightarrow> map_option (\<lambda>(vs, r). (v # vs, r)) (read_items n False r)))"
| "read_members 0 first s = None"
| "read_members (Suc n) first s =
     (case s of
        [] \<Rightarrow> None
      | c # r \<Rightarrow>
          if c = CHR ''}'' then Some ([], r)
          else (case unescape_string (drop 1 (if first then s else r)) of
                  None \<Rightarrow> None
                | Some (k, r) \<Rightarrow>
                    (case read_json n (drop 1 r) of
                       None \<Rightarrow> None
                     | Some (v, r) \<Rightarrow> map_option (\<lambda>(kvs, r). ((k, v) # kvs, r)) (read_members n False r))))"

definition parse_text :: "string \<Rightarrow> string + json" where
  "parse_text s =
     (case read_json (Suc (length s)) s of
        Some (v, []) \<Rightarrow> Inr v
      | _ \<Rightarrow> Inl ''Syntax error: value, object or array expected.'')"

fun as_string :: "json \<Rightarrow> exn + string" where
  "as_string JNull = Inr []"
| "as_string (JBool b) = Inr (if b then ''true'' else ''false'')"
| "as_string (JInt i) = Inr (show_int i)"
| "as_string (JString s) = Inr s"
| "as_string v = Inl (OtherException ''Type is not convertible to string'')"

fun as_int :: "json \<Rightarrow> exn + int" where
  "as_int JNull = Inr 0"
| "as_int (JBool b) = Inr (if b then 1 else 0)"
| "as_int (JInt i) = (if is_int32 i then Inr i else Inl (OtherException ''LargestInt out of Int range''))"
| "as_int v = Inl (OtherException ''Value is not convertible to Int.'')"

fun as_bool :: "json \<Rightarrow> exn + bool" where
  "as_bool JNull = Inr False"
| "as_bool (JBool b) = Inr b"
| "as_bool (JInt i) = Inr (i \<noteq> 0)"
| "as_bool v = Inl (OtherException ''Value is not convertible to bool.'')"

definition ref_json :: jsoncpp where
  "ref_json = \<lparr>jc_parse = parse_text, jc_styled = write_json, jc_as_string = as_string,
     jc_as_int = as_int, jc_as_bool = as_bool,
     jc_index_exn = (\<lambda>v. OtherException ''in Json::Value::resolveReference(): requires objectValue'')\<rparr>"

lemma ref_json_ok: "jsoncpp_ok ref_json"
  by (simp add: jsoncpp_ok_def ref_json_def)

lemma unescape_escape: "unescape_string (escape_string s @ r) = Some (s, r)"
proof (induction s)
  case Nil
  show ?case by (cases r) simp_all
next
  case (Cons c s)
  have other: "unescape_string (c # t) = map_option (\<lambda>(x, r). (c # x, r)) (unescape_string t)"
    if "c \<noteq> Quote" "c \<noteq> Backslash" for t
    using that by (cases t) simp_all
  have escaped: "unescape_string (Backslash # c # t) = map_option (\<lambda>(x, r). (c # x, r)) (unescape_string t)" for t
    by (simp add: Quote_def Backslash_def)
  show ?case using Cons other escaped by (cases "c = Quote \<or> c = Backslash") auto
qed

lemma unescape_quoted [simp]: "unescape_string (escape_string s @ r) = Some (s, r)"
  by (rule unescape_escape)

lemma digit_tokens:
  "is_digit c \<Longrightarrow> c \<noteq> CHR ''n'' \<and> c \<noteq> CHR ''t'' \<and> c \<noteq> CHR ''f'' \<and> c \<noteq> Quote \<and> c \<noteq> CHR ''['' \<and>
     c \<noteq> CHR ''{'' \<and> c \<noteq> CHR ''-'' \<and> c \<noteq> CHR '']''"
  by (auto simp: is_digit_def Quote_def Let_def)

lemma quote_tokens: "Quote \<noteq> CHR ''n''" "Quote \<noteq> CHR ''t''" "Quote \<noteq> CHR ''f''"
  by (simp_all add: Quote_def)

text \<open>What may follow a value: nothing, or something that does not continue a number.\<close>

definition ends_number :: "string \<Rightarrow> bool" where
  "ends_number r \<longleftrightarrow> r = [] \<or> \<not> is_digit (hd r)"

lemma number_spans:
  assumes "ends_number r"
  shows "takeWhile is_digit (show_nat n @ r) = show_nat n" "dropWhile is_digit (show_nat n @ r) = r"
proof -
  have "\<forall>c \<in> set (show_nat n). is_digit c" using show_nat_value by blast
  then show "takeWhile is_digit (show_nat n @ r) = show_nat n" "dropWhile is_digit (show_nat n @ r) = r"
    using assms by (cases r; simp add: ends_number_def takeWhile_append dropWhile_append)+
qed

lemma read_number:
  assumes "ends_number r"
  shows "read_json (Suc n) (show_int i @ r) = Some (JInt i, r)"
proof (cases "i < 0")
  case True
  with number_spans [OF assms, of "nat (- i)"] show_nat_value [of "nat (- i)"] show ?thesis
    by (simp add: show_int_def Quote_def)
next
  case False
  obtain c t where c: "show_nat (nat i) = c # t" by (cases "show_nat (nat i)") auto
  then have "is_digit c" using show_nat_value [of "nat i"] by auto
  then have "read_json (Suc n) (c # t @ r) =
      Some (JInt (digits_value (takeWhile is_digit (c # t @ r))), dropWhile is_digit (c # t @ r))"
    using digit_tokens [of c] by (simp del: takeWhile.simps dropWhile.simps)
  moreover have "show_nat (nat i) @ r = c # t @ r" by (simp add: c)
  ultimately show ?thesis
    using number_spans [OF assms, of "nat i"] show_nat_value [of "nat i"] False
    by (simp only: show_int_def if_False) simp
qed

lemma show_int_head: "\<exists>c t. show_int i = c # t \<and> c \<noteq> CHR '']''"
proof -
  obtain c t where c: "show_int i = c # t" by (cases "show_int i") auto
  then have "c = CHR ''-'' \<or> is_digit c"
    using show_int_chars [of c i] by (auto simp: is_digit_def)
  with c show ?thesis by (auto simp: is_digit_def)
qed

lemma write_json_head: "plain_json v \<Longrightarrow> \<exists>c t. write_json v = c # t \<and> c \<noteq> CHR '']''"
  using show_int_head by (cases v rule: write_json.cases) (auto simp: Quote_def)

lemma items_end: "ends_number (write_items False vs @ r)" "ends_number (write_members False kvs @ r)"
  by (cases vs; simp add: ends_number_def is_digit_def) (cases kvs; force simp: ends_number_def is_digit_def)

lemma nonempty_texts: "0 < length (write_items False vs)" "0 < length (write_members False kvs)"
  by (cases vs; simp) (cases kvs; force)

lemma items_head:
  assumes "plain_json v"
  obtains c t where "write_items first (v # vs) @ r = c # t" "c \<noteq> CHR '']''"
    "(if first then c # t else t) = write_json v @ write_items False vs @ r"
proof -
  obtain c t where "write_json v = c # t" "c \<noteq> CHR '']''" using write_json_head [OF assms] by blast
  with that show ?thesis by (cases first) simp_all
qed

lemma read_write:
  "plain_json v \<Longrightarrow> ends_number r \<Longrightarrow> length (write_json v) \<le> n \<Longrightarrow> read_json n (write_json v @ r) = Some (v, r)"
  "\<forall>v \<in> set vs. plain_json v \<Longrightarrow> length (write_items first vs) \<le> n \<Longrightarrow>
     read_items n first (write_items first vs @ r) = Some (vs, r)"
  "\<forall>(k, v) \<in> set kvs. plain_json v \<Longrightarrow> length (write_members first' kvs) \<le> n \<Longrightarrow>
     read_members n first' (write_members first' kvs @ r) = Some (kvs, r)"
proof (induction v and first vs and first' kvs arbitrary: n r and n r and n r
    rule: write_json_write_items_write_members.induct)
  case 2
  then show ?case by (cases n) (simp_all add: numeral_eq_Suc)
next
  case 3
  then show ?case by (cases n) (simp_all add: numeral_eq_Suc)
next
  case (5 s)
  then show ?case by simp
next
  case 1
  then show ?case by (cases n) (simp_all add: numeral_eq_Suc)
next
  case (4 i)
  then show ?case
    using read_number [of r _ i] by (cases n) (auto simp: show_int_nonempty)
next
  case (6 s)
  then show ?case by (cases n) (simp_all add: quote_tokens)
next
  case (7 vs)
  then show ?case by (cases n) (simp_all add: Quote_def)
next
  case (8 kvs)
  then have "\<forall>(k, v) \<in> set kvs. plain_json v" by auto
  with 8 show ?case by (cases n) (simp_all add: Quote_def)
next
  case (9 first)
  then show ?case by (cases n) simp_all
next
  case (10 first v vs)
  obtain c t where c: "write_items first (v # vs) @ r = c # t" "c \<noteq> CHR '']''"
    "(if first then c # t else t) = write_json v @ write_items False vs @ r"
    by (rule items_head) (use "10.prems"(1) in auto)
  have n: "length (write_json v) + length (write_items False vs) \<le> n"
    using "10.prems"(2) by (simp split: if_splits)
  moreover have "0 < length (write_json v)" using write_json_head [of v] "10.prems"(1) by auto
  ultimately obtain m where m: "n = Suc m" "length (write_json v) \<le> m" "length (write_items False vs) \<le> m"
    using nonempty_texts(1) [of vs] by (cases n) auto
  have "read_json m (write_json v @ write_items False vs @ r) = Some (v, write_items False vs @ r)"
    using "10.prems"(1) m(2) items_end(1) by (intro "10.IH"(1)) auto
  moreover have "read_items m False (write_items False vs @ r) = Some (vs, r)"
    using "10.prems"(1) m(3) by (intro "10.IH"(2)) auto
  ultimately show ?case
    unfolding c(1) m(1) using c(2,3) by (simp del: write_items.simps)
next
  case (11 first)
  then show ?case by (cases n) simp_all
next
  case (12 first k v kvs)
  let ?rest = "CHR '':'' # write_json v @ write_members False kvs @ r"
  obtain c t where c: "write_members first ((k, v) # kvs) @ r = c # t" "c \<noteq> CHR ''}''"
    "drop 1 (if first then c # t else t) = escape_string k @ ?rest"
    by (cases first) (auto simp: Quote_def)
  have n: "Suc (length (write_json v) + length (write_members False kvs)) \<le> n"
    using "12.prems"(2) by (simp split: if_splits)
  then obtain m where m: "n = Suc m" "length (write_json v) \<le> m" "length (write_members False kvs) \<le> m"
    by (cases n) auto
  have "read_json m (write_json v @ write_members False kvs @ r) = Some (v, write_members False kvs @ r)"
    using "12.prems"(1) m(2) items_end(2) by (intro "12.IH"(1)) auto
  moreover have "read_members m False (write_members False kvs @ r) = Some (kvs, r)"
    using "12.prems"(1) m(3) by (intro "12.IH"(2)) auto
  ultimately show ?case
    unfolding c(1) m(1) using c(2,3) by (simp del: write_members.simps)
qed

lemma escape_no_cr: "plain_string s \<Longrightarrow> CHR 0x0D \<notin> set (escape_string s)"
  by (induction s) (auto simp: Quote_def Backslash_def plain_string_def)

lemma show_int_no_cr: "CHR 0x0D \<notin> set (show_int i)"
  using show_int_chars [of "CHR 0x0D" i] by auto

lemma write_no_cr:
  "plain_json v \<Longrightarrow> CHR 0x0D \<notin> set (write_json v)"
  "\<forall>v \<in> set vs. plain_json v \<Longrightarrow> CHR 0x0D \<notin> set (write_items first vs)"
  "\<forall>(k, v) \<in> set kvs. plain_string k \<and> plain_json v \<Longrightarrow> CHR 0x0D \<notin> set (write_members first' kvs)"
  by (induction v and first vs and first' kvs rule: write_json_write_items_write_members.induct)
    (auto simp: Quote_def show_int_no_cr escape_no_cr)

lemma ref_json_roundtrip: "jsoncpp_roundtrip ref_json"
proof -
  have "parse_text (write_json j) = Inr j" if "plain_json j" for j
    using read_write(1) [OF that, of "[]" "Suc (length (write_json j))"]
    by (simp add: parse_text_def ends_number_def del: read_json.simps)
  then show ?thesis by (simp add: jsoncpp_roundtrip_def ref_json_def write_no_cr(1))
qed

section \<open>The other parameters\<close>

text \<open>Every name resolves but the empty one and "bad".\<close>

definition ref_resolver :: resolver where
  "ref_resolver = \<lparr>rs_getaddrinfo = (\<lambda>n. if n = [] \<or> n = ''bad'' then (-2, 0) else (0, 0)),
     rs_eai_system = -11, rs_strerror = (\<lambda>e. ''Success''),
     rs_gai_strerror = (\<lambda>e. ''Name or service not known'')\<rparr>"

text \<open>A digest of the right length: the characters, padded and cut.\<close>

definition ref_digest :: digest where
  "ref_digest s = take 16 (map (\<lambda>c. of_nat (of_char c)) s @ replicate 16 0)"

lemma ref_digest_ok: "digest_ok ref_digest"
  by (auto simp: digest_ok_def ref_digest_def MD5_DIGEST_LENGTH_def min_def)

definition ref_libs :: libs where
  "ref_libs = \<lparr>le_json = ref_json, le_resolver = ref_resolver, le_digest = ref_digest, le_close = None\<rparr>"

lemma ref_libs_ok:
  "jsoncpp_ok (le_json ref_libs)" "jsoncpp_roundtrip (le_json ref_libs)" "digest_ok (le_digest ref_libs)"
  by (simp_all add: ref_libs_def ref_json_ok ref_json_roundtrip ref_digest_ok)

text \<open>
  A database after its first start, and the same with two domains, one in an active list and one on
  the whitelist.
\<close>

definition ref_db :: db where
  "ref_db = snd (db_init (empty_db 1700000000))"

definition ref_db_used :: db where
  "ref_db_used = put_domain ''w.org'' 2 (put_domain ''ads.com'' 1 ref_db)"

definition custom_row :: list_row where
  "custom_row = \<lparr>lr_id = 1, lr_name = ''CUSTOM'', lr_url = [],
     lr_description = ''Custom, uncategorized list'', lr_active = 1, lr_custom = 1, lr_is_whitelist = 0,
     lr_mtime = 0\<rparr>"

definition white_row :: list_row where
  "white_row = \<lparr>lr_id = 2, lr_name = ''WHITELIST'', lr_url = [],
     lr_description = ''Custom, default whitelist'', lr_active = 1, lr_custom = 1, lr_is_whitelist = 1,
     lr_mtime = 0\<rparr>"

lemma ref_db_rows:
  "db_settings ref_db_used = []" "db_lists ref_db_used = [custom_row, white_row]"
  "db_domains ref_db_used = [\<lparr>dr_name = ''ads.com'', dr_list_id = 1\<rparr>, \<lparr>dr_name = ''w.org'', dr_list_id = 2\<rparr>]"
  "db_stats ref_db_used = []" "db_faults ref_db_used = []"
  by code_simp+

lemma ref_db_wf: "db_wf ref_db_used" "db_faults ref_db_used = []" "db_lists ref_db_used \<noteq> []"
  by (simp_all add: db_wf_def Dbl_Store.list_ids_def ref_db_rows custom_row_def white_row_def)

lemma ref_whitelist: "whitelist_row ref_db_used white_row"
  by (simp add: whitelist_row_def ref_db_rows white_row_def)

lemma ref_db_reachable: "db_reachable R ref_db"
  unfolding ref_db_def by (rule reach_step [OF reach_new step_init])

text \<open>The same database while its next sessions fail.\<close>

definition failing_db :: "fate list \<Rightarrow> db" where
  "failing_db fs = ref_db_used\<lparr>db_faults := fs\<rparr>"

text \<open>A process whose environment does nothing: commands succeed, no pid is alive but 77.\<close>

definition ref_os :: "unit os" where
  "ref_os = \<lparr>os_system = (\<lambda>cmd w. (0, w)), os_popen = (\<lambda>cmd w. (Some ([''77''], 0), w)),
     os_alive = (\<lambda>pid. pid = 77), os_wait_worker = (\<lambda>w. (([], Exited 0), w))\<rparr>"

definition ref_files :: filesystem where
  "ref_files = \<lparr>fs_files = [''/var/lib/dnsblocker/dbsblocker.db'' \<mapsto> [], ''/bin/pidof'' \<mapsto> []],
     fs_dirs = (\<lambda>p. p = ''/var/run/dnsblocker'' \<or> p = ''/etc/unbound/unbound.conf.d''),
     fs_writable = (\<lambda>p. True), fs_exec = (\<lambda>p. p = ''/bin/pidof'')\<rparr>"

definition ref_process :: "filesystem \<Rightarrow> unit process" where
  "ref_process F = \<lparr>ps_world = (), ps_files = F, ps_trace = [], ps_signaled_exit = False,
     ps_system_proxy_was_running = False\<rparr>"

text \<open>The loopback interface carries the address of the configuration.\<close>

definition ref_net :: netenv where
  "ref_net = \<lparr>ne_socket = True, ne_ifconf = Some [(''lo'', ''127.0.0.1'')],
     ne_set_address = (\<lambda>i a. True), ne_get_flags = (\<lambda>i. True), ne_set_flags = (\<lambda>i. True)\<rparr>"

definition ref_main :: "unit main_env" where
  "ref_main = \<lparr>me_config = unix_config, me_vm = [], me_json = ref_json, me_resolver = ref_resolver,
     me_show_optional = (\<lambda>x. case x of None \<Rightarrow> ''--'' | Some s \<Rightarrow> '' '' @ s), me_os = ref_os, me_net = ref_net,
     me_order = (\<lambda>kvs. kvs), me_time = ''Thu Jan  1 00:00:00 1970'', me_now = 0,
     me_uname = None, me_forked = Some 78, me_pid = 77, me_garbage = 0, me_garbage_pid = -1, me_worker = (\<lambda>s. s),
     me_worker_db = (\<lambda>d. d)\<rparr>"

definition ref_state :: "filesystem \<Rightarrow> db \<Rightarrow> unit main_state" where
  "ref_state F d = \<lparr>mn_process = ref_process F, mn_db = d, mn_out = [], mn_status = new_status 0\<rparr>"

section \<open>Shared memory\<close>

text \<open>A segment as the next free address and the counts; nothing is used again.\<close>

definition ref_shm_lib :: "(nat \<times> (nat \<Rightarrow> int)) shm_lib" where
  "ref_shm_lib = \<lparr>sl_segment = (\<lambda>sz. (0, \<lambda>a. 0)),
     sl_allocate = (\<lambda>n (k, f). Some (k, (k + n, f))),
     sl_deallocate = (\<lambda>a g. g),
     sl_count = (\<lambda>a (k, f). f a),
     sl_set_count = (\<lambda>a v (k, f). (k, f(a := v)))\<rparr>"

lemma ref_shm_ok: "shm_ok ref_shm_lib"
  by (simp add: shm_ok_def ref_shm_lib_def case_prod_beta)

definition ref_shm :: "(nat \<times> (nat \<Rightarrow> int)) shm" where
  "ref_shm = \<lparr>sh_names = (\<lambda>x. None), sh_segments = (\<lambda>i. (0, \<lambda>a. 0)), sh_next = 0\<rparr>"

lemma ref_shm_new:
  "sh_names ref_shm x = None"
  "\<exists>m S. new_shared_memory ref_shm_lib 32 x sz ref_shm = (Inr m, S)"
  by (simp_all add: new_shared_memory_def ref_shm_def ref_shm_lib_def Let_def)

end
