(* ===== verification/Dbl_Witnesses.thy ===== *)
theory Dbl_Witnesses
  imports Dbl_Reference
begin

text \<open>
  For each property with hypotheses, an application of it to the concrete instance of
  \<open>Dbl_Reference\<close>, with every hypothesis discharged there.
\<close>

section \<open>The service\<close>

definition ref_service :: "db \<Rightarrow> service" where
  "ref_service d = \<lparr>sv_db = d, sv_status = new_status 0, sv_stop = False\<rparr>"

definition ref_connection :: "bool \<Rightarrow> connection" where
  "ref_connection b = \<lparr>cn_auth = \<lparr>auth_token = ''tok''\<rparr>, cn_authenticated = b, cn_open = True\<rparr>"

lemma service_keeps_database_witness:
  "db_wf (sv_db (snd (snd (connection_run (service_process ref_libs) (\<lambda>cs. cn_open (fst cs)) False
     [Received ''hello'' True, Read_error] (ref_connection True, ref_service ref_db)))))"
  by (rule service_keeps_database) (simp add: ref_service_def ref_db_reachable)

lemma unauthenticated_refused_witness:
  "process_json ref_libs (request_string ref_json ''reload'' JNull) (ref_connection False, ref_service ref_db) =
    (Ok (JObject [(''error_message'', JString ''Not authenticated''), (''success'', JBool False)]),
     ref_connection False, ref_service ref_db)"
  by (rule unauthenticated_refused [where cmd = "''reload''" and data = JNull]; code_simp)

definition protected_db :: db where
  "protected_db = ref_db_used\<lparr>db_settings := [(''service_password'', replicate 32 (CHR ''a''))]\<rparr>"

lemma unauthenticated_session_harmless_witness:
  "snd (connection_run (service_process ref_libs) (\<lambda>cs. cn_open (fst cs)) False
     [Received (request_string ref_json ''auth'' (JObject [(''hash'', JString ''guess'')])) True,
      Received (request_string ref_json ''reload'' JNull) True]
     (ref_connection False, ref_service protected_db)) = (ref_connection False, ref_service protected_db)"
proof (rule unauthenticated_session_harmless)
  show "db_faults (sv_db (ref_service protected_db)) = []" by code_simp
  show "digest_ok (le_digest ref_libs)" by (rule ref_libs_ok)
  show "password (sv_db (ref_service protected_db)) \<noteq> []" by code_simp
  show "new_connection ref_libs ''tok'' (ref_service protected_db) =
      (ref_connection False, ref_service protected_db)" by code_simp
  have "request_hash (le_json ref_libs) (request_string ref_json ''auth'' (JObject [(''hash'', JString ''guess'')]))
      \<noteq> Some (md5 (le_digest ref_libs) (password (sv_db (ref_service protected_db)) @ ''tok''))"
    "request_hash (le_json ref_libs) (request_string ref_json ''reload'' JNull)
      \<noteq> Some (md5 (le_digest ref_libs) (password (sv_db (ref_service protected_db)) @ ''tok''))"
    by code_simp+
  then show "\<forall>request w. Received request w \<in> set
      [Received (request_string ref_json ''auth'' (JObject [(''hash'', JString ''guess'')])) True,
       Received (request_string ref_json ''reload'' JNull) True] \<longrightarrow>
      request_hash (le_json ref_libs) request
        \<noteq> Some (md5 (le_digest ref_libs) (password (sv_db (ref_service protected_db)) @ ''tok''))"
    by auto
qed

section \<open>Passwords\<close>

lemma password_lifecycle_witness:
  "let d1 = snd (auth_set_password ref_digest \<lparr>auth_token = ''tok''\<rparr> (replicate 32 (CHR ''a''))
              (md5 ref_digest (replicate 32 (CHR ''a'') @ auth_token \<lparr>auth_token = ''tok''\<rparr>)) ref_db_used);
       d2 = snd (auth_remove_password \<lparr>auth_token = ''tok''\<rparr> d1)
   in (\<forall>b h. fst (auth_auth ref_digest b h d1) \<longleftrightarrow> h = md5 ref_digest (replicate 32 (CHR ''a'') @ auth_token b)) \<and>
      (\<forall>b h. fst (auth_auth ref_digest b h d2))"
  by (rule password_lifecycle [OF ref_db_wf(2) ref_digest_ok]) simp

lemma auth_fails_open_witness:
  "fst (auth_auth ref_digest \<lparr>auth_token = ''tok''\<rparr> ''wrong''
     (protected_db\<lparr>db_faults := [Fails ''database is locked'']\<rparr>))"
  by (rule auth_fails_open [of _ "''database is locked''" "[]"]) simp

section \<open>Domains and lists\<close>

lemma ref_names: "filter_valid ref_resolver [''x.net'', ''bad'', ''w.org''] \<noteq> []"
  by code_simp

lemma block_domains_custom_witness:
  "\<exists>i d'. dm_block_domains ref_resolver [''x.net'', ''bad'', ''w.org''] 0 ref_db_used = (Ok True, d') \<and> db_wf d' \<and>
    domains_only (sql_insert_or_ignore_list ''CUSTOM'' [] ''Custom list'' 1 ref_db_used) d' \<and>
    list_id_of ''CUSTOM'' d' = Some i \<and>
    domain_map d' = (\<lambda>k. if k \<in> set [''x.net'', ''bad'', ''w.org''] \<and> valid_name ref_resolver k \<and>
      \<not> on_whitelist ref_db_used k then Some i else domain_map ref_db_used k)"
  by (rule block_domains_custom [OF ref_db_wf(1,2) ref_names])

lemma unblock_domains_spec_witness:
  "case sql_whitelist_id ref_db_used of
      None \<Rightarrow> dm_unblock_domains ref_resolver [''x.net'', ''bad'', ''w.org''] ref_db_used =
        (False, ref_db_used\<lparr>db_faults := [Stuck]\<rparr>)
    | Some w \<Rightarrow> \<exists>d'. dm_unblock_domains ref_resolver [''x.net'', ''bad'', ''w.org''] ref_db_used = (True, d') \<and>
        db_wf d' \<and> domains_only ref_db_used d' \<and>
        domain_map d' = (\<lambda>k. if k \<in> set [''x.net'', ''bad'', ''w.org''] \<and> valid_name ref_resolver k
          then Some w else domain_map ref_db_used k)"
  by (rule unblock_domains_spec [OF ref_db_wf(1,2) ref_names])

definition ref_list :: domain_list where
  "ref_list = new_domain_list\<lparr>dl_domains := [new_domain\<lparr>d_name := ''w.org''\<rparr>, new_domain\<lparr>d_name := ''y.io''\<rparr>]\<rparr>"

lemma import_spec_witness:
  "\<exists>d' i. dlm_import ref_list False ref_db_used = (Ok True, d') \<and> db_wf d' \<and>
    list_id_of (custom_name (dl_name ref_list)) d' = Some i \<and>
    (\<forall>k. domain_map d' k = (if k \<in> d_name ` set (dl_domains ref_list) then Some i
                            else domain_map ref_db_used k)) \<and>
    (\<forall>l \<in> set (db_lists d'). lr_id l = i \<longrightarrow> lr_mtime l = db_now ref_db_used)"
  by (rule import_spec [OF ref_db_wf(1,2)])

lemma import_overrides_whitelist_witness:
  "blocked (snd (dlm_import ref_list False ref_db_used)) ''w.org''"
  by (rule import_overrides_whitelist [OF ref_db_wf(1,2), of _ _ custom_row])
    (simp_all add: ref_list_def ref_db_rows custom_row_def blocks_def new_domain_list_def custom_name_def)

lemma set_enabled_spec_witness:
  "\<exists>d'. dlm_set_enabled ''CUSTOM'' False ref_db_used = (True, d') \<and> db_wf d' \<and>
    domain_map d' = domain_map ref_db_used \<and>
    map lr_name (db_lists d') = map lr_name (db_lists ref_db_used) \<and>
    Dbl_Store.list_ids d' = Dbl_Store.list_ids ref_db_used \<and>
    (\<not> has_list ''CUSTOM'' ref_db_used \<longrightarrow> d' = ref_db_used) \<and>
    (\<forall>k. blocked d' k \<longleftrightarrow>
       (if (\<exists>i. list_id_of ''CUSTOM'' ref_db_used = Some i \<and> domain_map ref_db_used k = Some i)
        then False \<and> (\<exists>l \<in> set (db_lists ref_db_used). lr_name l = ''CUSTOM'' \<and> lr_is_whitelist l = 0)
        else blocked ref_db_used k))"
  by (rule set_enabled_spec [OF ref_db_wf(1,2)])

lemma remove_list_spec_witness:
  "\<exists>d'. dlm_remove ''CUSTOM'' ref_db_used = (True, d') \<and> db_wf d' \<and> \<not> has_list ''CUSTOM'' d' \<and>
    (\<forall>m. m \<noteq> ''CUSTOM'' \<longrightarrow> list_id_of m d' = list_id_of m ref_db_used) \<and>
    (\<forall>k. domain_map d' k =
       (if \<exists>i. list_id_of ''CUSTOM'' ref_db_used = Some i \<and> domain_map ref_db_used k = Some i then None
        else domain_map ref_db_used k))"
  by (rule remove_list_spec [OF ref_db_wf(1,2)])

lemma create_list_spec_witness:
  "\<exists>i d'. dlm_create ''ads'' ''http://l.org/ads'' ''Ads'' False ref_db_used = (Ok i, d') \<and> db_wf d' \<and> 0 < i \<and>
    list_id_of (custom_name ''ads'') d' = Some i \<and> domain_map d' = domain_map ref_db_used"
  using create_list_spec [OF ref_db_wf(1,2), of "''ads''" "''http://l.org/ads''" "''Ads''" False] by blast

lemma failed_session_changes_nothing_witness:
  "dm_block_domains ref_resolver [''x.net'', ''bad'', ''w.org''] 1 (failing_db [Fails ''database is locked'', Fine]) =
     (Ok False, (failing_db [Fails ''database is locked'', Fine])\<lparr>db_faults := [Fine]\<rparr>)"
  using failed_session_changes_nothing [OF _ ref_names, where d = "failing_db [Fails ''database is locked'', Fine]"
      and m = "''database is locked''" and fs = "[Fine]" and i = 1]
  by (simp add: failing_db_def)

lemma create_second_session_crash_witness:
  "fst (dlm_create ''ads'' [] [] False (failing_db [Fine, Fails ''database is locked''])) = Crash"
  using create_second_session_crash [where d = "failing_db [Fine, Fails ''database is locked'']"]
  by (simp add: failing_db_def)

section \<open>The command line\<close>

definition ref_mgmt :: mgmt where
  "ref_mgmt = \<lparr>mg_add_list = False, mg_delete_list = [], mg_export_list = [], mg_enable_list = [],
     mg_disable_list = [], mg_block_domains = [''x.net'', ''ads.com''], mg_unblock_domains = [''ads.com'']\<rparr>"

lemma manage_domains_spec_witness:
  "\<exists>i d' cerr. mgmt_manage_domains unix_config ref_resolver ref_mgmt ref_db_used = ((Ok True, [], cerr), d') \<and>
    domain_map d' = (\<lambda>k.
      if k \<in> set (mg_unblock_domains ref_mgmt) \<and> valid_name ref_resolver k then Some (lr_id white_row)
      else if k \<in> set (mg_block_domains ref_mgmt) \<and> valid_name ref_resolver k \<and> \<not> on_whitelist ref_db_used k
      then Some i else domain_map ref_db_used k)"
proof -
  have "\<not> is_fatal unix_config" by code_simp
  from manage_domains_spec [OF ref_db_wf(1,2) ref_whitelist this, of ref_resolver ref_mgmt] show ?thesis
    by blast
qed

lemma query_domains_prints_blocked_witness:
  "\<exists>names. query_run (\<lambda>x. []) [(''domain-lists'', V_bool False, True), (''domains'', V_bool True, False)] ref_db_used
     = (Inr (True, concat (map (\<lambda>n. n @ LF) names)), ref_db_used) \<and>
    sorted names \<and> distinct names \<and> set names = {n. blocked ref_db_used n}"
  by (rule query_domains_prints_blocked [OF ref_db_wf(1,2)]) (simp_all add: get_bool_def)

definition ref_parse :: parse_env where
  "ref_parse = \<lparr>pe_sysname = Some ''Linux'',
     pe_command_line = Inr [(''no-config'', V_bool True), (''no-close-fds'', V_bool True),
       (''dns-proxy'', V_string ''dnsmasq'')],
     pe_config_file = (\<lambda>p. Some (Inr [(''dns-proxy'', V_string ''unbound'')]))\<rparr>"

definition ref_parsed :: variables_map where
  "ref_parsed = fst (case options_parse ref_parse unix_config of Inr r \<Rightarrow> r | Inl e \<Rightarrow> ([], unix_config))"

definition ref_config :: config where
  "ref_config = snd (case options_parse ref_parse unix_config of Inr r \<Rightarrow> r | Inl e \<Rightarrow> ([], unix_config))"

lemma ref_options: "options_parse ref_parse unix_config = Inr (ref_parsed, ref_config)"
proof -
  have "pe_command_line ref_parse = Inr [(''no-config'', V_bool True), (''no-close-fds'', V_bool True),
       (''dns-proxy'', V_string ''dnsmasq'')]" "pe_sysname ref_parse = Some ''Linux''"
    by (simp_all add: ref_parse_def)
  moreover have "get_bool (vm_store (all_options (to_lower ''Linux'') unix_config)
      [(''no-config'', V_bool True), (''no-close-fds'', V_bool True), (''dns-proxy'', V_string ''dnsmasq'')] [])
      ''no-config'' = Inr True"
    by code_simp
  ultimately have "\<exists>r. options_parse ref_parse unix_config = Inr r"
    by (simp add: options_parse_def rethrow_def Let_def)
  then show ?thesis by (auto simp: ref_parsed_def ref_config_def)
qed

lemma ref_parse_fields:
  "pe_command_line ref_parse = Inr [(''no-config'', V_bool True), (''no-close-fds'', V_bool True),
     (''dns-proxy'', V_string ''dnsmasq'')]"
  "pe_sysname ref_parse = Some ''Linux''"
  "distinct (map fst [(''no-config'', V_bool True), (''no-close-fds'', V_bool True),
     (''dns-proxy'', V_string ''dnsmasq'')])"
  "''dns-proxy'' \<in> set (map od_name (all_options (to_lower ''Linux'') unix_config))"
  "''no-close-fds'' \<in> set (map od_name (all_options (to_lower ''Linux'') unix_config))"
  by (simp_all add: ref_parse_def option_tables option_forms)

lemma command_line_wins_witness: "map_of ref_parsed ''dns-proxy'' = Some (V_string ''dnsmasq'', False)"
  by (rule command_line_wins [OF ref_options ref_parse_fields(1,2) _ ref_parse_fields(3,4)]) simp

lemma ref_parsed_flag: "map_of ref_parsed ''no-close-fds'' = Some (V_bool True, False)"
  by (rule command_line_stored [OF ref_options ref_parse_fields(1,2) _ ref_parse_fields(3,5)]) simp

lemma no_close_fds_sets_no_chdir_witness: "no_chdir ref_config \<and> no_close_fds ref_config = no_close_fds unix_config"
  using no_close_fds_sets_no_chdir [OF ref_options ref_parsed_flag] by simp

section \<open>The proxy's configuration\<close>

definition writing_config :: config where
  "writing_config = unix_config\<lparr>dns_proxy_generate_config := True\<rparr>"

lemma system_config_entries_witness:
  "\<exists>p' F' ns. create_config writing_config (\<lambda>kvs. kvs) ''now'' (new_dnsproxy Unbound) ref_files ref_db_used
      = (Inr (), p', F', ref_db_used) \<and>
    fs_files F' ''/etc/unbound/unbound.conf.d/dnsblocker.conf'' =
      Some (''server:'' @ LF @ concat (map (unbound_entry writing_config) ns)) \<and>
    set ns = {k. listed (\<lambda>l. lr_active l = 1) ref_db_used k}"
proof -
  have h: "dns_proxy_config writing_config = []" "dns_proxy_generate_config writing_config"
    "\<not> no_system_dns_proxy writing_config" "fs_dirs ref_files (dns_proxy_include_dir writing_config)"
    "px_domains (new_dnsproxy Unbound) = []"
    "''/etc/unbound/unbound.conf.d/dnsblocker.conf'' =
       path_append (dns_proxy_include_dir writing_config) ''dnsblocker.conf''"
    "fs_writable ref_files ''/etc/unbound/unbound.conf.d/dnsblocker.conf''"
    by code_simp+
  have "px_kind (new_dnsproxy Unbound) = Unbound" by code_simp
  with system_config_entries [OF ref_db_wf(1,2) h, of "\<lambda>kvs. kvs" "''now''"] show ?thesis
    by (simp only: proxy_kind.case) blast
qed


lemma template_render_spec_witness:
  "template_render [(''USER'', ''unbound''), (''PORT'', ''53'')]
     (concat (map segment_text [Lit ''user: '', Var ''USER'', Lit '' port: '', Var ''PORT'', Lit ''.''])) =
   ''user: unbound port: 53.''"
  using template_render_spec [of "{''USER'', ''PORT''}" "[(''USER'', ''unbound''), (''PORT'', ''53'')]"
      "[Lit ''user: '', Var ''USER'', Lit '' port: '', Var ''PORT'', Lit ''.'']"]
  by (simp add: prefix_free_def)

section \<open>JSON\<close>

lemma domain_list_json_roundtrip_witness:
  "\<exists>l. domain_list_init_from_json ref_json ref_resolver (domain_list_json ref_list) new_domain_list = Inr l \<and>
     dl_domains l = named_domains ref_resolver [''w.org'', ''y.io'']"
  using domain_list_json_roundtrip [OF ref_json_ok, of ref_resolver ref_list new_domain_list]
  by (simp add: ref_list_def new_domain_list_def new_domain_def)

lemma status_json_roundtrip_witness:
  "status_init_from_json ref_json (status_to_json (new_status 5) (JObject [])) (new_status 0) =
    Inr ((new_status 5)\<lparr>st_start := to_int32 (st_start (new_status 5))\<rparr>)"
  by (rule status_json_roundtrip [OF ref_json_ok]) (simp_all add: new_status_def is_int32_def)

section \<open>The HTTP responder\<close>

definition ref_responder :: responder where
  "ref_responder = \<lparr>rp_db = ref_db, rp_seen = Map.empty\<rparr>"

lemma responder_answers_all_witness:
  "\<exists>rs. fst (connection_run (responder_process unix_config) (\<lambda>_. True) False
       (map (\<lambda>r. Received r True) [''GET / HTTP/1.1'', []]) ref_responder) = (rs, Waiting) \<and>
     length rs = length [''GET / HTTP/1.1'', []]"
  by (rule responder_answers_all [of ref_resolver]) (simp add: ref_responder_def ref_db_reachable)

lemma ref_db_new: "db_wf ref_db" "db_faults ref_db = []"
  by (rule reachable_wf [OF ref_db_reachable [of ref_resolver]]) code_simp

lemma responder_counts_host_witness:
  "hits_map (rp_db (snd (responder_process unix_config
     (''GET / HTTP/1.1'' @ CRLF @ concat (map header_line [(''Host'', ''ads.com'')]) @ CRLF) ref_responder)))
     ''ads.com'' = Some 1"
proof -
  have "hits_map (rp_db ref_responder) ''ads.com'' = None" by code_simp
  then show ?thesis
    using responder_counts_host [of ref_responder "[(''Host'', ''ads.com'')]" "''GET / HTTP/1.1''" unix_config]
    by (simp add: ref_responder_def ref_db_new good_header_def trimmed_def is_space_def of_char_def)
qed

section \<open>The client against the server\<close>

lemma password_set_over_network_witness:
  "\<exists>s1 c2. set_service_password ref_json ref_digest (server_wire ref_libs False) ''secret''
      ([], ref_connection True, ref_service ref_db_used) = (Ok True, ([], ref_connection True, s1)) \<and>
    new_connection ref_libs ''tok2'' s1 = (c2, s1) \<and> \<not> cn_authenticated c2 \<and>
    authenticate ref_json ref_digest (server_wire ref_libs False) ''secret'' ([], c2, s1) =
      (Ok True, ([], c2\<lparr>cn_authenticated := True\<rparr>, s1))"
proof -
  have h: "db_faults (sv_db (ref_service ref_db_used)) = []" "cn_open (ref_connection True)"
    "cn_authenticated (ref_connection True)" "plain_string (auth_token (cn_auth (ref_connection True)))"
    "auth_token (cn_auth (ref_connection True)) \<noteq> []" "plain_string ''tok2''" "''tok2'' \<noteq> []"
    by (simp_all add: ref_service_def ref_connection_def ref_db_wf of_char_def)
  show ?thesis
    using password_set_over_network [OF ref_libs_ok h, of False "''secret''" "[]" "[]"]
    by (simp only: ref_libs_def libs.simps)
qed

lemma ref_blocked: "blocked ref_db_used k \<longleftrightarrow> k = ''ads.com''"
  by (auto simp: blocked_def listed_def blocks_def domain_map_def ref_db_rows custom_row_def white_row_def)

lemma client_block_then_listed_witness:
  "\<exists>s' ds. block_domain ref_json (server_wire ref_libs False) ''x.net''
      ([], ref_connection True, ref_service ref_db_used) = (Ok True, ([], ref_connection True, s')) \<and>
    get_blocked_domains ref_json ref_resolver (server_wire ref_libs False) [] ([], ref_connection True, s') =
      (Ok (True, ds), ([], ref_connection True, s')) \<and>
    d_name ` set ds = insert ''x.net'' {k. blocked (sv_db (ref_service ref_db_used)) k}"
proof -
  have h: "cn_open (ref_connection True)" "cn_authenticated (ref_connection True)"
    "db_wf (sv_db (ref_service ref_db_used))" "db_faults (sv_db (ref_service ref_db_used)) = []"
    "plain_db (sv_db (ref_service ref_db_used))" "custom_row \<in> set (db_lists (sv_db (ref_service ref_db_used)))"
    "lr_name custom_row = ''CUSTOM''" "blocks custom_row" "is_int32 (lr_id custom_row)" "plain_string ''x.net''"
    "valid_name (le_resolver ref_libs) ''x.net''" "\<not> on_whitelist (sv_db (ref_service ref_db_used)) ''x.net''"
    "\<forall>k. blocked (sv_db (ref_service ref_db_used)) k \<or> k = ''x.net'' \<longrightarrow> valid_name ref_resolver k"
    by (auto simp: ref_connection_def ref_service_def ref_db_wf plain_db_def ref_db_rows custom_row_def
        white_row_def blocks_def is_int32_def of_char_def valid_name_iff ref_libs_def ref_resolver_def c_str_def
        on_whitelist_def domain_map_def ref_blocked)
  show ?thesis
    using client_block_then_listed [OF ref_libs_ok(1,2) h, of False "[]"]
    by (simp only: ref_libs_def libs.simps)
qed

section \<open>The updater\<close>

definition ref_published :: domain_list where
  "ref_published = new_domain_list\<lparr>dl_name := ''ads'', dl_domains := [new_domain\<lparr>d_name := ''y.io''\<rparr>]\<rparr>"

text \<open>A web server that gives every url the published list, and one that gives an error page.\<close>

definition page :: "string \<Rightarrow> string \<Rightarrow> transfer" where
  "page body url = \<lparr>tr_code = 0, tr_header_chunks = [''HTTP/1.1 200 OK'' @ CRLF], tr_body_chunks = [body],
     tr_response_code = 200\<rparr>"

definition ref_curl :: "(string \<Rightarrow> transfer) \<Rightarrow> unit curl" where
  "ref_curl srv = \<lparr>cu_setopt = (\<lambda>opt. True), cu_perform = (\<lambda>opts net. (srv (last_url opts), net)),
     cu_strerror = (\<lambda>e. [])\<rparr>"

definition ref_date :: http_date where
  "ref_date = \<lparr>hd_parse = (\<lambda>s. None), hd_format = (\<lambda>i. [])\<rparr>"

lemma ref_curl_static: "static_server (ref_curl srv) srv"
  by (simp add: static_server_def ref_curl_def)

lemma ref_due: "due ref_date (page body) lst"
  by (simp add: due_def answer_def page_def get_last_modified_def ref_date_def Let_def)

lemma ref_published_plain: "plain_json (domain_list_json ref_published)"
  by code_simp

lemma update_imports_published_witness:
  "\<exists>d' i. update_one (ref_curl (page (domain_list_to_json_string ref_json ref_published))) ref_date ref_json
      ref_resolver (new_domain_list\<lparr>dl_name := ''ads''\<rparr>) False (ref_db_used, ()) = (Ok True, d', ()) \<and> db_wf d' \<and>
    list_id_of (custom_name (dl_name ref_published)) d' = Some i \<and>
    domain_map d' = (\<lambda>k. if k \<in> d_name ` set (dl_domains ref_published) \<and> valid_name ref_resolver k then Some i
                          else domain_map ref_db_used k)"
  by (rule update_imports_published [OF ref_curl_static ref_json_ok ref_json_roundtrip ref_db_wf(1,2) _ ref_due
        ref_published_plain])
    (simp_all add: new_domain_list_def answer_def page_def)


section \<open>The worker\<close>

definition root_creds :: creds where
  "root_creds = \<lparr>cr_ruid = 0, cr_euid = 0, cr_suid = 0, cr_rgid = 0, cr_egid = 0, cr_sgid = 0, cr_groups = [0]\<rparr>"

definition user_creds :: creds where
  "user_creds = \<lparr>cr_ruid = 1000, cr_euid = 1000, cr_suid = 1000, cr_rgid = 1001, cr_egid = 1001, cr_sgid = 1001,
     cr_groups = []\<rparr>"

lemma drop_privileges_safe_witness:
  "\<exists>u g. Some (1000, 1001) = Some (u, g) \<and> u \<noteq> 0 \<and> g \<noteq> 0 \<and> cr_euid user_creds = u \<and> cr_egid user_creds = g \<and>
    0 \<notin> {cr_ruid user_creds, cr_euid user_creds, cr_suid user_creds} \<and>
    0 \<notin> {cr_rgid user_creds, cr_egid user_creds, cr_sgid user_creds} \<and>
    posix_call (Setuid 0) user_creds = (False, user_creds) \<and> posix_call (Seteuid 0) user_creds = (False, user_creds)"
proof -
  have "drop_privileges unix_config (\<lambda>n. Some (1000, 1001)) (\<lambda>x. False) root_creds = (Inr (), user_creds)"
    by (simp add: drop_privileges_def id_call_def root_creds_def user_creds_def)
  from drop_privileges_safe [OF this] show ?thesis by simp
qed


section \<open>Processes\<close>

text \<open>What is left of the files after the master with pid 77 has written its pid file.\<close>

definition running_files :: filesystem where
  "running_files = write_file ''/var/run/dnsblocker/service.pid'' ''77'' ref_files"

lemma ref_config_paths:
  "service_pidfile unix_config = ''/var/run/dnsblocker/service.pid''"
  "service_db unix_config = ''/var/lib/dnsblocker/dbsblocker.db''"
  "parent_path ''/var/run/dnsblocker/service.pid'' = ''/var/run/dnsblocker''"
  "show_int 77 = ''77''"
  by code_simp+

lemma ref_pidfile_saved: "save_pidfile unix_config 77 ref_files = Inr running_files"
  by (simp add: save_pidfile_def running_files_def ref_config_paths Let_def fs_exists_def ref_files_def)

lemma ref_pidfile_place:
  "\<not> fs_dirs ref_files (service_pidfile unix_config)"
  "parent_path (service_pidfile unix_config) \<noteq> service_pidfile unix_config"
  by (simp_all add: ref_config_paths ref_files_def)

lemma pidfile_roundtrip_witness:
  "is_already_running unix_config ref_os 0 running_files = os_alive ref_os 77 \<and>
    \<not> is_already_running unix_config ref_os 0 (remove_pidfile unix_config running_files)"
  by (rule pidfile_roundtrip [OF ref_pidfile_saved _ ref_pidfile_place]) simp

lemma ref_no_work:
  "get_bool (me_vm ref_main) ''query'' = Inr False"
  "\<exists>m. new_mgmt (me_vm ref_main) = Inr m \<and> \<not> has_work m"
  by (simp_all add: ref_main_def get_bool_def get_string_def get_strings_def new_mgmt_def has_work_def)

lemma second_instance_refused_witness:
  "main_turn ref_main (ref_state running_files ref_db_used) =
     (Returned EXIT_FAILURE, ref_state running_files ref_db_used)"
proof -
  let ?st = "ref_state running_files ref_db_used"
  obtain m where m: "new_mgmt (me_vm ref_main) = Inr m" "\<not> has_work m" using ref_no_work(2) by blast
  have f: "fs_exists (ps_files (mn_process ?st)) (service_db (me_config ref_main))"
    "db_faults (mn_db ?st) = []" "db_lists (mn_db ?st) \<noteq> []"
    by (simp_all add: ref_state_def ref_process_def running_files_def write_file_def fs_exists_def ref_files_def
        ref_main_def ref_config_paths ref_db_wf)
  have p: "create_dnsproxy (me_config ref_main) = Inr (new_dnsproxy Unbound)" by code_simp
  have s: "save_pidfile (me_config ref_main) 77 ref_files = Inr (ps_files (mn_process ?st))"
    using ref_pidfile_saved by (simp add: ref_main_def ref_state_def ref_process_def)
  show ?thesis
    by (rule second_instance_refused [OF f ref_no_work(1) m p s])
      (use ref_pidfile_place in \<open>simp_all add: ref_main_def ref_os_def\<close>)
qed

text \<open>A system on which the restart of the proxy gives it a new pid each time it is asked for.\<close>

definition restarting_os :: "nat os" where
  "restarting_os = \<lparr>os_system = (\<lambda>cmd n. (0, n)), os_popen = (\<lambda>cmd n. (Some ([show_nat n], 0), Suc n)),
     os_alive = (\<lambda>pid. False), os_wait_worker = (\<lambda>n. (([], Exited 0), n))\<rparr>"

definition counting_process :: "filesystem \<Rightarrow> nat process" where
  "counting_process F = \<lparr>ps_world = 5, ps_files = F, ps_trace = [], ps_signaled_exit = False,
     ps_system_proxy_was_running = False\<rparr>"

lemma restart_succeeds:
  assumes "get_proxy_executable_name c = Inr ''unbound''" and "\<not> no_system_dns_proxy c"
  shows "\<exists>s1. start_dns_proxy c restarting_os ''/bin/pidof'' p (counting_process F) = (Inr (), s1)"
proof -
  have "atoi (trim_copy (takeWhile (\<lambda>c. c \<noteq> CHR 0x00) (show_nat 5))) = 5"
    "atoi (trim_copy (takeWhile (\<lambda>c. c \<noteq> CHR 0x00) (show_nat 6))) = 6"
    by code_simp+
  with assms show ?thesis
    by (simp add: start_dns_proxy_def get_pid_of_def run_command_def run_rc_def rc_commands_def run_system_def
        act_def restarting_os_def counting_process_def Let_def wait_for_pid_done)
qed

lemma ref_proxy_names:
  "get_proxy_executable_name unix_config = Inr ''unbound''" "\<not> no_system_dns_proxy unix_config"
  "get_proxy_executable_name writing_config = Inr ''unbound''" "\<not> no_system_dns_proxy writing_config"
  by code_simp+

lemma counting_files: "save_pidfile unix_config 77 (ps_files (counting_process ref_files)) = Inr running_files"
  using ref_pidfile_saved by (simp add: counting_process_def)

lemma master_cleans_up_witness:
  "\<exists>s'. process_master unix_config restarting_os ''/bin/pidof'' 77 78 (new_dnsproxy Unbound) (counting_process ref_files)
      = (Inr (), s') \<and> fs_files (ps_files s') (service_pidfile unix_config) = None \<and>
    Post_semaphore \<in> set (ps_trace s')"
proof -
  let ?s = "counting_process ref_files" and ?p = "new_dnsproxy Unbound"
  have "?s\<lparr>ps_files := running_files\<rparr> = counting_process running_files" by (simp add: counting_process_def)
  then obtain s1 where s1: "start_dns_proxy unix_config restarting_os ''/bin/pidof'' ?p (?s\<lparr>ps_files := running_files\<rparr>)
      = (Inr (), s1)"
    using restart_succeeds [OF ref_proxy_names(1,2), of ?p running_files] by auto
  obtain s' where s': "process_master unix_config restarting_os ''/bin/pidof'' 77 78 ?p ?s = (Inr (), s')"
    using master_survives [OF counting_files s1, of 0] by (auto simp: restarting_os_def)
  have "Post_semaphore \<notin> set (ps_trace ?s)" by (simp add: counting_process_def)
  from master_cleans_up [OF s' counting_files s1 this] s' show ?thesis by simp
qed

text \<open>Every action takes a tenth of a second.\<close>

definition ref_timing :: timing where
  "ref_timing = \<lparr>tm_dur = (\<lambda>i a. 100), tm_delay = 0, tm_start = 0\<rparr>"




text \<open>The three threads of the program, of which two have taken a session.\<close>

lemma pool_serves_threads_witness:
  "\<exists>p ts. pool_run (new_pool 5, map (new_thread ref_resolver) [[Reads_list True], [Runs (Create [] [] [] True)], [Reads]])
      [0, 1] (p, ts) \<and> (\<forall>t < 3. \<exists>st. pool_step (p, ts) t st)"
proof -
  let ?uss = "[[Reads_list True], [Runs (Create [] [] [] True)], [Reads]]"
  let ?ts = "map (new_thread ref_resolver) ?uss"
  let ?both = "[Lease, Give_back, Lease, Give_back]"
  let ?t2 = "\<lparr>th_todo = [Lease, Give_back], th_held = []\<rparr> :: thread"
  let ?took = "\<lambda>i. \<lparr>th_todo = [Give_back, Lease, Give_back], th_held = [i]\<rparr> :: thread"
  let ?new = "[?took 0, ?took 1, ?t2]" and ?p = "\<lparr>pl_busy = [True, True, False, False, False]\<rparr>"
  have ts: "?ts = [\<lparr>th_todo = ?both, th_held = []\<rparr>, \<lparr>th_todo = ?both, th_held = []\<rparr>, ?t2]"
    by (simp add: new_thread_def get_list_sessions_def create_sessions_def one_session_def)
  have p: "db_session (new_pool 5) = Some (0, \<lparr>pl_busy = [True, False, False, False, False]\<rparr>)"
    "db_session \<lparr>pl_busy = [True, False, False, False, False]\<rparr> = Some (1, ?p)"
    by code_simp+
  have "pool_step (new_pool 5, [\<lparr>th_todo = ?both, th_held = []\<rparr>, \<lparr>th_todo = ?both, th_held = []\<rparr>, ?t2]) 0
      (\<lparr>pl_busy = [True, False, False, False, False]\<rparr>, [?took 0, \<lparr>th_todo = ?both, th_held = []\<rparr>, ?t2])"
    using lease [of 0 "[\<lparr>th_todo = ?both, th_held = []\<rparr>, \<lparr>th_todo = ?both, th_held = []\<rparr>, ?t2]", OF _ _ p(1)] by simp
  note run = pool_run.runs [OF pool_run.idle this]
  have "pool_step (\<lparr>pl_busy = [True, False, False, False, False]\<rparr>, [?took 0, \<lparr>th_todo = ?both, th_held = []\<rparr>, ?t2]) 1
      (?p, ?new)"
    using lease [of 1 "[?took 0, \<lparr>th_todo = ?both, th_held = []\<rparr>, ?t2]", OF _ _ p(2)] by simp
  note run = pool_run.runs [OF run this]
  have run: "pool_run (new_pool 5, ?ts) [0, 1] (?p, ?new)" using run unfolding ts by simp
  have "\<forall>t < 3. \<exists>st. pool_step (?p, ?new) t st"
  proof (intro allI impI)
    fix t :: nat
    assume "t < 3"
    then have "t = 0 \<or> t = 1 \<or> t = 2" by linarith
    then have "t < length ?new" "th_todo (?new ! t) \<noteq> []" by auto
    moreover have "(0::nat) < 5" "length ?uss \<le> 5" by simp_all
    ultimately show "\<exists>st. pool_step (?p, ?new) t st"
      using pool_serves_threads [OF _ run] by blast
  qed
  with run show ?thesis by blast
qed

definition refusing_os :: "nat os" where
  "refusing_os = restarting_os\<lparr>os_system := \<lambda>cmd n. (1, n)\<rparr>"

lemma restart_fails:
  "\<exists>e s1. start_dns_proxy unix_config refusing_os ''/bin/pidof'' p (counting_process F) = (Inl e, s1)"
proof -
  have "get_proxy_executable_name unix_config = Inr ''unbound''" "\<not> no_system_dns_proxy unix_config"
    by code_simp+
  then show ?thesis
    by (simp add: start_dns_proxy_def get_pid_of_def run_command_def run_rc_def rc_commands_def run_system_def
        act_def refusing_os_def restarting_os_def counting_process_def Let_def)
qed



definition ref_main_counting :: "nat main_env" where
  "ref_main_counting = \<lparr>me_config = unix_config, me_vm = [], me_json = ref_json, me_resolver = ref_resolver,
     me_show_optional = (\<lambda>x. []), me_os = restarting_os, me_net = ref_net,
     me_order = (\<lambda>kvs. kvs), me_time = ''Thu Jan  1 00:00:00 1970'', me_now = 0,
     me_uname = None, me_forked = Some 78, me_pid = 77, me_garbage = 0, me_garbage_pid = -1, me_worker = (\<lambda>s. s),
     me_worker_db = (\<lambda>d. d)\<rparr>"

definition counting_state :: "filesystem \<Rightarrow> db \<Rightarrow> nat main_state" where
  "counting_state F d = \<lparr>mn_process = counting_process F, mn_db = d, mn_out = [], mn_status = new_status 0\<rparr>"

lemma port_taken_reloads_witness:
  "\<exists>st'. run_service ref_main_counting (new_dnsproxy Unbound) ''/bin/pidof'' (counting_state ref_files ref_db_used) =
      (Turn_over, st') \<and> \<not> ps_signaled_exit (mn_process st')"
proof -
  let ?E = ref_main_counting and ?st = "counting_state ref_files ref_db_used"
  have c: "\<not> is_foreground (me_config ?E)" "me_forked ?E = Some 78" "\<not> ps_signaled_exit (mn_process ?st)"
    "service_port (me_config ?E) > 0"
    by (simp_all add: ref_main_counting_def counting_state_def counting_process_def unix_config_def
        default_config_def Let_def)
  have b: "(\<lambda>port. Some (RuntimeError ''bind: Address already in use'')) (service_port (me_config ?E)) \<noteq> None"
    by simp
  have w: "process_worker True (fst (unix_worker_run (me_config ?E)
      (\<lambda>port. Some (RuntimeError ''bind: Address already in use'')) (\<lambda>n. None) (\<lambda>x. False)
      (\<lambda>s. (Stop_requested, s)) root_creds (ref_db_used, ()))) = Some (Exited 0)"
    using c(4) by (simp add: process_worker_def unix_worker_run_def run_servers_def)
  have o: "fst (os_wait_worker (me_os ?E) n) = ([], Exited 0)" for n
    by (simp add: ref_main_counting_def restarting_os_def)
  have f: "save_pidfile (me_config ?E) (me_pid ?E) (ps_files (mn_process ?st)) = Inr running_files"
    using counting_files by (simp add: ref_main_counting_def counting_state_def)
  obtain s1 where s: "start_dns_proxy (me_config ?E) (me_os ?E) ''/bin/pidof'' (new_dnsproxy Unbound)
      ((mn_process ?st)\<lparr>ps_files := running_files\<rparr>) = (Inr (), s1)"
    using restart_succeeds [OF ref_proxy_names(1,2), of "new_dnsproxy Unbound" running_files]
    by (auto simp: ref_main_counting_def counting_state_def counting_process_def)
  show ?thesis by (rule port_taken_reloads [OF c b w o f s])
qed

lemma main_keeps_database_witness:
  "db_reachable (me_resolver ref_main) (mn_db (snd (main_loop 3 ref_main (ref_state ref_files ref_db)))) \<and>
    db_wf (mn_db (snd (main_loop 3 ref_main (ref_state ref_files ref_db))))"
  by (rule main_keeps_database) (simp_all add: ref_main_def ref_state_def ref_db_reachable)

section \<open>Policies\<close>

lemma ref_calm: "calm ref_db_used"
  by (simp add: calm_def ref_db_wf list_flags_def ref_db_rows custom_row_def white_row_def)

lemma ref_standard: "standard (policy_of ref_db_used)"
  by (simp add: standard_def list_kinds_def ref_db_rows custom_row_def white_row_def)

lemma ref_valid: "valid_name ref_resolver ''ads.com''"
  by code_simp

lemma managers_refine_policy_witness:
  "(policy_of (fold (perform ref_resolver) [Unblock [''ads.com''], Block [''w.org'']] ref_db_used),
      frozen (fold (perform ref_resolver) [Unblock [''ads.com''], Block [''w.org'']] ref_db_used)) =
    fold (abstract_step ref_resolver) [Unblock [''ads.com''], Block [''w.org'']]
      (policy_of ref_db_used, frozen ref_db_used)"
  using managers_refine_policy [OF calm_settled [OF ref_calm], of ref_resolver "[Unblock [''ads.com''], Block [''w.org'']]"]
  by (rule conjunct1)


lemma user_commands_any_order_witness:
  "verdict (policy_of (fold (perform ref_resolver) [Unblock [''ads.com''], Block [''ads.com'']] ref_db_used))
      ''ads.com'' = Max (insert (verdict (policy_of ref_db_used) ''ads.com'')
        ((\<lambda>c. wish ref_resolver c ''ads.com'') ` set [Unblock [''ads.com''], Block [''ads.com'']])) \<and>
    verdict (policy_of (fold (perform ref_resolver)
        [Block [''ads.com''], Unblock [''ads.com''], Block [''ads.com'']] ref_db_used)) ''ads.com'' =
      verdict (policy_of (fold (perform ref_resolver)
        [Unblock [''ads.com''], Block [''ads.com'']] ref_db_used)) ''ads.com''"
  by (rule user_commands_any_order [OF ref_calm ref_standard]) auto

lemma recreated_whitelist_blocks_witness:
  "blocked (fold (perform ref_resolver)
    [Remove ''WHITELIST'', Create ''WHITELIST'' [] [] True, Unblock [''ads.com'']] ref_db_used) ''ads.com''"
  by (rule recreated_whitelist_blocks [OF ref_calm ref_valid])

lemma unblock_without_whitelist_freezes_witness:
  "fold (perform ref_resolver) [Unblock [''ads.com''], Block [''x.net''], Remove ''CUSTOM'']
      (sql_delete_list ''WHITELIST'' ref_db_used) =
    (sql_delete_list ''WHITELIST'' ref_db_used)\<lparr>db_faults := [Stuck]\<rparr>"
proof -
  let ?d = "sql_delete_list ''WHITELIST'' ref_db_used"
  have calm: "calm ?d"
    using calmD [OF ref_calm] wf_delete_list [of ref_db_used "''WHITELIST''"]
      txns_invariant [of ref_db_used ?d]
    by (simp add: calm_def list_flags_def sql_delete_list_def Let_def)
  have gone: "\<not> has_list ''WHITELIST'' ?d"
    by (auto simp: has_list_def sql_delete_list_def Let_def)
  show ?thesis
    by (rule conjunct1) (rule unblock_without_whitelist_freezes [OF calm ref_valid gone])
qed

section \<open>The servers\<close>

lemma system_keeps_database_witness:
  "db_wf (sy_db (http_event unix_config (Accepted [] True)
      (json_event ref_libs (is_debug unix_config) (Accepted ''tok'' True) (new_system (ref_service ref_db))))) \<and>
    list_flags (sy_db (http_event unix_config (Accepted [] True)
      (json_event ref_libs (is_debug unix_config) (Accepted ''tok'' True) (new_system (ref_service ref_db)))))"
proof (rule system_keeps_database)
  show "db_reachable ref_resolver (sv_db (ref_service ref_db))"
    by (simp add: ref_service_def ref_db_reachable)
  show "(system_step ref_libs unix_config)\<^sup>*\<^sup>* (new_system (ref_service ref_db))
      (http_event unix_config (Accepted [] True)
        (json_event ref_libs (is_debug unix_config) (Accepted ''tok'' True) (new_system (ref_service ref_db))))"
    by (rule rtranclp.rtrancl_into_rtrancl [OF r_into_rtranclp]) (rule step_json step_http)+
qed

text \<open>A client that connects and guesses.\<close>

definition guess_events :: "net_event list" where
  "guess_events = [Accepted ''tok'' True,
     Delivered 0 (request_string ref_json ''auth'' (JObject [(''hash'', JString ''guess'')])) True]"

definition guessed :: system where
  "guessed = fold (json_event ref_libs (is_debug unix_config)) guess_events
     (new_system (ref_service protected_db))"




section \<open>The client and its tests\<close>

lemma ref_wire_safe: "wire_safe 4 ref_db_used"
  by (simp add: wire_safe_def ref_db_rows custom_row_def white_row_def next_list_id_def)

lemma ref_test_ready: "test_ready 4 ref_db_used" "import_ready 2 ref_db_used"
proof -
  have "password ref_db_used = []"
    by (simp add: password_def sm_get_def query_ok ref_db_rows sql_select_setting_def Let_def)
  moreover have "wire_safe 2 ref_db_used"
    using ref_wire_safe by (simp add: wire_safe_def)
  ultimately show "test_ready 4 ref_db_used" "import_ready 2 ref_db_used"
    using ref_calm ref_standard ref_wire_safe by (simp_all add: test_ready_def import_ready_def)
qed

lemma ref_knows: "knows_names ref_resolver" "valid_name ref_resolver test_domain_name"
  by code_simp+

lemma ref_unplaced: "verdict (policy_of ref_db_used) n = Whitelisted \<longleftrightarrow> n = ''w.org''"
  by (simp add: verdict_listed(2) [OF calmD(1,2) [OF ref_calm]])
   (auto simp: whitelisted_def listed_def whitelists_def domain_map_def ref_db_rows custom_row_def white_row_def)




section \<open>From the client to the resolver\<close>

lemma ref_config_path: "config_path writing_config = ''/etc/unbound/unbound.conf.d/dnsblocker.conf''"
  by code_simp

lemma ref_starts:
  "starts_with_system_proxy (ref_main\<lparr>me_config := writing_config\<rparr>) ref_files (new_dnsproxy Unbound)"
proof -
  have c: "fs_exists ref_files (service_db writing_config)"
    "create_dnsproxy writing_config = Inr (new_dnsproxy Unbound)"
    "\<not> fs_exists ref_files (service_pidfile writing_config)"
    "dns_proxy_config writing_config = []" "dns_proxy_generate_config writing_config"
    "\<not> no_system_dns_proxy writing_config" "fs_dirs ref_files (dns_proxy_include_dir writing_config)"
    "fs_writable ref_files (config_path writing_config)"
    "chosen_interface writing_config = Inr ''lo''" "network_ip4address writing_config = ''127.0.0.1''"
    by code_simp+
  have "fst (configure writing_config ref_net new_configurator (new_dnsproxy Unbound)) = Inr ()"
    by (simp add: configure_def c(9,10) run_network_discovery_def ref_net_def add_interface_def
        new_configurator_def Let_def)
  with c show ?thesis
    by (simp add: starts_with_system_proxy_def ref_main_def is_already_running_def)
qed

lemma remote_commands_reach_resolver_witness:
  "\<exists>s' p' b st' ns. snd (remote_run ref_json (server_wire ref_libs False) [R_block [''x.net'', ''bad''], R_unblock [''ads.com'']]
      ([], ref_connection True, ref_service ref_db_used)) = s' \<and>
    start_pass (ref_main\<lparr>me_config := writing_config\<rparr>) (ref_state ref_files (sv_db (snd (snd s')))) =
      (Started p' b, st') \<and>
    fs_files (ps_files (mn_process st')) ''/etc/unbound/unbound.conf.d/dnsblocker.conf'' =
      Some (proxy_file writing_config Unbound ns)"
proof -
  let ?rs = "[R_block [''x.net'', ''bad''], R_unblock [''ads.com'']]"
  let ?M = "ref_main\<lparr>me_config := writing_config\<rparr>"
  obtain res err c s' where run: "remote_run (le_json ref_libs) (server_wire ref_libs False) ?rs
      ([], ref_connection True, ref_service ref_db_used) = (res, err, c, s')"
    by (metis prod.exhaust)
  have h: "cn_open (ref_connection True)" "cn_authenticated (ref_connection True)"
    "settled (sv_db (ref_service ref_db_used))" "\<forall>r \<in> set ?rs. plain_remote r"
    using calm_settled [OF ref_calm] by (simp_all add: ref_connection_def ref_service_def of_char_def)
  have st: "mn_db (ref_state ref_files (sv_db s')) = sv_db s'"
    "ps_files (mn_process (ref_state ref_files (sv_db s'))) = ref_files"
    by (simp_all add: ref_state_def ref_process_def)
  have "starts_with_system_proxy ?M (ps_files (mn_process (ref_state ref_files (sv_db s')))) (new_dnsproxy Unbound)"
    using ref_starts by (simp only: st(2))
  from remote_commands_reach_resolver [OF ref_libs_ok(1,2) h run st(1) this]
  obtain p' b st' ns where "start_pass ?M (ref_state ref_files (sv_db s')) = (Started p' b, st')"
    "fs_files (ps_files (mn_process st')) (config_path (me_config ?M)) =
      Some (proxy_file (me_config ?M) (px_kind (new_dnsproxy Unbound)) ns)"
    by blast
  moreover have "px_kind (new_dnsproxy Unbound) = Unbound" by code_simp
  moreover have "le_json ref_libs = ref_json" by (simp add: ref_libs_def)
  ultimately show ?thesis using run ref_config_path by (intro exI [of _ "(err, c, s')"]) auto
qed

text \<open>A worker whose effect on the database is that of a client's commands.\<close>

definition ref_commands :: "remote list" where
  "ref_commands = [R_block [''x.net'', ''bad''], R_unblock [''ads.com'']]"

definition ref_main_serving :: "nat main_env" where
  "ref_main_serving = ref_main_counting\<lparr>me_config := writing_config,
     me_vm := me_vm ref_main,
     me_worker_db := \<lambda>d. sv_db (snd (snd (snd (remote_run ref_json (server_wire ref_libs False) ref_commands
       ([], ref_connection True, ref_service d)))))\<rparr>"

lemma ref_serving_starts:
  "starts_with_system_proxy ref_main_serving ref_files (new_dnsproxy Unbound)"
proof -
  have "\<not> fs_exists ref_files (service_pidfile writing_config)" by code_simp
  with ref_starts show ?thesis
    by (simp add: starts_with_system_proxy_def ref_main_serving_def ref_main_counting_def ref_main_def
        is_already_running_def)
qed

lemma ref_serving_fields:
  "me_config ref_main_serving = writing_config" "me_vm ref_main_serving = me_vm ref_main"
  "me_os ref_main_serving = restarting_os" "me_forked ref_main_serving = Some 78" "me_pid ref_main_serving = 77"
  by (simp_all add: ref_main_serving_def ref_main_counting_def)


end
