(* ===== verification/Dbl_Columns.thy ===== *)
theory Dbl_Columns
  imports Dbl_Store
begin

text \<open>
  How a row of a query becomes a value type and back (\<open>type_conversion\<close> in \<open>src/dbl/types\<close>,
  \<open>src/dbl/db/utils\<close>).  SOCI's \<open>values\<close> is a map from column names to a cell with an indicator: to
  read a column that is not there, or null without a default, throws, and so does a column of
  another type.
\<close>

section \<open>Values\<close>

datatype cell = C_int int | C_string string

datatype indicator = I_ok | I_null

type_synonym row_values = "string \<Rightarrow> (cell \<times> indicator) option"

definition soci_error :: "string \<Rightarrow> exn + 'a" where
  "soci_error m = Inl (RuntimeError m)"

definition int_of_cell :: "cell \<Rightarrow> exn + int" where
  "int_of_cell c = (case c of C_int i \<Rightarrow> Inr i | C_string s \<Rightarrow> Inl (OtherException ''std::bad_cast''))"

definition string_of_cell :: "cell \<Rightarrow> exn + string" where
  "string_of_cell c = (case c of C_string s \<Rightarrow> Inr s | C_int i \<Rightarrow> Inl (OtherException ''std::bad_cast''))"

text \<open>\<open>get<T>(k)\<close>, \<open>get<T>(k, default)\<close> and \<open>get<boost::optional<T>>(k)\<close>, for a reader of cells.\<close>

definition v_get :: "(cell \<Rightarrow> exn + 'a) \<Rightarrow> string \<Rightarrow> row_values \<Rightarrow> exn + 'a" where
  "v_get rd k v =
     (case v k of
        None \<Rightarrow> soci_error ''Column not found''
      | Some (c, I_ok) \<Rightarrow> rd c
      | Some (c, I_null) \<Rightarrow> soci_error ''Column contains NULL value and no default was provided'')"

definition v_get_default :: "(cell \<Rightarrow> exn + 'a) \<Rightarrow> 'a \<Rightarrow> string \<Rightarrow> row_values \<Rightarrow> exn + 'a" where
  "v_get_default rd def k v =
     (case v k of
        None \<Rightarrow> soci_error ''Column not found''
      | Some (c, I_ok) \<Rightarrow> rd c
      | Some (c, I_null) \<Rightarrow> Inr def)"

definition v_get_optional :: "(cell \<Rightarrow> exn + 'a) \<Rightarrow> string \<Rightarrow> row_values \<Rightarrow> exn + 'a option" where
  "v_get_optional rd k v =
     (case v k of
        None \<Rightarrow> soci_error ''Column not found''
      | Some (c, I_ok) \<Rightarrow> bindE (rd c) (\<lambda>x. Inr (Some x))
      | Some (c, I_null) \<Rightarrow> Inr None)"

definition v_set :: "string \<Rightarrow> cell \<Rightarrow> row_values \<Rightarrow> row_values" where
  "v_set k c v = v(k \<mapsto> (c, I_ok))"

section \<open>The helpers for optional columns\<close>

text \<open>\<open>opt.get()\<close> is evaluated whether or not there is a value: without one it fails an assertion.\<close>

definition set_optional_value ::
  "('a \<Rightarrow> cell) \<Rightarrow> row_values \<Rightarrow> string \<Rightarrow> 'a option \<Rightarrow> row_values outcome" where
  "set_optional_value mk v k opt =
     (case opt of None \<Rightarrow> Crash | Some x \<Rightarrow> Ok (v(k \<mapsto> (mk x, I_ok))))"

text \<open>\<open>get_value\<close>: \<open>def\<close> is \<open>T()\<close>.\<close>

definition get_value :: "'a \<Rightarrow> 'a option \<Rightarrow> 'a" where
  "get_value def opt = (case opt of None \<Rightarrow> def | Some x \<Rightarrow> x)"

text \<open>The template, for a \<open>T\<close> with a test for the empty value.\<close>

definition get_value_indicator :: "('a \<Rightarrow> bool) \<Rightarrow> 'a \<Rightarrow> 'a option \<Rightarrow> bool \<Rightarrow> indicator" where
  "get_value_indicator is_empty def opt null_on_empty =
     (let ind = (if opt \<noteq> None then I_ok else I_null); value = get_value def opt
      in if null_on_empty \<and> is_empty value then I_null else ind)"

definition string_indicator :: "string option \<Rightarrow> bool \<Rightarrow> indicator" where
  "string_indicator opt null_on_empty =
     (let ind = (if opt \<noteq> None then I_ok else I_null); value = get_value [] opt
      in if null_on_empty \<and> value = [] then I_null else ind)"

text \<open>For \<open>std::tm\<close>; \<open>mktime\<close> is the function of the C library, \<open>zero\<close> the value \<open>std::tm()\<close>.\<close>

definition tm_indicator :: "('tm \<Rightarrow> int) \<Rightarrow> 'tm \<Rightarrow> 'tm option \<Rightarrow> bool \<Rightarrow> indicator" where
  "tm_indicator mktime zero opt null_on_empty =
     (let ind = (if opt \<noteq> None then I_ok else I_null)
      in if null_on_empty
         then (let value = get_value zero opt; t = mktime value in if t = 0 then I_null else ind)
         else ind)"

lemma string_indicator_template: "string_indicator = get_value_indicator (\<lambda>s. s = []) []"
  by (simp add: fun_eq_iff string_indicator_def get_value_indicator_def)

text \<open>A column is written as null exactly when there is no value, or an empty one that should count
  as none.\<close>

theorem indicator_null_iff:
  "get_value_indicator is_empty def opt null_on_empty = I_null \<longleftrightarrow>
     opt = None \<or> null_on_empty \<and> is_empty (the opt)"
  by (cases opt) (simp_all add: get_value_indicator_def get_value_def)

section \<open>Domain lists\<close>

definition list_from_base :: "row_values \<Rightarrow> domain_list \<Rightarrow> exn + domain_list" where
  "list_from_base v r =
     bindE (v_get int_of_cell ''id'' v) (\<lambda>i.
     bindE (v_get string_of_cell ''name'' v) (\<lambda>n.
     bindE (v_get int_of_cell ''active'' v) (\<lambda>a.
     bindE (v_get int_of_cell ''custom'' v) (\<lambda>c.
     bindE (v_get int_of_cell ''mtime'' v) (\<lambda>m.
     bindE (v_get string_of_cell ''url'' v) (\<lambda>u.
     bindE (v_get_optional string_of_cell ''description'' v) (\<lambda>de.
     Inr (r\<lparr>dl_id := i, dl_name := n, dl_active := a, dl_custom := c, dl_mtime := m, dl_url := u,
            dl_description := de\<rparr>))))))))"

definition list_to_base :: "domain_list \<Rightarrow> row_values \<Rightarrow> (row_values \<times> indicator) outcome" where
  "list_to_base r v =
     (let v = v_set ''url'' (C_string (dl_url r)) (v_set ''mtime'' (C_int (dl_mtime r))
                (v_set ''custom'' (C_int (dl_custom r)) (v_set ''active'' (C_int (dl_active r))
                (v_set ''name'' (C_string (dl_name r)) (v_set ''id'' (C_int (dl_id r)) v)))))
      in case set_optional_value C_string v ''description'' (dl_description r) of
           Ok v \<Rightarrow> Ok (v, I_ok)
         | Throw e \<Rightarrow> Throw e
         | Crash \<Rightarrow> Crash)"

text \<open>Writing a list and reading it back restores every column; a list without a description can not
  be written at all, the attempt to write its null column ends the program.\<close>

theorem list_columns_roundtrip:
  "case dl_description l of
     None \<Rightarrow> list_to_base l v = Crash
   | Some de \<Rightarrow> \<exists>v'. list_to_base l v = Ok (v', I_ok) \<and>
       list_from_base v' r = Inr (l\<lparr>dl_domains := dl_domains r\<rparr>)"
  by (cases "dl_description l")
    (auto simp: list_to_base_def list_from_base_def set_optional_value_def v_set_def v_get_def
      v_get_optional_def int_of_cell_def string_of_cell_def Let_def)

text \<open>The row of a list as the queries select it, and what the model of the queries makes of it.\<close>

definition list_columns :: "list_row \<Rightarrow> row_values" where
  "list_columns l =
     [''id'' \<mapsto> (C_int (lr_id l), I_ok), ''name'' \<mapsto> (C_string (lr_name l), I_ok),
      ''url'' \<mapsto> (C_string (lr_url l), I_ok), ''description'' \<mapsto> (C_string (lr_description l), I_ok),
      ''active'' \<mapsto> (C_int (lr_active l), I_ok), ''custom'' \<mapsto> (C_int (lr_custom l), I_ok),
      ''mtime'' \<mapsto> (C_int (lr_mtime l), I_ok)]"

theorem list_from_row_is_from_base: "list_from_base (list_columns l) new_domain_list = Inr (list_from_row l)"
  by (simp add: list_from_base_def list_columns_def v_get_def v_get_optional_def int_of_cell_def
      string_of_cell_def list_from_row_def new_domain_list_def)

section \<open>Domains\<close>

definition domain_read_base :: "row_values \<Rightarrow> domain \<Rightarrow> exn + domain" where
  "domain_read_base v r =
     bindE (v_get string_of_cell ''name'' v) (\<lambda>n.
     bindE (v_get_default int_of_cell 0 ''list_id'' v) (\<lambda>i.
     bindE (v_get_optional string_of_cell ''list_name'' v) (\<lambda>l.
     Inr (r\<lparr>d_name := n, d_list_id := i, d_list_name := l\<rparr>))))"

definition domain_to_base :: "domain \<Rightarrow> row_values \<Rightarrow> row_values \<times> indicator" where
  "domain_to_base r v =
     (v_set ''list_id'' (C_int (d_list_id r)) (v_set ''name'' (C_string (d_name r)) v), I_ok)"

definition domain_columns :: "int \<times> string \<times> string option \<Rightarrow> row_values" where
  "domain_columns x =
     (case x of (i, n, l) \<Rightarrow>
        [''list_id'' \<mapsto> (C_int i, I_ok), ''name'' \<mapsto> (C_string n, I_ok),
         ''list_name'' \<mapsto> (case l of None \<Rightarrow> (C_string [], I_null) | Some s \<Rightarrow> (C_string s, I_ok))])"

theorem domain_from_base_is_read:
  "domain_read_base (domain_columns x) r = Inr (domain_from_base x)"
  by (cases x; cases "snd (snd x)")
    (simp_all add: domain_read_base_def domain_columns_def v_get_def v_get_default_def v_get_optional_def
      int_of_cell_def string_of_cell_def)

text \<open>What is written of a domain lacks the name of its list: without a column that holds it already
  the domain can not be read back.\<close>

theorem domain_columns_lack_list_name:
  "domain_read_base (fst (domain_to_base x v)) r =
     (case v ''list_name'' of
        None \<Rightarrow> soci_error ''Column not found''
      | Some c \<Rightarrow> bindE (v_get_optional string_of_cell ''list_name'' v) (\<lambda>l. Inr (x\<lparr>d_list_name := l\<rparr>)))"
  by (cases x; cases r)
    (simp add: domain_read_base_def domain_to_base_def v_set_def v_get_def v_get_default_def
      v_get_optional_def int_of_cell_def string_of_cell_def soci_error_def split: option.split)

section \<open>The second conversion\<close>

text \<open>\<open>whitelisted_domain.hxx\<close> specialises the conversion of \<open>Domain\<close> once more, for its column name
  only.  Nothing includes it; together with \<open>domain.hxx\<close> it could not be compiled.\<close>

definition whitelisted_from_base :: "row_values \<Rightarrow> domain \<Rightarrow> exn + domain" where
  "whitelisted_from_base v r = bindE (v_get string_of_cell ''name'' v) (\<lambda>n. Inr (r\<lparr>d_name := n\<rparr>))"

definition whitelisted_to_base :: "domain \<Rightarrow> row_values \<Rightarrow> row_values \<times> indicator" where
  "whitelisted_to_base r v = (v_set ''name'' (C_string (d_name r)) v, I_ok)"

text \<open>The two agree on the name.  This one can read back what either writes, but of the list, which the
  key of the table includes, it keeps what the record and the row held before.\<close>

theorem whitelisted_conversion:
  "whitelisted_from_base (fst (whitelisted_to_base x v)) r = Inr (r\<lparr>d_name := d_name x\<rparr>) \<and>
   whitelisted_from_base (fst (domain_to_base x v)) r = Inr (r\<lparr>d_name := d_name x\<rparr>) \<and>
   fst (whitelisted_to_base x v) ''list_id'' = v ''list_id'' \<and>
   (domain_read_base v r = Inr y \<longrightarrow> whitelisted_from_base v r = Inr (r\<lparr>d_name := d_name y\<rparr>))"
  by (auto simp: whitelisted_from_base_def whitelisted_to_base_def domain_to_base_def domain_read_base_def
      v_set_def v_get_def string_of_cell_def run_iff)

end
