(* ===== verification/Dbl_Script.thy ===== *)
theory Dbl_Script
  imports Dbl_Process
begin

text \<open>
  The runner of hook scripts (\<open>src/dbl/sys/script\<close>): a script of the platform's directory runs with
  the variables of the runner in its environment.  Nothing in the repository constructs it yet.
\<close>

record script =
  sc_name :: string
  sc_path :: string
  sc_env :: "(string \<times> string) list"
  sc_status :: int

definition new_script :: "string \<Rightarrow> script" where
  "new_script name = \<lparr>sc_name = name, sc_path = [], sc_env = [], sc_status = 1\<rparr>"

definition set_env :: "string \<Rightarrow> string \<Rightarrow> script \<Rightarrow> script" where
  "set_env var val s =
     s\<lparr>sc_env := filter (\<lambda>kv. fst kv \<noteq> var) (sc_env s) @ [(var, val)]\<rparr>"

definition is_success :: "script \<Rightarrow> bool" where
  "is_success s \<longleftrightarrow> sc_status s = 0"

text \<open>The environment of the process: \<open>setenv\<close> with overwriting, \<open>unsetenv\<close>.\<close>

type_synonym environment = "string \<Rightarrow> string option"

definition export_env :: "script \<Rightarrow> environment \<Rightarrow> environment" where
  "export_env s e = fold (\<lambda>(k, v) e. e((''DBL_'' @ k) \<mapsto> v)) (sc_env s) e"

definition unexport_env :: "script \<Rightarrow> environment \<Rightarrow> environment" where
  "unexport_env s e = fold (\<lambda>(k, v) e. e(''DBL_'' @ k := None)) (sc_env s) e"

text \<open>
  \<open>run\<close>; \<open>system\<close> gives the status of the command in an environment.
\<close>

definition hook_path :: "config \<Rightarrow> script \<Rightarrow> string" where
  "hook_path c s =
     path_append (path_append (path_append (base_dir c) (script_dir c)) (platform c)) (sc_name s)"

definition script_run ::
  "config \<Rightarrow> filesystem \<Rightarrow> (string \<Rightarrow> environment \<Rightarrow> int) \<Rightarrow> script \<Rightarrow> environment
   \<Rightarrow> (exn + bool) \<times> script \<times> environment" where
  "script_run c F system s e =
     (let path = hook_path c s in
      if \<not> fs_exists F path then (Inl (RuntimeError (''Script not found: '' @ path)), s, e)
      else (let s = s\<lparr>sc_path := path\<rparr>; e = export_env s e;
                s = s\<lparr>sc_status := system (sc_path s) e\<rparr>; e = unexport_env s e
            in (Inr (is_success s), s, e)))"

lemma set_env_distinct: "distinct (map fst (sc_env s)) \<Longrightarrow> distinct (map fst (sc_env (set_env k v s)))"
  by (auto simp: set_env_def distinct_map_filter)

lemma export_env_other: "(\<And>k. x \<noteq> ''DBL_'' @ k) \<Longrightarrow> export_env s e x = e x"
proof -
  assume "\<And>k. x \<noteq> ''DBL_'' @ k"
  then have "fold (\<lambda>(k, v) e. e((''DBL_'' @ k) \<mapsto> v)) kvs e x = e x" for kvs and e :: environment
    by (induction kvs arbitrary: e) (auto simp: fun_upd_def)
  then show ?thesis by (simp add: export_env_def)
qed

lemma export_env_own:
  assumes "distinct (map fst (sc_env s))" and "(k, v) \<in> set (sc_env s)"
  shows "export_env s e (''DBL_'' @ k) = Some v"
proof -
  have keep: "fold (\<lambda>(k, v) e. e((''DBL_'' @ k) \<mapsto> v)) kvs e (''DBL_'' @ k) = e (''DBL_'' @ k)"
    if "k \<notin> fst ` set kvs" for kvs and e :: environment
    using that by (induction kvs arbitrary: e) auto
  have "fold (\<lambda>(k, v) e. e((''DBL_'' @ k) \<mapsto> v)) kvs e (''DBL_'' @ k) = Some v"
    if "distinct (map fst kvs)" "(k, v) \<in> set kvs" for kvs and e :: environment
    using that
  proof (induction kvs arbitrary: e)
    case (Cons kv kvs)
    then show ?case
      using keep [of kvs] by (cases kv) (auto simp: rev_image_eqI simp del: fun_upd_apply simp: fun_upd_same)
  qed simp
  with assms show ?thesis by (simp add: export_env_def)
qed

lemma unexport_env_eq:
  "unexport_env s e = (\<lambda>x. if x \<in> (\<lambda>kv. ''DBL_'' @ fst kv) ` set (sc_env s) then None else e x)"
proof -
  have "fold (\<lambda>(k, v) e. e(''DBL_'' @ k := None)) kvs e =
      (\<lambda>x. if x \<in> (\<lambda>kv. ''DBL_'' @ fst kv) ` set kvs then None else e x)"
    for kvs :: "(string \<times> string) list" and e :: environment
    by (induction kvs arbitrary: e) (auto simp: fun_eq_iff)
  then show ?thesis by (simp add: unexport_env_def)
qed

text \<open>A script sees every variable of the runner under its prefix; afterwards these variables are gone
  from the environment, even those that had been there before, and no other variable has changed.\<close>

theorem script_environment:
  assumes "script_run c F system s e = (Inr ok, s', e')"
    and "distinct (map fst (sc_env s))"
  shows "\<exists>seen. ok = (system (hook_path c s) seen = 0) \<and>
    (\<forall>(k, v) \<in> set (sc_env s). seen (''DBL_'' @ k) = Some v \<and> e' (''DBL_'' @ k) = None) \<and>
    (\<forall>x. (\<forall>k. x \<noteq> ''DBL_'' @ k) \<longrightarrow> seen x = e x \<and> e' x = e x)"
proof -
  let ?seen = "export_env s e"
  have run: "ok = (system (hook_path c s) ?seen = 0)"
    "e' = unexport_env s ?seen"
    using assms(1) by (auto simp: script_run_def is_success_def export_env_def unexport_env_def Let_def
        split: if_splits)
  have gone: "unexport_env s ?seen (''DBL_'' @ k) = None" if "(k, v) \<in> set (sc_env s)" for k v
    using that by (force simp: unexport_env_eq)
  have "unexport_env s ?seen x = e x" if "\<forall>k. x \<noteq> ''DBL_'' @ k" for x
    using that export_env_other [of x s e] by (auto simp: unexport_env_eq)
  then show ?thesis
    using run gone export_env_own [OF assms(2), of _ _ e] export_env_other [of _ s e]
    by (intro exI [of _ ?seen]) auto
qed

text \<open>With the configuration of the program the path of a script has the base directory twice, and the
  platform twice: the configured script directory holds both already.\<close>

theorem hook_path_doubled:
  assumes "sc_name s \<noteq> []" and "hd (sc_name s) \<noteq> CHR ''/''"
  shows "hook_path unix_config s =
    ''/etc/dnsblocker/etc/dnsblocker/scripts/unix/unix/'' @ sc_name s"
proof -
  have "base_dir unix_config = ''/etc/dnsblocker''" "platform unix_config = ''unix''"
    "script_dir unix_config = ''/etc/dnsblocker/scripts/unix''"
    by code_simp+
  then show ?thesis using assms by (simp add: hook_path_def path_append_def)
qed

end
