(* ===== verification/Spec2Isabelle.thy ===== *)
theory Spec2Isabelle
  imports Dbl_Witnesses Dbl_Columns Dbl_Script
begin

text \<open>
  A verification library for dbl-service, a service that blocks domains: it keeps block lists and a
  whitelist in a SQLite database, writes configuration files for a DNS proxy (Unbound or Dnsmasq) that
  redirect the blocked names, answers the redirected HTTP requests, downloads new versions of the lists,
  and is controlled over a JSON protocol and from the command line.

  Parts and theories (paths are relative to \<open>src/src\<close>):

  \<^item> \<open>Dbl_Prelude\<close>: exceptions and outcomes (a sum, \<open>Inl\<close> the exception), string operations of the
    standard library and of Boost, association lists, and the interfaces \<open>kv_put\<close>, \<open>kv_store\<close> and
    \<open>kv_add\<close> of keyed tables.
  \<^item> \<open>Dbl_Json\<close>: the data model of \<open>Json::Value\<close>; \<open>Dbl_Types\<close>: \<open>dbl/types\<close>, \<open>dbl/status\<close>,
    \<open>dbl/validator\<close>.
  \<^item> \<open>Dbl_Store\<close>: the schema, the statements and the initial data of \<open>dbl/db\<close>, and the
    well-formedness invariant \<open>db_wf\<close> of the tables; \<open>Dbl_Managers\<close>: \<open>dbl/manager\<close> and \<open>dbl/logger\<close>, one
    function per operation, with sessions, transactions and their failures, the step relation \<open>db_step\<close>
    of everything that changes the database, and the states \<open>db_reachable\<close> by it; \<open>Dbl_Columns\<close>: the
    conversions of rows (\<open>dbl/types\<close>, \<open>dbl/db/utils\<close>).
  \<^item> \<open>Dbl_Transactions\<close>: the operations as sequences of committed transactions (\<open>db_txn\<close>), at
    which grain the threads interleave, and the invariants at that grain; \<open>Dbl_Policy\<close>: the abstract
    specification of the managers, a policy that says which lists there are and where each domain
    belongs, and the simulation between the tables and the policy; \<open>Dbl_Pool\<close>: the pool of sessions
    (\<open>dbl/db/db.cxx\<close>), the order in which the operations take and return them, and the threads that
    share the pool.
  \<^item> \<open>Dbl_Auth\<close>: \<open>dbl/auth\<close> and \<open>dbl/util/crypto.cxx\<close>.
  \<^item> \<open>Dbl_Connection\<close>: the read and write loop of a connection, with the interfaces
    \<open>request_handler\<close> and \<open>total_handler\<close>; \<open>Dbl_Server\<close>: the JSON service, one function per handler;
    \<open>Dbl_Responder\<close>: the HTTP responder; \<open>Dbl_System\<close>: the TCP server (\<open>dbl/service/server/server.hxx\<close>)
    with any number of interleaved connections, its two instances, and the worker that runs both beside
    other threads.
  \<^item> \<open>Dbl_Client\<close>: the client library \<open>dblclient\<close>, and a client that talks to the model of the
    server; \<open>Dbl_Socket\<close>: its socket under deadlines; \<open>Dbl_Remote\<close>: the commands of the managers sent by
    a client, over the model of the server; \<open>Dbl_Suite\<close>: the client test programs of the repository
    (\<open>test/dblclient\<close>), with the server they start; \<open>Dbl_Enforcement\<close>: the way of a command from the
    client, through the end of a pass and the start of the next, to the configuration of the DNS proxy.
  \<^item> \<open>Dbl_Http\<close>: \<open>dbl/net/http\<close> and \<open>dbl/util/http.cxx\<close>; \<open>Dbl_Updater\<close>: \<open>dbl/updater\<close>;
    \<open>Dbl_Worker\<close>: \<open>dbl/service/worker\<close>, with the race of the update loop and the stop request as a step
    relation.
  \<^item> \<open>Dbl_Config\<close>, \<open>Dbl_Options\<close>: \<open>dbl/config\<close>, \<open>dbl/options\<close>, \<open>dbl/init\<close>; \<open>Dbl_Cli\<close>: \<open>dbl/mgmt\<close>,
    \<open>dbl/query\<close>.
  \<^item> \<open>Dbl_Files\<close>: paths, files, templates; \<open>Dbl_Proxy\<close>: \<open>dbl/dnsproxy\<close>; \<open>Dbl_Network\<close>:
    \<open>dbl/service/configurator\<close>.
  \<^item> \<open>Dbl_Process\<close>: the master process (\<open>dbl/service/unix.cxx\<close>, \<open>dbl/sys/command.cxx\<close>);
    \<open>Dbl_Handshake\<close>: the shared memory (\<open>dbl/ipc\<close>), the wait of the worker for the master, and the
    signals that reach the worker in each part of its life; \<open>Dbl_Signals\<close>: the signals that reach the
    master, during its wait and at any point of the loop of \<open>main\<close>; \<open>Dbl_Script\<close>: the hook scripts and their
    environment (\<open>dbl/sys/script\<close>); \<open>Dbl_Main\<close>: \<open>dbl/main.cxx\<close> and the service object.
  \<^item> \<open>Dbl_Reference\<close>: a concrete instance of every parameter; \<open>Dbl_Witnesses\<close>: the properties at
    concrete inputs.

  How the parts interact. \<open>main_loop\<close> repeats \<open>main_turn\<close>: options, database, the tools, then the
  service, whose master forks a worker (\<open>process_worker\<close>) that waits for the proxy to be up
  (\<open>daemonize\<close>) and runs \<open>unix_worker_run\<close>: servers, privileges, then \<open>worker_loop\<close>, which calls
  \<open>updater_run\<close>. \<open>connection_run\<close> drives \<open>service_process\<close> and \<open>responder_process\<close>; \<open>Dbl_Client\<close> closes
  the circle with \<open>server_wire\<close>. All of them change one database, by steps of \<open>db_step\<close>.

  The worker of \<open>Dbl_System\<close> interleaves the events of both servers with the transactions of the updater
  and of other processes.

  Interfaces (locales) and their interpretations: \<open>simulation\<close>, a detailed machine that implements an
  abstract one, on the managers and the policy in \<open>Dbl_Policy\<close>; \<open>connection_type\<close>, what a connection
  promises to the TCP server, on both kinds of connection in \<open>Dbl_System\<close>; the keyed tables (\<open>kv_put\<close>,
  \<open>kv_store\<close>, \<open>kv_add\<close>) on the domain and settings tables of \<open>Dbl_Store\<close>; \<open>settings_service\<close>, what the
  authentication needs of the settings, on \<open>SettingsManager\<close> in \<open>Dbl_Auth\<close>; \<open>request_handler\<close> on the
  JSON service in \<open>Dbl_Server\<close>, and \<open>total_handler\<close>, which extends it with an answer to every request,
  on the HTTP responder in \<open>Dbl_Responder\<close>.

  What the lemmas show. The managers refine the policy: every sequence of operations (\<open>perform\<close>) has the
  effect of the same sequence of abstract operations (\<open>abstract_step\<close>), up to the command that leaves
  its transaction open and freezes the policy; and an operation whose sessions fail has its whole effect
  on what is blocked or none. The invariants \<open>db_wf\<close> and \<open>list_flags\<close> hold in every state that any
  interleaving of requests, commands, updates and failures reaches. Each operation of the managers is
  characterised by what it does to \<open>blocked\<close>, \<open>whitelisted\<close> and the table maps, also when a session
  fails. The service gates every command but the ones of the protocol behind a password; a sequence of
  commands that a client sends over the wire moves the policy of the server as the same sequence of
  abstract operations does, and the listings the client reads are what the policy says, and so is the
  configuration of the DNS proxy that the program writes in the pass after a reload; the client tests of
  the repository pass in the model, on every server that is ready for them. Round trips for JSON,
  headers, templates and the pid file; the ways the processes start, stop and end, under signals
  too; threads that share the sessions of the pool never wait for one another for good; and, where the code does not do what
  it means to, theorems that say so.

  Library code. Where the documented contract determines the result, the model writes it out: string
  algorithms, paths, the accessors of \<open>Json::Value\<close>, the SQL statements on the four tables with their
  constraints, the store and notify steps of Boost.Program_options, the ids of POSIX. Everything else is
  a parameter: \<open>jsoncpp\<close>, the writer and parser of JSON (laws \<open>jsoncpp_ok\<close> and \<open>jsoncpp_roundtrip\<close>, the
  latter only for printable strings and 32-bit integers); the \<open>resolver\<close>; the MD5 digest (law
  \<open>digest_ok\<close>: sixteen bytes); \<open>db_faults\<close>, for each session to come what becomes of it (\<open>fate\<close>: a
  failed transaction commits nothing, a transaction left open makes the later ones fail, and once the
  list is exhausted all succeed); the clock; libcurl and its date parser; the network interfaces; the
  operating system under the master, with the time its commands take; the allocator of shared memory
  (law \<open>shm_ok\<close>: new memory is zero); the files; the random UUID of a connection; the order of hash
  maps; the parsers of command line and configuration file; and the events of the environment
  (\<open>main_env\<close>, \<open>net_event\<close>, \<open>socket_handler\<close>).

  Bounds and fuel. \<open>main_loop\<close> takes fuel, one unit for each reload, since the program may go on for
  ever; the properties of it hold for every fuel. \<open>worker_loop\<close> is structural in the wake-ups of the
  condition variable. All other functions are total; integers of the code are \<open>int\<close>, with \<open>to_int32\<close>
  where JsonCpp converts, and bytes of digests are \<open>8 word\<close>.

  Not modelled: the messages to the log and the help text; the declarations of headers that only repeat
  what the definitions have; classes that nothing defines or uses (\<open>WhitelistedDomain\<close>, but its
  conversion is in \<open>Dbl_Columns\<close>); the runner of the tests, which is a git submodule; and the build system.
\<close>

end
